(* ===== verification/Relayly_Prelude.thy ===== *)
theory Relayly_Prelude
  imports Main "HOL-Library.Word" "HOL-Library.List_Lexorder" "HOL-Library.Char_ord"
    "HOL-Library.Sublist"
begin

text \<open>
  Shared vocabulary of the development: the names of the model's basic types, the
  collections of simplification and introduction rules the component theories fill, the
  generic notion of a reachable state, and the interface contract \<open>tofu_lock\<close> ("first
  value wins, for ever") that two components of the program promise independently: the
  server's announced-key lock (\<^verbatim>\<open>internal/database/pairing.go\<close>) and the client's pin
  store (\<^verbatim>\<open>sdk/go/peerstore.go\<close>).
\<close>

section \<open>Types\<close>

text \<open>
  Instants and durations are counted in nanoseconds, as \<^verbatim>\<open>time.Time\<close> and
  \<^verbatim>\<open>time.Duration\<close> are. A Go string is a sequence of bytes, and so is a HOL \<open>string\<close>.
\<close>

type_synonym time = int
type_synonym duration = int
type_synonym bytes = "8 word list"
type_synonym device_id = string

abbreviation Second :: duration where
  "Second \<equiv> 1000000000"

abbreviation Minute :: duration where
  "Minute \<equiv> 60 * Second"

section \<open>Rule collections\<close>

named_theorems sql_simps \<open>effect of single SQL statements on the device table\<close>
named_theorems frame_simps \<open>what an operation leaves unchanged\<close>
named_theorems inv_intros \<open>preservation of the components' invariants\<close>

section \<open>Reachable states\<close>

inductive reach :: "('s \<Rightarrow> bool) \<Rightarrow> ('s \<Rightarrow> 's \<Rightarrow> bool) \<Rightarrow> 's \<Rightarrow> bool"
  for init :: "'s \<Rightarrow> bool" and step :: "'s \<Rightarrow> 's \<Rightarrow> bool" where
  reach_init: "init s \<Longrightarrow> reach init step s"
| reach_step: "reach init step s \<Longrightarrow> step s t \<Longrightarrow> reach init step t"

lemma reach_idem: "reach (reach init step) step s \<Longrightarrow> reach init step s"
  by (induction rule: reach.induct) (blast intro: reach.reach_step)+

text \<open>An inductive invariant: the contract between a step relation and what it keeps.\<close>

locale inductive_invariant =
  fixes init :: "'s \<Rightarrow> bool"
    and step :: "'s \<Rightarrow> 's \<Rightarrow> bool"
    and inv :: "'s \<Rightarrow> bool"
  assumes inv_init: "init s \<Longrightarrow> inv s"
    and inv_step: "inv s \<Longrightarrow> step s t \<Longrightarrow> inv t"
begin

lemma reach_inv: "reach init step s \<Longrightarrow> inv s"
  by (induction rule: reach.induct) (auto intro: inv_init inv_step)

end

text \<open>
  A refinement mapping: under the invariant, every step of the detailed system is a step of
  the specification between the images, or invisible to it. What holds of every reachable
  state of the specification then holds of the images of the system's states.
\<close>

locale refinement_mapping = inductive_invariant +
  fixes abs :: "'s \<Rightarrow> 'a"
    and ainit :: "'a \<Rightarrow> bool"
    and astep :: "'a \<Rightarrow> 'a \<Rightarrow> bool"
  assumes abs_init: "init s \<Longrightarrow> ainit (abs s)"
    and abs_step: "inv s \<Longrightarrow> step s t \<Longrightarrow> abs t = abs s \<or> astep (abs s) (abs t)"
begin

lemma refines: "reach init step s \<Longrightarrow> reach ainit astep (abs s)"
proof (induction rule: reach.induct)
  case (reach_step s t)
  then show ?case
    using abs_step [OF reach_inv [OF reach_step.hyps(1)] reach_step.hyps(2)]
    by (metis reach.reach_step)
qed (blast intro: reach.reach_init abs_init)

end

section \<open>Trust on first use\<close>

text \<open>
  \<open>lock k v s\<close> offers the value \<open>v\<close> for the key \<open>k\<close>; its first result says whether
  the offer was accepted. \<open>locked s k\<close> is the value on record. Values that are not
  \<open>valid\<close> are never offered by the callers.
\<close>

locale tofu_lock =
  fixes lock :: "'k \<Rightarrow> 'v \<Rightarrow> 's \<Rightarrow> bool \<times> 's"
    and locked :: "'s \<Rightarrow> 'k \<Rightarrow> 'v option"
    and valid :: "'v \<Rightarrow> bool"
  assumes lock_keeps: "locked s k = Some v \<Longrightarrow> locked (snd (lock k' v' s)) k = Some v"
    and lock_accept: "valid v \<Longrightarrow> fst (lock k v s) \<Longrightarrow> locked (snd (lock k v s)) k = Some v"
    and lock_reject: "locked s k = Some w \<Longrightarrow> w \<noteq> v \<Longrightarrow> \<not> fst (lock k v s)"
begin

lemma locked_run:
  "locked s k = Some v \<Longrightarrow> locked (fold (\<lambda>(k, v) s. snd (lock k v s)) offers s) k = Some v"
  by (induction offers arbitrary: s) (auto simp: lock_keeps)

lemma first_offer_wins:
  assumes "valid v" and "fst (lock k v s)"
    and "t = fold (\<lambda>(k, v) s. snd (lock k v s)) offers (snd (lock k v s))"
    and "fst (lock k w t)"
  shows "w = v"
proof -
  have "locked t k = Some v"
    using assms(1-3) by (simp add: lock_accept locked_run)
  then have "\<not> fst (lock k w t)" if "w \<noteq> v"
    using that lock_reject [of t k v w] by blast
  with assms(4) show ?thesis by blast
qed

end

section \<open>Bounded queues\<close>

text \<open>
  A channel written with a non-blocking send: an offer is either appended at the end or
  refused without any effect, and the capacity is never exceeded. Two components promise
  this: the relay's send queue of a client, and the message channel of the SDK.
\<close>

locale bounded_queue =
  fixes offer :: "'f \<Rightarrow> 'q \<Rightarrow> bool \<times> 'q"
    and contents :: "'q \<Rightarrow> 'f list"
    and capacity :: nat
  assumes offer_accepted: "fst (offer f q) \<Longrightarrow> contents (snd (offer f q)) = contents q @ [f]"
    and offer_refused: "\<not> fst (offer f q) \<Longrightarrow> snd (offer f q) = q"
    and offer_room: "fst (offer f q) \<Longrightarrow> length (contents q) < capacity"
begin

lemma offer_bounded:
  "length (contents q) \<le> capacity \<Longrightarrow> length (contents (snd (offer f q))) \<le> capacity"
  using offer_room [of f q] by (cases "fst (offer f q)") (simp_all add: offer_accepted offer_refused)

lemma offers_in_order:
  "\<exists>acc. subseq acc fs \<and> contents (fold (\<lambda>f q. snd (offer f q)) fs q) = contents q @ acc"
proof (induction fs arbitrary: q)
  case (Cons f fs)
  obtain acc where acc: "subseq acc fs"
    "contents (fold (\<lambda>f q. snd (offer f q)) fs (snd (offer f q))) = contents (snd (offer f q)) @ acc"
    using Cons.IH by blast
  show ?case
  proof (cases "fst (offer f q)")
    case True
    with acc show ?thesis by (intro exI [of _ "f # acc"]) (simp add: offer_accepted)
  next
    case False
    with acc show ?thesis by (intro exI [of _ acc]) (simp add: offer_refused list_emb_Cons)
  qed
qed simp

lemma offers_bounded:
  "length (contents q) \<le> capacity \<Longrightarrow>
    length (contents (fold (\<lambda>f q. snd (offer f q)) fs q)) \<le> capacity"
  by (induction fs arbitrary: q) (simp_all add: offer_bounded)

end

section \<open>Lists and options\<close>

lemma distinct_map_update [simp]:
  "(\<And>x. g (if p x then f x else x) = g x) \<Longrightarrow>
    distinct (map (g \<circ> (\<lambda>x. if p x then f x else x)) xs) = distinct (map g xs)"
  by (simp add: comp_def)

lemma find_map_same_key:
  "(\<And>x. key (f x) = key x) \<Longrightarrow>
    find (\<lambda>x. key x = k) (map f xs) = map_option f (find (\<lambda>x. key x = k) xs)"
  by (induction xs) auto

lemma find_SomeD: "find P xs = Some x \<Longrightarrow> x \<in> set xs \<and> P x"
  by (auto simp: find_Some_iff)

lemma find_distinct_key:
  "distinct (map key xs) \<Longrightarrow> x \<in> set xs \<Longrightarrow> find (\<lambda>y. key y = key x) xs = Some x"
  by (induction xs) (auto simp: rev_image_eqI)

section \<open>Bytes\<close>

lemma unat_byte: "unat (b :: 8 word) < 256"
  using unsigned_less [of b] by simp

end
