(* ===== verification/Pair_Codes.thy ===== *)
theory Pair_Codes
  imports Relayly_Prelude
begin

text \<open>
  The in-memory registry of pairing codes (\<^verbatim>\<open>internal/relay/paircodes.go\<close>): a code maps
  to the device that asked for it and to an expiry instant. \<open>Put\<close> and \<open>Take\<close> take
  the value \<^verbatim>\<open>time.Now()\<close> returns as the argument \<open>now\<close>; the mutex makes each of them
  one atomic step. The locale \<open>code_registry\<close> states what the pairing handlers rely on.
\<close>

section \<open>Data and operations\<close>

record pairCodeEntry =
  requesterID :: device_id
  expiresAt :: time

record pairCodeRegistry =
  entries :: "string \<rightharpoonup> pairCodeEntry"

definition newPairCodeRegistry :: pairCodeRegistry where
  "newPairCodeRegistry = \<lparr>entries = Map.empty\<rparr>"

definition Put :: "time \<Rightarrow> string \<Rightarrow> device_id \<Rightarrow> duration \<Rightarrow> pairCodeRegistry \<Rightarrow> pairCodeRegistry" where
  "Put now code rid ttl r =
     r\<lparr>entries := (entries r)(code \<mapsto> \<lparr>requesterID = rid, expiresAt = now + ttl\<rparr>)\<rparr>"

text \<open>The result triple is \<open>(requesterID, expired, ok)\<close>.\<close>

definition Take :: "time \<Rightarrow> string \<Rightarrow> pairCodeRegistry \<Rightarrow>
    (device_id \<times> bool \<times> bool) \<times> pairCodeRegistry" where
  "Take now code r =
     (case entries r code of
        None \<Rightarrow> (('''', False, False), r)
      | Some entry \<Rightarrow>
          (let r' = r\<lparr>entries := (entries r)(code := None)\<rparr> in
           if expiresAt entry < now then (('''', True, False), r')
           else ((requesterID entry, False, True), r')))"

text \<open>Sequences of registry operations, as the concurrent handlers issue them.\<close>

datatype code_op = Issue time string device_id duration | Redeem time string

fun code_of :: "code_op \<Rightarrow> string" where
  "code_of (Issue _ c _ _) = c"
| "code_of (Redeem _ c) = c"

fun is_issue :: "code_op \<Rightarrow> bool" where
  "is_issue (Issue _ _ _ _) = True"
| "is_issue (Redeem _ _) = False"

fun code_run :: "(time \<Rightarrow> string \<Rightarrow> device_id \<Rightarrow> duration \<Rightarrow> 'r \<Rightarrow> 'r) \<Rightarrow>
    (time \<Rightarrow> string \<Rightarrow> 'r \<Rightarrow> 'a \<times> 'r) \<Rightarrow> code_op list \<Rightarrow> 'r \<Rightarrow> 'r" where
  "code_run put tk [] r = r"
| "code_run put tk (Issue t c rid ttl # ops) r = code_run put tk ops (put t c rid ttl r)"
| "code_run put tk (Redeem t c # ops) r = code_run put tk ops (snd (tk t c r))"

section \<open>Lemmas\<close>

lemma Take_result:
  "fst (Take now code r) =
     (case entries r code of None \<Rightarrow> ('''', False, False)
      | Some e \<Rightarrow> if expiresAt e < now then ('''', True, False) else (requesterID e, False, True))"
  by (simp add: Take_def Let_def split: option.split)

lemma entries_Take [simp]: "entries (snd (Take now code r)) = (entries r)(code := None)"
  by (auto simp: Take_def Let_def fun_eq_iff split: option.split)

lemma entries_Put [simp]:
  "entries (Put now code rid ttl r) = (entries r)(code \<mapsto> \<lparr>requesterID = rid, expiresAt = now + ttl\<rparr>)"
  by (simp add: Put_def)

section \<open>The contract of the registry\<close>

text \<open>
  \<open>peek r code\<close> is the pending request of a code. A successful \<open>take_code\<close> reports it,
  every \<open>take_code\<close> consumes it, and operations on one code leave the others alone.
\<close>

locale code_registry =
  fixes put :: "time \<Rightarrow> string \<Rightarrow> device_id \<Rightarrow> duration \<Rightarrow> 'r \<Rightarrow> 'r"
    and take_code :: "time \<Rightarrow> string \<Rightarrow> 'r \<Rightarrow> (device_id \<times> bool \<times> bool) \<times> 'r"
    and peek :: "'r \<Rightarrow> string \<Rightarrow> (device_id \<times> time) option"
  assumes peek_put: "peek (put now c rid ttl r) = (peek r)(c \<mapsto> (rid, now + ttl))"
    and peek_take: "peek (snd (take_code now c r)) = (peek r)(c := None)"
    and take_none: "peek r c = None \<Longrightarrow> fst (take_code now c r) = ('''', False, False)"
    and take_live: "peek r c = Some (rid, e) \<Longrightarrow> now \<le> e \<Longrightarrow>
      fst (take_code now c r) = (rid, False, True)"
    and take_dead: "peek r c = Some (rid, e) \<Longrightarrow> e < now \<Longrightarrow>
      fst (take_code now c r) = ('''', True, False)"
begin

lemma consumed_stays:
  assumes "\<And>op. op \<in> set ops \<Longrightarrow> is_issue op \<Longrightarrow> code_of op \<noteq> c" and "peek r c = None"
  shows "peek (code_run put take_code ops r) c = None"
  using assms
proof (induction ops arbitrary: r)
  case (Cons op ops)
  show ?case
  proof (cases op)
    case (Issue t c' rid ttl)
    with Cons.prems have "peek (put t c' rid ttl r) c = None"
      using Cons.prems(1) [of op] by (simp add: peek_put)
    with Cons.prems(1) Issue show ?thesis
      by (simp add: Cons.IH)
  next
    case (Redeem t c')
    with Cons.prems have "peek (snd (take_code t c' r)) c = None"
      by (simp add: peek_take)
    with Cons.prems(1) Redeem show ?thesis
      by (simp add: Cons.IH)
  qed
qed simp

lemma other_codes_stay:
  assumes "\<And>op. op \<in> set ops \<Longrightarrow> code_of op \<noteq> c"
  shows "peek (code_run put take_code ops r) c = peek r c"
  using assms
proof (induction ops arbitrary: r)
  case (Cons op ops)
  have "code_of op \<noteq> c" using Cons.prems by simp
  with Cons.IH Cons.prems show ?case
    by (cases op) (simp_all add: peek_put peek_take)
qed simp

lemma single_use:
  assumes "\<And>op. op \<in> set ops \<Longrightarrow> is_issue op \<Longrightarrow> code_of op \<noteq> c"
  shows "fst (take_code later c (code_run put take_code ops (snd (take_code now c r)))) = ('''', False, False)"
  using assms by (intro take_none consumed_stays) (auto simp: peek_take)

lemma redeem_once:
  assumes "\<And>op. op \<in> set ops \<Longrightarrow> code_of op \<noteq> c"
  shows "fst (take_code later c (code_run put take_code ops (put now c rid ttl r))) =
    (if later \<le> now + ttl then (rid, False, True) else ('''', True, False))"
proof -
  have "peek (code_run put take_code ops (put now c rid ttl r)) c = Some (rid, now + ttl)"
    using assms by (simp add: other_codes_stay peek_put)
  then show ?thesis
    by (auto simp: take_live take_dead not_le)
qed

end

interpretation pcr: code_registry Put Take
  "\<lambda>r c. map_option (\<lambda>e. (requesterID e, expiresAt e)) (entries r c)"
  by unfold_locales (auto simp: Take_result fun_eq_iff)

section \<open>Properties\<close>

text \<open>
  A pairing code is single use. Whatever the outcome of a redemption of a code, a
  later redemption of the same code is rejected as unknown, no matter which codes are
  issued or redeemed in between, as long as this code is not issued again.
\<close>

theorem pair_code_single_use:
  assumes "\<And>op. op \<in> set ops \<Longrightarrow> is_issue op \<Longrightarrow> code_of op \<noteq> code"
  shows "fst (Take later code (code_run Put Take ops (snd (Take now code r)))) = ('''', False, False)"
  using assms by (rule pcr.single_use)

theorem pair_code_single_use_witness:
  "fst (Take 9 ''123456'' (code_run Put Take [Issue 5 ''654321'' ''b'' 300, Redeem 6 ''123456'']
      (snd (Take 4 ''123456'' (Put 3 ''123456'' ''a'' 300 newPairCodeRegistry))))) = ('''', False, False)"
  by (rule pair_code_single_use) auto

text \<open>
  C26: a code is worth exactly its lifetime. However many other codes are issued and
  redeemed after a code was issued, redeeming it names the device that asked for it up to
  and including the expiry instant, and reports it as expired after that instant.
\<close>

theorem pair_code_lifetime:
  assumes "\<And>op. op \<in> set ops \<Longrightarrow> code_of op \<noteq> code"
  shows "fst (Take later code (code_run Put Take ops (Put now code rid ttl r))) =
    (if later \<le> now + ttl then (rid, False, True) else ('''', True, False))"
  using assms by (rule pcr.redeem_once)

theorem pair_code_lifetime_witness:
  "fst (Take 303 ''123456'' (code_run Put Take [Issue 5 ''654321'' ''b'' 300, Redeem 6 ''000000'']
      (Put 3 ''123456'' ''a'' 300 newPairCodeRegistry))) = (''a'', False, True)"
  by (subst pair_code_lifetime) auto

end
