(* ===== verification/Device_Store.thy ===== *)
theory Device_Store
  imports Relayly_Prelude
begin

text \<open>
  The device table and its operations (\<^verbatim>\<open>internal/database/pairing.go\<close>). The table is a
  list of rows; \<open>UPDATE\<close>, \<open>DELETE\<close> and \<open>SELECT\<close> are the list functions the SQL text
  of the source denotes, with SQL's rule that \<open>NULL\<close> equals nothing (a nullable column is
  an \<open>option\<close>). The driver may fail at every call: \<open>faults\<close> is the script of the outcomes
  of the coming calls (\<open>True\<close>: the call returns an error and has no effect; an exhausted
  script means success), so each \<^verbatim>\<open>if err != nil\<close> of the source is a branch of the
  model. The pool holds one connection (\<^verbatim>\<open>SetMaxOpenConns(1)\<close>), so a transaction runs
  without interleaving; a transaction that fails, or whose \<open>COMMIT\<close> fails, is rolled back.
\<close>

section \<open>Rows, devices, errors\<close>

record row =
  row_id :: device_id
  row_name :: string
  row_public_key :: string
  row_device_token :: string
  row_static_key :: "string option"
  row_paired_with :: "device_id option"
  row_created_at :: time
  row_last_seen :: "time option"
  row_expires_at :: "time option"

record Device =
  ID :: device_id
  Name :: string
  PublicKey :: string
  DeviceToken :: string
  StaticKey :: string
  PairedWith :: "device_id option"
  CreatedAt :: time
  LastSeen :: "time option"
  ExpiresAt :: "time option"

definition PairedWithShort :: "Device \<Rightarrow> string" where
  "PairedWithShort d =
     (case PairedWith d of
        None \<Rightarrow> ''''
      | Some p \<Rightarrow> if length p < 8 then p else take 8 p)"

datatype db_error = ErrNotFound | ErrAlreadyPaired | ErrStaticKeyMismatch | ErrConstraint | ErrDriver

record db =
  devices :: "row list"
  faults :: "bool list"

type_synonym 'a dbm = "db \<Rightarrow> (db_error + 'a) \<times> db"

section \<open>The SQL layer\<close>

definition db_return :: "'a \<Rightarrow> 'a dbm" where
  "db_return x d = (Inr x, d)"

definition db_fail :: "db_error \<Rightarrow> 'a dbm" where
  "db_fail e d = (Inl e, d)"

definition db_bind :: "'a dbm \<Rightarrow> ('a \<Rightarrow> 'b dbm) \<Rightarrow> 'b dbm" where
  "db_bind m k d = (case m d of (Inl e, d') \<Rightarrow> (Inl e, d') | (Inr x, d') \<Rightarrow> k x d')"

text \<open>One call of the driver.\<close>

definition db_call :: "unit dbm" where
  "db_call d =
     (case faults d of
        [] \<Rightarrow> (Inr (), d)
      | f # fs \<Rightarrow> (if f then Inl ErrDriver else Inr (), d\<lparr>faults := fs\<rparr>))"

definition Exec :: "(row list \<Rightarrow> row list) \<Rightarrow> unit dbm" where
  "Exec f = db_bind db_call (\<lambda>_ d. (Inr (), d\<lparr>devices := f (devices d)\<rparr>))"

definition QueryRow :: "(row \<Rightarrow> bool) \<Rightarrow> row dbm" where
  "QueryRow p = db_bind db_call (\<lambda>_ d.
     (case find p (devices d) of None \<Rightarrow> (Inl ErrNotFound, d) | Some r \<Rightarrow> (Inr r, d)))"

definition transaction :: "'a dbm \<Rightarrow> 'a dbm" where
  "transaction body d =
     (case db_bind db_call (\<lambda>_. db_bind body (\<lambda>x. db_bind db_call (\<lambda>_. db_return x))) d of
        (Inl e, d') \<Rightarrow> (Inl e, d'\<lparr>devices := devices d\<rparr>)
      | (Inr x, d') \<Rightarrow> (Inr x, d'))"

definition update_where :: "(row \<Rightarrow> bool) \<Rightarrow> (row \<Rightarrow> row) \<Rightarrow> row list \<Rightarrow> row list" where
  "update_where p f = map (\<lambda>r. if p r then f r else r)"

section \<open>Operations\<close>

definition scanDevice :: "row \<Rightarrow> Device" where
  "scanDevice r =
     \<lparr>ID = row_id r, Name = row_name r, PublicKey = row_public_key r,
      DeviceToken = row_device_token r,
      StaticKey = (case row_static_key r of None \<Rightarrow> '''' | Some k \<Rightarrow> k),
      PairedWith = row_paired_with r, CreatedAt = row_created_at r,
      LastSeen = row_last_seen r, ExpiresAt = row_expires_at r\<rparr>"

definition CreateDevice :: "Device \<Rightarrow> unit dbm" where
  "CreateDevice d = db_bind db_call (\<lambda>_ s.
     if \<exists>r \<in> set (devices s). row_id r = ID d \<or> row_device_token r = DeviceToken d
     then (Inl ErrConstraint, s)
     else (Inr (), s\<lparr>devices := devices s @
       [\<lparr>row_id = ID d, row_name = Name d, row_public_key = PublicKey d,
         row_device_token = DeviceToken d, row_static_key = None, row_paired_with = None,
         row_created_at = CreatedAt d, row_last_seen = None, row_expires_at = ExpiresAt d\<rparr>]\<rparr>))"

definition GetDeviceByDeviceToken :: "string \<Rightarrow> Device dbm" where
  "GetDeviceByDeviceToken token =
     db_bind (QueryRow (\<lambda>r. row_device_token r = token)) (\<lambda>r. db_return (scanDevice r))"

definition GetDeviceByID :: "device_id \<Rightarrow> Device dbm" where
  "GetDeviceByID i = db_bind (QueryRow (\<lambda>r. row_id r = i)) (\<lambda>r. db_return (scanDevice r))"

definition ListDevices :: "Device list dbm" where
  "ListDevices = db_bind db_call (\<lambda>_ d.
     (Inr (map scanDevice (sort_key row_created_at (devices d))), d))"

fun check_unpaired :: "device_id list \<Rightarrow> unit dbm" where
  "check_unpaired [] = db_return ()"
| "check_unpaired (i # ids) =
     db_bind (QueryRow (\<lambda>r. row_id r = i)) (\<lambda>r.
       if row_paired_with r \<noteq> None then db_fail ErrAlreadyPaired else check_unpaired ids)"

text \<open>
  The map literal \<^verbatim>\<open>map[string]string{idA: idB, idB: idA}\<close> as the list of pairs its
  \<^verbatim>\<open>range\<close> visits. Go leaves the order open: \<open>swap\<close> chooses it. Equal keys collapse.
\<close>

definition link_pairs :: "bool \<Rightarrow> device_id \<Rightarrow> device_id \<Rightarrow> (device_id \<times> device_id) list" where
  "link_pairs swap a b =
     (if a = b then [(a, a)] else if swap then [(b, a), (a, b)] else [(a, b), (b, a)])"

fun link_rows :: "(device_id \<times> device_id) list \<Rightarrow> unit dbm" where
  "link_rows [] = db_return ()"
| "link_rows ((this, peer) # ps) =
     db_bind (Exec (update_where (\<lambda>r. row_id r = this)
               (\<lambda>r. r\<lparr>row_paired_with := Some peer, row_expires_at := None\<rparr>)))
       (\<lambda>_. link_rows ps)"

definition PairDevices :: "bool \<Rightarrow> device_id \<Rightarrow> device_id \<Rightarrow> unit dbm" where
  "PairDevices swap a b = transaction
     (db_bind (check_unpaired [a, b]) (\<lambda>_. link_rows (link_pairs swap a b)))"

definition UnpairDevice :: "device_id \<Rightarrow> unit dbm" where
  "UnpairDevice i =
     Exec (update_where (\<lambda>r. row_id r = i \<or> row_paired_with r = Some i) (\<lambda>r. r\<lparr>row_paired_with := None\<rparr>))"

definition UpdatePublicKey :: "device_id \<Rightarrow> string \<Rightarrow> unit dbm" where
  "UpdatePublicKey i k = Exec (update_where (\<lambda>r. row_id r = i) (\<lambda>r. r\<lparr>row_public_key := k\<rparr>))"

definition SetStaticKeyIfUnset :: "device_id \<Rightarrow> string \<Rightarrow> unit dbm" where
  "SetStaticKeyIfUnset i key = transaction
     (db_bind (QueryRow (\<lambda>r. row_id r = i)) (\<lambda>r.
        case row_static_key r of
          Some k \<Rightarrow>
            if k \<noteq> '''' then (if k \<noteq> key then db_fail ErrStaticKeyMismatch else db_return ())
            else Exec (update_where (\<lambda>r. row_id r = i) (\<lambda>r. r\<lparr>row_static_key := Some key\<rparr>))
        | None \<Rightarrow> Exec (update_where (\<lambda>r. row_id r = i) (\<lambda>r. r\<lparr>row_static_key := Some key\<rparr>))))"

definition TouchLastSeen :: "time \<Rightarrow> device_id \<Rightarrow> unit dbm" where
  "TouchLastSeen now i = Exec (update_where (\<lambda>r. row_id r = i) (\<lambda>r. r\<lparr>row_last_seen := Some now\<rparr>))"

definition DeleteDevice :: "device_id \<Rightarrow> unit dbm" where
  "DeleteDevice i =
     db_bind (Exec (update_where (\<lambda>r. row_paired_with r = Some i) (\<lambda>r. r\<lparr>row_paired_with := None\<rparr>)))
       (\<lambda>_. Exec (filter (\<lambda>r. row_id r \<noteq> i)))"

section \<open>Views and invariant\<close>

definition row_of :: "db \<Rightarrow> device_id \<Rightarrow> row option" where
  "row_of d i = find (\<lambda>r. row_id r = i) (devices d)"

definition peer_of :: "db \<Rightarrow> device_id \<Rightarrow> device_id option" where
  "peer_of d i = Option.bind (row_of d i) row_paired_with"

definition known :: "db \<Rightarrow> device_id set" where
  "known d = row_id ` set (devices d)"

definition locked_key :: "db \<Rightarrow> device_id \<Rightarrow> string option" where
  "locked_key d i =
     (case Option.bind (row_of d i) row_static_key of
        None \<Rightarrow> None | Some k \<Rightarrow> if k = '''' then None else Some k)"

definition is_ok :: "'e + 'a \<Rightarrow> bool" where
  "is_ok r = (case r of Inl _ \<Rightarrow> False | Inr _ \<Rightarrow> True)"

text \<open>
  The constraints of the schema (\<open>PRIMARY KEY\<close> and \<open>UNIQUE\<close>), and the promise of
  \<open>PairDevices\<close> that a paired device's token does not expire.
\<close>

definition db_wf :: "db \<Rightarrow> bool" where
  "db_wf d \<longleftrightarrow> distinct (map row_id (devices d)) \<and> distinct (map row_device_token (devices d)) \<and>
     (\<forall>r \<in> set (devices d). row_paired_with r \<noteq> None \<longrightarrow> row_expires_at r = None)"

section \<open>Outcome of the primitive calls\<close>

lemma is_ok_simps [simp]: "is_ok (Inr x)" "\<not> is_ok (Inl e)"
  by (simp_all add: is_ok_def)

lemma devices_db_call [sql_simps]: "devices (snd (db_call d)) = devices d"
  by (simp add: db_call_def split: list.split)

lemma db_call_ok: "faults d = [] \<Longrightarrow> db_call d = (Inr (), d)"
  by (simp add: db_call_def)

lemma db_bind_no_faults [simp]:
  "faults d = [] \<Longrightarrow> db_bind db_call k d = k () d"
  by (simp add: db_bind_def db_call_ok)

lemma db_bind_Inr: "m d = (Inr x, d') \<Longrightarrow> db_bind m k d = k x d'"
  by (simp add: db_bind_def)

lemma db_bind_Inl: "m d = (Inl e, d') \<Longrightarrow> db_bind m k d = (Inl e, d')"
  by (simp add: db_bind_def)

lemma db_bind_Inr_iff:
  "db_bind m k d = (Inr y, d') \<longleftrightarrow> (\<exists>x d1. m d = (Inr x, d1) \<and> k x d1 = (Inr y, d'))"
  by (auto simp: db_bind_def split: prod.splits sum.splits)

lemma is_okE:
  assumes "is_ok (fst p)"
  obtains x d where "p = (Inr x, d)"
  using assms by (cases p) (auto simp: is_ok_def split: sum.splits)

lemma devices_Exec [sql_simps]:
  "devices (snd (Exec f d)) = (if is_ok (fst (Exec f d)) then f (devices d) else devices d)"
  by (simp add: Exec_def db_bind_def db_call_def split: list.split)

lemma Exec_no_faults [sql_simps]:
  "faults d = [] \<Longrightarrow> Exec f d = (Inr (), d\<lparr>devices := f (devices d)\<rparr>)"
  by (simp add: Exec_def)

lemma QueryRow_no_faults [sql_simps]:
  "faults d = [] \<Longrightarrow> QueryRow p d =
    (case find p (devices d) of None \<Rightarrow> (Inl ErrNotFound, d) | Some r \<Rightarrow> (Inr r, d))"
  by (simp add: QueryRow_def)

lemma devices_QueryRow [sql_simps]: "devices (snd (QueryRow p d)) = devices d"
  by (simp add: QueryRow_def db_bind_def db_call_def split: list.split option.split)

lemma QueryRow_okD: "QueryRow p d = (Inr r, d') \<Longrightarrow> find p (devices d) = Some r \<and> devices d' = devices d"
  by (auto simp: QueryRow_def db_bind_def db_call_def split: list.splits option.splits if_splits)

lemma transaction_fail:
  "\<not> is_ok (fst (transaction b d)) \<Longrightarrow> devices (snd (transaction b d)) = devices d"
  by (auto simp: transaction_def split: prod.splits sum.splits)

lemma transaction_okE:
  assumes "is_ok (fst (transaction b d))"
  obtains x d1 d2 where "devices d1 = devices d" and "b d1 = (Inr x, d2)"
    and "fst (transaction b d) = Inr x" and "devices (snd (transaction b d)) = devices d2"
proof -
  let ?k = "\<lambda>x. db_bind db_call (\<lambda>_. db_return x)"
  obtain y d' where run: "db_bind db_call (\<lambda>_. db_bind b ?k) d = (Inr y, d')"
    and tr: "transaction b d = (Inr y, d')"
    using assms by (auto simp: transaction_def split: prod.splits sum.splits)
  obtain u d1 x d2 where d1: "db_call d = (Inr u, d1)" and d2: "b d1 = (Inr x, d2)"
    and run2: "?k x d2 = (Inr y, d')"
    using run by (auto simp: db_bind_Inr_iff)
  have "y = x" and "devices d' = devices d2"
    using run2 by (auto simp: db_bind_def db_call_def db_return_def split: list.splits if_splits)
  moreover have "devices d1 = devices d"
    using d1 devices_db_call [of d] by simp
  ultimately show ?thesis
    using that d2 tr by simp
qed

lemma transaction_no_faults:
  "faults d = [] \<Longrightarrow> b d = (Inr x, d') \<Longrightarrow> faults d' = [] \<Longrightarrow> transaction b d = (Inr x, d')"
  "faults d = [] \<Longrightarrow> b d = (Inl e, d') \<Longrightarrow> transaction b d = (Inl e, d'\<lparr>devices := devices d\<rparr>)"
  by (simp_all add: transaction_def db_bind_Inr db_bind_Inl db_return_def)

section \<open>Row views under updates\<close>

lemma row_of_map:
  assumes "devices d' = map f (devices d)" and "\<And>r. row_id (f r) = row_id r"
  shows "row_of d' i = map_option f (row_of d i)"
  using assms by (simp add: row_of_def find_map_same_key)

lemma row_of_SomeD: "row_of d i = Some r \<Longrightarrow> r \<in> set (devices d) \<and> row_id r = i"
  by (auto simp: row_of_def dest: find_SomeD)

lemma row_of_mem: "db_wf d \<Longrightarrow> r \<in> set (devices d) \<Longrightarrow> row_of d (row_id r) = Some r"
  by (simp add: db_wf_def row_of_def find_distinct_key)

lemma known_row_of: "i \<in> known d \<longleftrightarrow> row_of d i \<noteq> None"
  by (auto simp: known_def row_of_def find_None_iff image_iff)

lemma views_cong:
  assumes "devices d' = devices d"
  shows "row_of d' = row_of d" "peer_of d' = peer_of d" "known d' = known d"
    "locked_key d' = locked_key d" "db_wf d' = db_wf d"
  using assms by (simp_all add: row_of_def [abs_def] peer_of_def [abs_def] known_def
      locked_key_def [abs_def] db_wf_def)

text \<open>
  An operation that maps every row by a function that keeps identifier, token and static
  key, and does not give a paired row an expiry, keeps everything but the pairing.
\<close>

lemma map_rows_views:
  assumes "devices d' = map f (devices d)" and "\<And>r. row_id (f r) = row_id r"
  shows "known d' = known d"
    and "peer_of d' i = Option.bind (row_of d i) (row_paired_with \<circ> f)"
    and "(\<And>r. row_static_key (f r) = row_static_key r) \<Longrightarrow> locked_key d' = locked_key d"
proof -
  show "known d' = known d"
    using assms by (simp add: known_def image_image)
  show "peer_of d' i = Option.bind (row_of d i) (row_paired_with \<circ> f)"
    using row_of_map [OF assms] by (cases "row_of d i") (simp_all add: peer_of_def)
  assume key: "\<And>r. row_static_key (f r) = row_static_key r"
  have "locked_key d' j = locked_key d j" for j
    using row_of_map [OF assms, of j] by (cases "row_of d j") (simp_all add: locked_key_def key)
  then show "locked_key d' = locked_key d" ..
qed

lemma map_rows_wf:
  assumes "devices d' = map f (devices d)" and "db_wf d"
    and "\<And>r. row_id (f r) = row_id r" and "\<And>r. row_device_token (f r) = row_device_token r"
    and "\<And>r. (row_paired_with r \<noteq> None \<Longrightarrow> row_expires_at r = None) \<Longrightarrow>
      row_paired_with (f r) \<noteq> None \<Longrightarrow> row_expires_at (f r) = None"
  shows "db_wf d'"
  using assms by (auto simp: db_wf_def comp_def)

section \<open>Effect of the operations\<close>

lemma check_unpaired_ok:
  "is_ok (fst (check_unpaired ids d)) \<Longrightarrow>
    devices (snd (check_unpaired ids d)) = devices d \<and>
    (\<forall>i \<in> set ids. i \<in> known d \<and> peer_of d i = None)"
proof (induction ids arbitrary: d)
  case Nil
  then show ?case by (simp add: db_return_def)
next
  case (Cons i ids)
  let ?k = "\<lambda>r. if row_paired_with r \<noteq> None then db_fail ErrAlreadyPaired else check_unpaired ids"
  obtain x e where res: "check_unpaired (i # ids) d = (Inr x, e)"
    using Cons.prems by (rule is_okE)
  then obtain r d1 where q: "QueryRow (\<lambda>r. row_id r = i) d = (Inr r, d1)" and run: "?k r d1 = (Inr x, e)"
    by (auto simp: db_bind_Inr_iff)
  have r: "row_of d i = Some r" and d1: "devices d1 = devices d"
    using QueryRow_okD [OF q] by (simp_all add: row_of_def)
  have np: "row_paired_with r = None"
    using run by (auto simp: db_fail_def split: if_splits)
  with r have "i \<in> known d \<and> peer_of d i = None"
    by (simp add: known_row_of peer_of_def)
  moreover have "is_ok (fst (check_unpaired ids d1))"
    using run np by simp
  note Cons.IH [OF this]
  ultimately show ?case
    using res run np d1 views_cong [OF d1] by simp
qed

definition link_step :: "device_id \<times> device_id \<Rightarrow> row list \<Rightarrow> row list" where
  "link_step = (\<lambda>(this, peer). update_where (\<lambda>r. row_id r = this)
     (\<lambda>r. r\<lparr>row_paired_with := Some peer, row_expires_at := None\<rparr>))"

lemma link_rows_ok:
  "is_ok (fst (link_rows ps d)) \<Longrightarrow> devices (snd (link_rows ps d)) = fold link_step ps (devices d)"
proof (induction ps arbitrary: d)
  case Nil
  then show ?case by (simp add: db_return_def)
next
  case (Cons p ps)
  obtain this peer where p: "p = (this, peer)" by (cases p)
  let ?f = "link_step (this, peer)"
  obtain x e where res: "link_rows (p # ps) d = (Inr x, e)"
    using Cons.prems by (rule is_okE)
  then obtain u d1 where e: "Exec ?f d = (Inr u, d1)" and run: "link_rows ps d1 = (Inr x, e)"
    by (auto simp: p link_step_def db_bind_Inr_iff)
  have "devices d1 = ?f (devices d)"
    using devices_Exec [of ?f d] e by simp
  with Cons.IH [of d1] run res p show ?case by simp
qed

definition link_row :: "device_id \<Rightarrow> device_id \<Rightarrow> row \<Rightarrow> row" where
  "link_row a b r =
     (if row_id r = a then r\<lparr>row_paired_with := Some b, row_expires_at := None\<rparr>
      else if row_id r = b then r\<lparr>row_paired_with := Some a, row_expires_at := None\<rparr> else r)"

lemma link_pairs_effect: "fold link_step (link_pairs swap a b) = map (link_row a b)"
  by (auto simp: link_pairs_def link_step_def update_where_def link_row_def fun_eq_iff)

lemma link_row_simps [simp]:
  "row_id (link_row a b r) = row_id r"
  "row_device_token (link_row a b r) = row_device_token r"
  "row_static_key (link_row a b r) = row_static_key r"
  by (simp_all add: link_row_def)

lemma PairDevices_ok:
  assumes "is_ok (fst (PairDevices swap a b d))"
  shows "devices (snd (PairDevices swap a b d)) = map (link_row a b) (devices d)"
    and "a \<in> known d" "b \<in> known d" "peer_of d a = None" "peer_of d b = None"
proof -
  let ?body = "db_bind (check_unpaired [a, b]) (\<lambda>_. link_rows (link_pairs swap a b))"
  obtain x d1 d2 where d1: "devices d1 = devices d" and body: "?body d1 = (Inr x, d2)"
    and res: "devices (snd (PairDevices swap a b d)) = devices d2"
    using assms unfolding PairDevices_def by (elim transaction_okE)
  obtain u d' where chk: "check_unpaired [a, b] d1 = (Inr u, d')"
    and lnk: "link_rows (link_pairs swap a b) d' = (Inr x, d2)"
    using body unfolding db_bind_Inr_iff by blast
  note c = check_unpaired_ok [of "[a, b]" d1, unfolded chk fst_conv snd_conv, OF is_ok_simps(1)]
  have "devices d2 = fold link_step (link_pairs swap a b) (devices d')"
    using link_rows_ok [of "link_pairs swap a b" d'] lnk by simp
  with c d1 res show "devices (snd (PairDevices swap a b d)) = map (link_row a b) (devices d)"
    by (simp add: link_pairs_effect)
  show "a \<in> known d" "b \<in> known d" "peer_of d a = None" "peer_of d b = None"
    using c views_cong [OF d1] by simp_all
qed

lemma PairDevices_fail:
  "\<not> is_ok (fst (PairDevices swap a b d)) \<Longrightarrow> devices (snd (PairDevices swap a b d)) = devices d"
  by (simp add: PairDevices_def transaction_fail)

lemma peer_of_PairDevices:
  "peer_of (snd (PairDevices swap a b d)) =
     (if is_ok (fst (PairDevices swap a b d)) then (peer_of d)(b \<mapsto> a, a \<mapsto> b) else peer_of d)"
proof (cases "is_ok (fst (PairDevices swap a b d))")
  case True
  let ?d' = "snd (PairDevices swap a b d)"
  note ok = PairDevices_ok [OF True]
  obtain ra rb where rows: "row_of d a = Some ra" "row_of d b = Some rb"
    using ok(2,3) by (auto simp: known_row_of)
  have "peer_of ?d' i = ((peer_of d)(b \<mapsto> a, a \<mapsto> b)) i" for i
  proof (cases "row_of d i")
    case None
    with map_rows_views(2) [OF ok(1), of i] rows show ?thesis
      by (auto simp: peer_of_def)
  next
    case (Some r)
    then have "row_id r = i" by (simp add: row_of_SomeD)
    with Some map_rows_views(2) [OF ok(1), of i] show ?thesis
      by (simp add: link_row_def peer_of_def)
  qed
  then show ?thesis using True by (simp add: fun_eq_iff)
next
  case False
  then show ?thesis
    using views_cong(2) [OF PairDevices_fail [OF False]] by simp
qed

lemma devices_UnpairDevice:
  "devices (snd (UnpairDevice i d)) =
     (if is_ok (fst (UnpairDevice i d))
      then update_where (\<lambda>r. row_id r = i \<or> row_paired_with r = Some i) (\<lambda>r. r\<lparr>row_paired_with := None\<rparr>) (devices d)
      else devices d)"
  by (simp add: UnpairDevice_def devices_Exec)

lemma peer_of_UnpairDevice:
  "peer_of (snd (UnpairDevice i d)) =
     (if is_ok (fst (UnpairDevice i d))
      then (\<lambda>j. if j = i \<or> peer_of d j = Some i then None else peer_of d j) else peer_of d)"
proof (cases "is_ok (fst (UnpairDevice i d))")
  case True
  let ?f = "\<lambda>r. if row_id r = i \<or> row_paired_with r = Some i then r\<lparr>row_paired_with := None\<rparr> else r"
  have dev: "devices (snd (UnpairDevice i d)) = map ?f (devices d)"
    using True by (simp add: devices_UnpairDevice update_where_def)
  have "peer_of (snd (UnpairDevice i d)) j = (if j = i \<or> peer_of d j = Some i then None else peer_of d j)" for j
  proof (cases "row_of d j")
    case None
    with map_rows_views(2) [OF dev, of j] show ?thesis
      by (simp add: peer_of_def)
  next
    case (Some r)
    then have "row_id r = j" by (simp add: row_of_SomeD)
    with Some map_rows_views(2) [OF dev, of j] show ?thesis
      by (simp add: peer_of_def)
  qed
  then show ?thesis using True by (simp add: fun_eq_iff)
next
  case False
  then have "devices (snd (UnpairDevice i d)) = devices d"
    by (simp add: devices_UnpairDevice)
  from views_cong(2) [OF this] False show ?thesis by simp
qed

text \<open>The order in which \<^verbatim>\<open>range\<close> visits the two links does not matter, not even under faults.\<close>

lemma link_rows_swap:
  "fst (link_rows (link_pairs swap a b) d) = fst (link_rows (link_pairs False a b) d)"
  "(snd (link_rows (link_pairs swap a b) d))\<lparr>devices := v\<rparr> =
    (snd (link_rows (link_pairs False a b) d))\<lparr>devices := v\<rparr>"
  "is_ok (fst (link_rows (link_pairs swap a b) d)) \<Longrightarrow>
    snd (link_rows (link_pairs swap a b) d) = snd (link_rows (link_pairs False a b) d)"
  by (auto simp: link_pairs_def Exec_def db_bind_def db_call_def db_return_def update_where_def
      split: list.split)

lemma PairDevices_swap: "PairDevices swap a b d = PairDevices False a b d"
proof -
  let ?body = "\<lambda>s. db_bind (check_unpaired [a, b]) (\<lambda>_. link_rows (link_pairs s a b))"
  have eq: "fst (?body swap e) = fst (?body False e)"
    "(snd (?body swap e))\<lparr>devices := v\<rparr> = (snd (?body False e))\<lparr>devices := v\<rparr>"
    "is_ok (fst (?body swap e)) \<Longrightarrow> snd (?body swap e) = snd (?body False e)" for e v
    using link_rows_swap [where swap = swap and a = a and b = b]
    by (auto simp: db_bind_def simp del: check_unpaired.simps split: prod.split sum.split)
  show ?thesis
  proof (cases "db_call d")
    case (Pair r d1)
    show ?thesis
    proof (cases "?body swap d1")
      case (Pair r1 d2)
      then have "\<exists>d3. ?body False d1 = (r1, d3) \<and> (\<forall>v. d3\<lparr>devices := v\<rparr> = d2\<lparr>devices := v\<rparr>) \<and> (is_ok r1 \<longrightarrow> d3 = d2)"
        using eq [where e = d1] by (cases "?body False d1") auto
      then show ?thesis
        using Pair \<open>db_call d = (r, d1)\<close> unfolding PairDevices_def transaction_def
        by (cases r; cases r1) (auto simp: db_bind_def [of db_call] db_bind_Inl db_bind_Inr)
    qed
  qed
qed

lemma find_filter_key:
  "find (\<lambda>r. row_id r = j) (filter (\<lambda>r. row_id r \<noteq> i) rs) =
     (if j = i then None else find (\<lambda>r. row_id r = j) rs)"
  by (induction rs) auto

abbreviation unlinked :: "device_id \<Rightarrow> row \<Rightarrow> row" where
  "unlinked i r \<equiv> (if row_paired_with r = Some i then r\<lparr>row_paired_with := None\<rparr> else r)"

lemma DeleteDevice_cases:
  obtains (ok) "is_ok (fst (DeleteDevice i d))"
      "devices (snd (DeleteDevice i d)) = filter (\<lambda>r. row_id r \<noteq> i) (map (unlinked i) (devices d))"
    | (half) "\<not> is_ok (fst (DeleteDevice i d))"
      "devices (snd (DeleteDevice i d)) = map (unlinked i) (devices d)"
    | (none) "\<not> is_ok (fst (DeleteDevice i d))" "devices (snd (DeleteDevice i d)) = devices d"
proof -
  let ?f = "update_where (\<lambda>r. row_paired_with r = Some i) (\<lambda>r. r\<lparr>row_paired_with := None\<rparr>)"
  let ?g = "filter (\<lambda>r. row_id r \<noteq> i)"
  obtain r1 d1 where e1: "Exec ?f d = (r1, d1)" by fastforce
  obtain r2 d2 where e2: "Exec ?g d1 = (r2, d2)" by fastforce
  have run: "DeleteDevice i d = (case r1 of Inl e \<Rightarrow> (Inl e, d1) | Inr _ \<Rightarrow> (r2, d2))"
    using e1 e2 by (cases r1) (simp_all add: DeleteDevice_def db_bind_def)
  have f: "devices d1 = (if is_ok r1 then map (unlinked i) (devices d) else devices d)"
    using devices_Exec [of ?f d] e1 by (simp add: update_where_def)
  have g: "devices d2 = (if is_ok r2 then ?g (devices d1) else devices d1)"
    using devices_Exec [of ?g d1] e2 by simp
  show thesis
  proof (cases r1)
    case (Inl e)
    with run f show ?thesis by (intro none) simp_all
  next
    case r1: (Inr u)
    show ?thesis
    proof (cases r2)
      case (Inl e)
      with run f g r1 show ?thesis by (intro half) simp_all
    next
      case (Inr v)
      with run f g r1 show ?thesis by (intro ok) simp_all
    qed
  qed
qed

lemma row_of_unlinked:
  assumes "devices d' = map (unlinked i) (devices d)"
  shows "row_of d' j = map_option (unlinked i) (row_of d j)"
  by (rule row_of_map [OF assms]) simp

lemma row_of_DeleteDevice:
  assumes "is_ok (fst (DeleteDevice i d))"
  shows "row_of (snd (DeleteDevice i d)) j = (if j = i then None else map_option (unlinked i) (row_of d j))"
proof (cases rule: DeleteDevice_cases [of i d])
  case ok
  then show ?thesis
    by (simp add: row_of_def find_filter_key find_map_same_key)
qed (use assms in simp_all)

lemma peer_of_DeleteDevice:
  "is_ok (fst (DeleteDevice i d)) \<Longrightarrow> peer_of (snd (DeleteDevice i d)) =
     (\<lambda>j. if j = i \<or> peer_of d j = Some i then None else peer_of d j)"
  by (auto simp: peer_of_def row_of_DeleteDevice fun_eq_iff split: bind_splits)

lemma peer_of_DeleteDevice_other:
  assumes "j \<noteq> i" and "peer_of d j \<noteq> Some i"
  shows "peer_of (snd (DeleteDevice i d)) j = peer_of d j"
proof (cases rule: DeleteDevice_cases [of i d])
  case ok
  then show ?thesis using assms by (simp add: peer_of_DeleteDevice)
next
  case half
  then show ?thesis using assms
    by (cases "row_of d j") (auto simp: peer_of_def row_of_unlinked)
next
  case none
  then show ?thesis using views_cong(2) [OF none(2)] by simp
qed

lemma locked_key_DeleteDevice:
  assumes "j \<noteq> i"
  shows "locked_key (snd (DeleteDevice i d)) j = locked_key d j"
proof (cases rule: DeleteDevice_cases [of i d])
  case ok
  then show ?thesis using assms
    by (cases "row_of d j") (simp_all add: locked_key_def row_of_DeleteDevice)
next
  case half
  then show ?thesis
    by (cases "row_of d j") (simp_all add: locked_key_def row_of_unlinked)
next
  case none
  then show ?thesis using views_cong(4) [OF none(2)] by simp
qed

abbreviation keyed :: "device_id \<Rightarrow> string \<Rightarrow> row \<Rightarrow> row" where
  "keyed i key r \<equiv> (if row_id r = i then r\<lparr>row_static_key := Some key\<rparr> else r)"

lemma SetStaticKeyIfUnset_cases:
  obtains (fail) "\<not> is_ok (fst (SetStaticKeyIfUnset i key d))"
      "devices (snd (SetStaticKeyIfUnset i key d)) = devices d"
    | (same) "is_ok (fst (SetStaticKeyIfUnset i key d))" "locked_key d i = Some key"
      "devices (snd (SetStaticKeyIfUnset i key d)) = devices d"
    | (set) "is_ok (fst (SetStaticKeyIfUnset i key d))" "i \<in> known d" "locked_key d i = None"
      "devices (snd (SetStaticKeyIfUnset i key d)) = map (keyed i key) (devices d)"
proof (cases "is_ok (fst (SetStaticKeyIfUnset i key d))")
  case False
  then show ?thesis
    by (intro fail) (simp_all add: SetStaticKeyIfUnset_def transaction_fail)
next
  case True
  let ?upd = "Exec (update_where (\<lambda>r. row_id r = i) (\<lambda>r. r\<lparr>row_static_key := Some key\<rparr>))"
  let ?k = "\<lambda>r. case row_static_key r of
      Some k \<Rightarrow> if k \<noteq> '''' then (if k \<noteq> key then db_fail ErrStaticKeyMismatch else db_return ()) else ?upd
    | None \<Rightarrow> ?upd"
  obtain x d1 d2 where d1: "devices d1 = devices d"
    and body: "db_bind (QueryRow (\<lambda>r. row_id r = i)) ?k d1 = (Inr x, d2)"
    and res: "devices (snd (SetStaticKeyIfUnset i key d)) = devices d2"
    using True unfolding SetStaticKeyIfUnset_def by (elim transaction_okE)
  obtain r e where q: "QueryRow (\<lambda>r. row_id r = i) d1 = (Inr r, e)" and run: "?k r e = (Inr x, d2)"
    using body unfolding db_bind_Inr_iff by blast
  have r: "row_of d i = Some r" and e: "devices e = devices d"
    using QueryRow_okD [OF q] d1 by (simp_all add: row_of_def)
  have upd: "devices d2 = map (keyed i key) (devices d)" if "?upd e = (Inr x, d2)"
    using devices_Exec [of "update_where (\<lambda>r. row_id r = i) (\<lambda>r. r\<lparr>row_static_key := Some key\<rparr>)" e] that e
    by (simp add: update_where_def)
  show ?thesis
  proof (cases "locked_key d i")
    case None
    with r run have "?upd e = (Inr x, d2)"
      by (auto simp: locked_key_def split: option.splits if_splits)
    with None r res upd True show ?thesis
      by (intro set) (simp_all add: known_row_of)
  next
    case (Some k)
    with r run have "k = key \<and> d2 = e"
      by (auto simp: locked_key_def db_fail_def db_return_def split: option.splits if_splits)
    with Some res e True show ?thesis by (intro same) simp_all
  qed
qed

lemma locked_key_set:
  assumes "devices d' = map (keyed i key) (devices d)" and "key \<noteq> ''''"
  shows "locked_key d' = (if i \<in> known d then (locked_key d)(i \<mapsto> key) else locked_key d)"
proof -
  have "row_of d' j = map_option (keyed i key) (row_of d j)" for j
    by (rule row_of_map [OF assms(1)]) simp
  then have "locked_key d' j = (if i \<in> known d then (locked_key d)(i \<mapsto> key) else locked_key d) j" for j
    using assms(2) by (cases "row_of d j") (auto simp: locked_key_def known_row_of dest: row_of_SomeD)
  then show ?thesis ..
qed

lemma CreateDevice_cases:
  obtains (fail) "\<not> is_ok (fst (CreateDevice dv d))" "devices (snd (CreateDevice dv d)) = devices d"
    | (ok) r where "is_ok (fst (CreateDevice dv d))" "devices (snd (CreateDevice dv d)) = devices d @ [r]"
      "row_id r = ID dv" "row_device_token r = DeviceToken dv" "row_static_key r = None"
      "row_paired_with r = None" "row_expires_at r = ExpiresAt dv" "row_created_at r = CreatedAt dv"
      "ID dv \<notin> known d" "DeviceToken dv \<notin> row_device_token ` set (devices d)"
proof (cases "is_ok (fst (CreateDevice dv d))")
  case False
  then show ?thesis
    by (intro fail) (auto simp: CreateDevice_def db_bind_def db_call_def split: list.splits if_splits)
next
  case True
  then show ?thesis
    by (intro ok [of "\<lparr>row_id = ID dv, row_name = Name dv, row_public_key = PublicKey dv,
         row_device_token = DeviceToken dv, row_static_key = None, row_paired_with = None,
         row_created_at = CreatedAt dv, row_last_seen = None, row_expires_at = ExpiresAt dv\<rparr>"])
      (auto simp: CreateDevice_def db_bind_def db_call_def known_def split: list.splits if_splits)
qed

lemma row_of_append:
  assumes "devices d' = devices d @ [r]" and "row_id r \<notin> known d"
  shows "row_of d' = (row_of d)(row_id r \<mapsto> r)"
proof -
  have "find (\<lambda>x. row_id x = i) (rs @ [r]) =
    (case find (\<lambda>x. row_id x = i) rs of None \<Rightarrow> if row_id r = i then Some r else None | Some x \<Rightarrow> Some x)" for i rs
    by (induction rs) auto
  moreover have "row_of d (row_id r) = None"
    using assms(2) by (simp add: known_row_of)
  ultimately show ?thesis
    using assms(1) by (auto simp: row_of_def fun_eq_iff split: option.split)
qed

lemma devices_TouchLastSeen:
  "devices (snd (TouchLastSeen now i d)) = devices d \<or>
   devices (snd (TouchLastSeen now i d)) =
     map (\<lambda>r. if row_id r = i then r\<lparr>row_last_seen := Some now\<rparr> else r) (devices d)"
  by (simp add: TouchLastSeen_def devices_Exec update_where_def)

section \<open>Preservation of the schema constraints\<close>

lemma db_wf_PairDevices [inv_intros]:
  assumes "db_wf d"
  shows "db_wf (snd (PairDevices swap a b d))"
proof (cases "is_ok (fst (PairDevices swap a b d))")
  case True
  show ?thesis
    by (rule map_rows_wf [OF PairDevices_ok(1) [OF True] assms]) (auto simp: link_row_def)
next
  case False
  then show ?thesis using views_cong(5) [OF PairDevices_fail] assms by simp
qed

lemma db_wf_UnpairDevice [inv_intros]:
  assumes "db_wf d"
  shows "db_wf (snd (UnpairDevice i d))"
proof (cases "is_ok (fst (UnpairDevice i d))")
  case True
  then have "devices (snd (UnpairDevice i d)) = map (\<lambda>r. if row_id r = i \<or> row_paired_with r = Some i
      then r\<lparr>row_paired_with := None\<rparr> else r) (devices d)"
    by (simp add: devices_UnpairDevice update_where_def)
  then show ?thesis by (rule map_rows_wf [OF _ assms]) (auto split: if_splits)
next
  case False
  then show ?thesis using devices_UnpairDevice [of i d] assms by (simp add: db_wf_def)
qed

lemma db_wf_unlinked:
  assumes "devices d' = map (unlinked i) (devices d)" and "db_wf d"
  shows "db_wf d'"
  by (rule map_rows_wf [OF assms]) (auto split: if_splits)

lemma db_wf_DeleteDevice [inv_intros]:
  assumes "db_wf d"
  shows "db_wf (snd (DeleteDevice i d))"
proof (cases rule: DeleteDevice_cases [of i d])
  case ok
  have "db_wf (d\<lparr>devices := map (unlinked i) (devices d)\<rparr>)"
    by (rule db_wf_unlinked [where i = i and d = d]) (simp_all add: assms)
  with ok show ?thesis
    by (auto simp: db_wf_def distinct_map_filter)
next
  case half
  then show ?thesis using assms by (blast intro: db_wf_unlinked)
next
  case none
  then show ?thesis using assms views_cong(5) [OF none(2)] by simp
qed

lemma db_wf_SetStaticKeyIfUnset [inv_intros]:
  assumes "db_wf d"
  shows "db_wf (snd (SetStaticKeyIfUnset i key d))"
proof (cases rule: SetStaticKeyIfUnset_cases [of i key d])
  case set
  show ?thesis by (rule map_rows_wf [OF set(4) assms]) (auto split: if_splits)
qed (use assms in \<open>simp_all add: db_wf_def\<close>)

lemma db_wf_CreateDevice [inv_intros]:
  assumes "db_wf d"
  shows "db_wf (snd (CreateDevice dv d))"
proof (cases rule: CreateDevice_cases [of dv d])
  case (ok r)
  with assms show ?thesis by (auto simp: db_wf_def known_def)
qed (use assms in \<open>simp_all add: db_wf_def\<close>)

lemma db_wf_TouchLastSeen [inv_intros]:
  assumes "db_wf d"
  shows "db_wf (snd (TouchLastSeen now i d))"
  using devices_TouchLastSeen [of now i d]
proof
  assume "devices (snd (TouchLastSeen now i d)) = devices d"
  from views_cong(5) [OF this] assms show ?thesis by simp
next
  assume "devices (snd (TouchLastSeen now i d)) =
    map (\<lambda>r. if row_id r = i then r\<lparr>row_last_seen := Some now\<rparr> else r) (devices d)"
  then show ?thesis by (rule map_rows_wf [OF _ assms]) (auto split: if_splits)
qed

end
