(* ===== verification/Store_Contracts.thy ===== *)
theory Store_Contracts
  imports Device_Store
begin

text \<open>
  What the device table promises its clients, and the properties that follow for every
  sequence of operations under every script of driver faults: the locale
  \<open>device_directory\<close> (pairing as a matching) and the interpretation of \<open>tofu_lock\<close> by
  \<open>SetStaticKeyIfUnset\<close>.
\<close>

section \<open>Sequences of store operations\<close>

datatype store_op =
    OpCreate Device
  | OpPair bool device_id device_id
  | OpUnpair device_id
  | OpSetKey device_id string
  | OpTouch time device_id
  | OpDelete device_id

fun store_apply :: "store_op \<Rightarrow> unit dbm" where
  "store_apply (OpCreate dv) = CreateDevice dv"
| "store_apply (OpPair swap a b) = PairDevices swap a b"
| "store_apply (OpUnpair i) = UnpairDevice i"
| "store_apply (OpSetKey i k) = SetStaticKeyIfUnset i k"
| "store_apply (OpTouch t i) = TouchLastSeen t i"
| "store_apply (OpDelete i) = DeleteDevice i"

text \<open>All operations run, whatever each returns, as concurrent callers would issue them.\<close>

fun store_run :: "store_op list \<Rightarrow> db \<Rightarrow> db" where
  "store_run [] d = d"
| "store_run (op # ops) d = store_run ops (snd (store_apply op d))"

text \<open>No \<open>DeleteDevice\<close> of the run failed between its two statements.\<close>

fun deletes_succeed :: "store_op list \<Rightarrow> db \<Rightarrow> bool" where
  "deletes_succeed [] d = True"
| "deletes_succeed (op # ops) d =
     ((case op of OpDelete i \<Rightarrow> is_ok (fst (DeleteDevice i d)) | _ \<Rightarrow> True) \<and>
      deletes_succeed ops (snd (store_apply op d)))"

definition empty_db :: "bool list \<Rightarrow> db" where
  "empty_db fs = \<lparr>devices = [], faults = fs\<rparr>"

section \<open>The directory contract\<close>

text \<open>
  What the relay, the admin server and the command line rely on: a successful \<open>pair\<close> had
  two known, free devices and links exactly them; a failed one changes nothing; \<open>unpair\<close>
  and \<open>remove\<close> free a device and whoever points at it. The consequences proved here are
  that the links form a matching, and that nobody else can break a link.
\<close>

definition matching :: "(device_id \<Rightarrow> device_id option) \<Rightarrow> bool" where
  "matching p \<longleftrightarrow> (\<forall>a b. p a = Some b \<longrightarrow> p b = Some a)"

lemma matchingD: "matching p \<Longrightarrow> p a = Some b \<Longrightarrow> p b = Some a"
  unfolding matching_def by blast

lemma matching_clear:
  assumes "matching p"
  shows "matching (\<lambda>i. if i = a \<or> p i = Some a then None else p i)"
  unfolding matching_def
proof (intro allI impI)
  fix c d
  assume "(if c = a \<or> p c = Some a then None else p c) = Some d"
  then have "c \<noteq> a" "p c \<noteq> Some a" "p c = Some d"
    by (simp_all split: if_splits)
  moreover have "p d = Some c"
    by (rule matchingD [OF assms]) fact
  ultimately show "(if d = a \<or> p d = Some a then None else p d) = Some c"
    by auto
qed

lemma matching_link:
  assumes "matching p" and "p a = None" and "p b = None"
  shows "matching (p(b \<mapsto> a, a \<mapsto> b))"
  unfolding matching_def
proof (intro allI impI)
  fix c d
  assume cd: "(p(b \<mapsto> a, a \<mapsto> b)) c = Some d"
  show "(p(b \<mapsto> a, a \<mapsto> b)) d = Some c"
  proof (cases "c = a \<or> c = b")
    case True
    with cd show ?thesis by (auto split: if_splits)
  next
    case False
    with cd have "p c = Some d" by simp
    then have "p d = Some c" by (rule matchingD [OF assms(1)])
    with assms(2,3) show ?thesis by auto
  qed
qed

locale device_directory =
  fixes peer :: "'s \<Rightarrow> device_id \<Rightarrow> device_id option"
    and members :: "'s \<Rightarrow> device_id set"
    and pair :: "device_id \<Rightarrow> device_id \<Rightarrow> 's \<Rightarrow> bool \<times> 's"
    and unpair :: "device_id \<Rightarrow> 's \<Rightarrow> bool \<times> 's"
    and remove :: "device_id \<Rightarrow> 's \<Rightarrow> bool \<times> 's"
  assumes pair_free: "fst (pair a b s) \<Longrightarrow> peer s a = None \<and> peer s b = None \<and> a \<in> members s \<and> b \<in> members s"
    and peer_pair: "peer (snd (pair a b s)) = (if fst (pair a b s) then (peer s)(b \<mapsto> a, a \<mapsto> b) else peer s)"
    and peer_unpair: "peer (snd (unpair a s)) =
      (if fst (unpair a s) then (\<lambda>i. if i = a \<or> peer s i = Some a then None else peer s i) else peer s)"
    and peer_remove: "fst (remove a s) \<Longrightarrow>
      peer (snd (remove a s)) = (\<lambda>i. if i = a \<or> peer s i = Some a then None else peer s i)"
    and peer_remove_other: "i \<noteq> a \<Longrightarrow> peer s i \<noteq> Some a \<Longrightarrow> peer (snd (remove a s)) i = peer s i"
begin

lemma matching_pair: "matching (peer s) \<Longrightarrow> matching (peer (snd (pair a b s)))"
  using pair_free [of a b s] by (simp add: peer_pair matching_link)

lemma matching_unpair: "matching (peer s) \<Longrightarrow> matching (peer (snd (unpair a s)))"
  by (simp add: peer_unpair matching_clear)

lemma matching_remove: "matching (peer s) \<Longrightarrow> fst (remove a s) \<Longrightarrow> matching (peer (snd (remove a s)))"
  by (simp add: peer_remove matching_clear)

lemma link_survives_pair: "peer s a = Some b \<Longrightarrow> peer (snd (pair c d s)) a = Some b"
  using pair_free [of c d s] by (auto simp: peer_pair)

lemma link_survives_unpair: "peer s a = Some b \<Longrightarrow> c \<noteq> a \<Longrightarrow> c \<noteq> b \<Longrightarrow> peer (snd (unpair c s)) a = Some b"
  by (simp add: peer_unpair)

lemma link_survives_remove: "peer s a = Some b \<Longrightarrow> c \<noteq> a \<Longrightarrow> c \<noteq> b \<Longrightarrow> peer (snd (remove c s)) a = Some b"
  by (simp add: peer_remove_other)

lemma pair_unpair_restores:
  assumes "matching (peer s)" and "fst (pair a b s)" and "fst (unpair c (snd (pair a b s)))" and "c \<in> {a, b}"
  shows "peer (snd (unpair c (snd (pair a b s)))) = peer s"
proof -
  have "peer s i \<noteq> Some a \<and> peer s i \<noteq> Some b" for i
    using pair_free [OF assms(2)] matchingD [OF assms(1), of i] by force
  with assms(2-4) pair_free [OF assms(2)] show ?thesis
    by (auto simp: peer_unpair peer_pair fun_eq_iff)
qed

end

interpretation dir: device_directory peer_of known
  "\<lambda>a b d. (is_ok (fst (PairDevices False a b d)), snd (PairDevices False a b d))"
  "\<lambda>i d. (is_ok (fst (UnpairDevice i d)), snd (UnpairDevice i d))"
  "\<lambda>i d. (is_ok (fst (DeleteDevice i d)), snd (DeleteDevice i d))"
  by unfold_locales
    (simp_all add: PairDevices_ok peer_of_PairDevices peer_of_UnpairDevice peer_of_DeleteDevice
      peer_of_DeleteDevice_other)

interpretation key_lock: tofu_lock
  "\<lambda>i key d. (is_ok (fst (SetStaticKeyIfUnset i key d)), snd (SetStaticKeyIfUnset i key d))"
  locked_key "\<lambda>key. key \<noteq> ''''"
proof unfold_locales
  fix d :: db and i j :: device_id and v w :: string
  let ?r = "SetStaticKeyIfUnset j w d"
  show "locked_key (snd (is_ok (fst ?r), snd ?r)) i = Some v" if "locked_key d i = Some v"
  proof (cases rule: SetStaticKeyIfUnset_cases [of j w d])
    case set
    have "row_of (snd ?r) i = map_option (keyed j w) (row_of d i)"
      by (rule row_of_map [OF set(4)]) simp
    moreover have "i \<noteq> j" using set(3) that by auto
    ultimately show ?thesis using that
      by (cases "row_of d i") (auto simp: locked_key_def dest: row_of_SomeD)
  qed (use that views_cong(4) [of "snd ?r" d] in simp_all)
next
  fix d :: db and i :: device_id and v :: string
  let ?r = "SetStaticKeyIfUnset i v d"
  assume "v \<noteq> ''''" and ok: "fst (is_ok (fst ?r), snd ?r)"
  show "locked_key (snd (is_ok (fst ?r), snd ?r)) i = Some v"
  proof (cases rule: SetStaticKeyIfUnset_cases [of i v d])
    case set
    with \<open>v \<noteq> ''''\<close> show ?thesis by (simp add: locked_key_set)
  qed (use ok views_cong(4) [of "snd ?r" d] in simp_all)
next
  fix d :: db and i :: device_id and v w :: string
  assume "locked_key d i = Some w" and "w \<noteq> v"
  then show "\<not> fst (is_ok (fst (SetStaticKeyIfUnset i v d)), snd (SetStaticKeyIfUnset i v d))"
    by (cases rule: SetStaticKeyIfUnset_cases [of i v d]) auto
qed


section \<open>Runs\<close>

lemma db_wf_store_apply: "db_wf d \<Longrightarrow> db_wf (snd (store_apply op d))"
  by (cases op) (simp_all add: inv_intros)

lemma peer_of_CreateDevice [frame_simps]: "peer_of (snd (CreateDevice dv d)) = peer_of d"
proof (cases rule: CreateDevice_cases [of dv d])
  case fail
  then show ?thesis using views_cong(2) by blast
next
  case (ok r)
  have "row_of (snd (CreateDevice dv d)) = (row_of d)(row_id r \<mapsto> r)"
    by (rule row_of_append) (use ok in simp_all)
  with ok show ?thesis
    by (auto simp: peer_of_def fun_eq_iff known_row_of)
qed

lemma peer_of_SetStaticKeyIfUnset [frame_simps]: "peer_of (snd (SetStaticKeyIfUnset i k d)) = peer_of d"
proof (cases rule: SetStaticKeyIfUnset_cases [of i k d])
  case set
  have "peer_of (snd (SetStaticKeyIfUnset i k d)) j = peer_of d j" for j
    using map_rows_views(2) [OF set(4), of j] by (cases "row_of d j") (simp_all add: peer_of_def)
  then show ?thesis ..
qed (use views_cong(2) in blast)+

lemma TouchLastSeen_views [frame_simps]:
  "peer_of (snd (TouchLastSeen t i d)) = peer_of d"
  "locked_key (snd (TouchLastSeen t i d)) = locked_key d"
  "known (snd (TouchLastSeen t i d)) = known d"
proof -
  let ?f = "\<lambda>r. if row_id r = i then r\<lparr>row_last_seen := Some t\<rparr> else r"
  consider "devices (snd (TouchLastSeen t i d)) = devices d"
    | "devices (snd (TouchLastSeen t i d)) = map ?f (devices d)"
    using devices_TouchLastSeen by blast
  then have "peer_of (snd (TouchLastSeen t i d)) = peer_of d \<and>
    locked_key (snd (TouchLastSeen t i d)) = locked_key d \<and> known (snd (TouchLastSeen t i d)) = known d"
  proof cases
    case 1
    then show ?thesis using views_cong by blast
  next
    case 2
    have "peer_of (snd (TouchLastSeen t i d)) j = peer_of d j" for j
      using map_rows_views(2) [OF 2, of j] by (cases "row_of d j") (simp_all add: peer_of_def)
    moreover have "locked_key (snd (TouchLastSeen t i d)) = locked_key d"
      by (rule map_rows_views(3) [OF 2]) simp_all
    moreover have "known (snd (TouchLastSeen t i d)) = known d"
      by (rule map_rows_views(1) [OF 2]) simp
    ultimately show ?thesis by blast
  qed
  then show "peer_of (snd (TouchLastSeen t i d)) = peer_of d"
    "locked_key (snd (TouchLastSeen t i d)) = locked_key d"
    "known (snd (TouchLastSeen t i d)) = known d"
    by simp_all
qed

lemma locked_key_PairDevices [frame_simps]: "locked_key (snd (PairDevices swap a b d)) = locked_key d"
proof (cases "is_ok (fst (PairDevices swap a b d))")
  case True
  show ?thesis by (rule map_rows_views(3) [OF PairDevices_ok(1) [OF True]]) simp_all
next
  case False
  then show ?thesis using views_cong(4) [OF PairDevices_fail] by simp
qed

lemma locked_key_UnpairDevice [frame_simps]: "locked_key (snd (UnpairDevice i d)) = locked_key d"
proof (cases "is_ok (fst (UnpairDevice i d))")
  case True
  then have "devices (snd (UnpairDevice i d)) = map (\<lambda>r. if row_id r = i \<or> row_paired_with r = Some i
      then r\<lparr>row_paired_with := None\<rparr> else r) (devices d)"
    by (simp add: devices_UnpairDevice update_where_def)
  then show ?thesis by (rule map_rows_views(3)) simp_all
next
  case False
  then have "devices (snd (UnpairDevice i d)) = devices d"
    by (simp add: devices_UnpairDevice)
  then show ?thesis by (rule views_cong(4))
qed

lemma locked_key_CreateDevice [frame_simps]: "locked_key (snd (CreateDevice dv d)) = locked_key d"
proof (cases rule: CreateDevice_cases [of dv d])
  case fail
  then show ?thesis using views_cong(4) by blast
next
  case (ok r)
  have "row_of (snd (CreateDevice dv d)) = (row_of d)(row_id r \<mapsto> r)"
    by (rule row_of_append) (use ok in simp_all)
  with ok show ?thesis
    by (auto simp: locked_key_def fun_eq_iff known_row_of)
qed

lemma matching_store_apply:
  assumes "matching (peer_of d)" and "deletes_succeed [op] d"
  shows "matching (peer_of (snd (store_apply op d)))"
proof (cases op)
  case (OpPair swap a b)
  then show ?thesis
    using dir.matching_pair [OF assms(1)] by (simp add: PairDevices_swap [of swap])
next
  case (OpUnpair i)
  then show ?thesis using dir.matching_unpair [OF assms(1)] by simp
next
  case (OpDelete i)
  then show ?thesis using dir.matching_remove [OF assms(1)] assms(2) by simp
qed (simp_all add: frame_simps assms)

lemma store_run_inv:
  "db_wf d \<Longrightarrow> matching (peer_of d) \<Longrightarrow> deletes_succeed ops d \<Longrightarrow>
    db_wf (store_run ops d) \<and> matching (peer_of (store_run ops d))"
proof (induction ops arbitrary: d)
  case (Cons op ops)
  have "deletes_succeed [op] d" and "deletes_succeed ops (snd (store_apply op d))"
    using Cons.prems(3) by simp_all
  then show ?case
    using Cons.IH [OF db_wf_store_apply [OF Cons.prems(1)] matching_store_apply [OF Cons.prems(2)]] by simp
qed simp

lemma locked_key_store_apply:
  assumes "locked_key d i = Some k" and "op \<noteq> OpDelete i"
  shows "locked_key (snd (store_apply op d)) i = Some k"
proof (cases op)
  case (OpSetKey j k')
  then show ?thesis using key_lock.lock_keeps [OF assms(1)] by simp
next
  case (OpDelete j)
  then show ?thesis using assms by (simp add: locked_key_DeleteDevice)
qed (use assms in \<open>simp_all add: frame_simps\<close>)

lemma locked_key_store_run:
  assumes "locked_key d i = Some k" and "OpDelete i \<notin> set ops"
  shows "locked_key (store_run ops d) i = Some k"
  using assms by (induction ops arbitrary: d) (auto simp: locked_key_store_apply)

lemma link_store_run:
  assumes "peer_of d a = Some b"
    and "\<And>i. i \<in> {a, b} \<Longrightarrow> OpUnpair i \<notin> set ops \<and> OpDelete i \<notin> set ops"
  shows "peer_of (store_run ops d) a = Some b"
  using assms
proof (induction ops arbitrary: d)
  case (Cons op ops)
  have not: "op \<noteq> OpUnpair i" "op \<noteq> OpDelete i" if "i \<in> {a, b}" for i
    using Cons.prems(2) [OF that] by auto
  have "peer_of (snd (store_apply op d)) a = Some b"
  proof (cases op)
    case (OpPair swap x y)
    then show ?thesis
      using dir.link_survives_pair [OF Cons.prems(1)] by (simp add: PairDevices_swap [of swap])
  next
    case (OpUnpair i)
    then show ?thesis
      using dir.link_survives_unpair [OF Cons.prems(1)] not [of a] not [of b] by force
  next
    case (OpDelete i)
    then show ?thesis
      using dir.link_survives_remove [OF Cons.prems(1)] not [of a] not [of b] by force
  qed (simp_all add: frame_simps Cons.prems(1))
  with Cons show ?case by simp
qed simp

section \<open>Properties\<close>

text \<open>
  C18: pairing is atomic. Whatever driver calls fail (the begin, a query, an update or the
  commit), and in whatever order the two links are written, \<open>PairDevices\<close> either returns
  an error and leaves every row as it was, or succeeds, and then both devices were free,
  each is linked to the other, no other device's link changed, and neither token expires.
\<close>

theorem PairDevices_atomic:
  "(\<exists>e. fst (PairDevices swap a b d) = Inl e \<and> devices (snd (PairDevices swap a b d)) = devices d) \<or>
   (fst (PairDevices swap a b d) = Inr () \<and> peer_of d a = None \<and> peer_of d b = None \<and>
    peer_of (snd (PairDevices swap a b d)) = (peer_of d)(b \<mapsto> a, a \<mapsto> b) \<and>
    (\<exists>ra rb. row_of (snd (PairDevices swap a b d)) a = Some ra \<and> row_expires_at ra = None \<and>
             row_of (snd (PairDevices swap a b d)) b = Some rb \<and> row_expires_at rb = None))"
proof (cases "is_ok (fst (PairDevices swap a b d))")
  case True
  note ok = PairDevices_ok [OF True]
  obtain ra rb where rows: "row_of d a = Some ra" "row_of d b = Some rb"
    using ok(2,3) by (auto simp: known_row_of)
  have new: "row_of (snd (PairDevices swap a b d)) i = map_option (link_row a b) (row_of d i)" for i
    by (rule row_of_map [OF ok(1)]) simp
  have "row_id ra = a" "row_id rb = b"
    using rows by (simp_all add: row_of_SomeD)
  then have "row_expires_at (link_row a b ra) = None" "row_expires_at (link_row a b rb) = None"
    by (simp_all add: link_row_def)
  with new [of a] new [of b] rows ok(4,5) True show ?thesis
    by (cases "fst (PairDevices swap a b d)") (simp_all add: peer_of_PairDevices)
next
  case False
  with PairDevices_fail [OF False] show ?thesis
    by (auto simp: is_ok_def split: sum.splits)
qed

text \<open>
  C17: the store keeps its constraints and its pairing symmetric. From an empty table,
  after any sequence of registrations, pairings, unpairings, key announcements, last-seen
  updates and deletions, under any script of driver faults in which no deletion fails,
  identifiers and tokens are unique, paired devices have no token expiry, and the pairing
  is a symmetric matching.
\<close>

theorem store_invariant:
  assumes "deletes_succeed ops (empty_db fs)"
  shows "db_wf (store_run ops (empty_db fs)) \<and> matching (peer_of (store_run ops (empty_db fs)))"
proof (rule store_run_inv [OF _ _ assms])
  show "db_wf (empty_db fs)" by (simp add: db_wf_def empty_db_def)
  show "matching (peer_of (empty_db fs))" by (simp add: matching_def peer_of_def row_of_def empty_db_def)
qed

definition sample_device :: "string \<Rightarrow> Device" where
  "sample_device i = \<lparr>ID = i, Name = i, PublicKey = '''', DeviceToken = ''t'' @ i, StaticKey = '''',
     PairedWith = None, CreatedAt = 0, LastSeen = None, ExpiresAt = Some 300\<rparr>"

theorem store_invariant_witness:
  "peer_of (store_run [OpCreate (sample_device ''a''), OpCreate (sample_device ''b''), OpPair True ''a'' ''b'']
      (empty_db [False, False, True])) ''a'' = None \<and>
   matching (peer_of (store_run [OpCreate (sample_device ''a''), OpCreate (sample_device ''b''),
      OpPair True ''a'' ''b'', OpPair True ''a'' ''b'', OpDelete ''b''] (empty_db [False, False, True])))"
proof
  show "peer_of (store_run [OpCreate (sample_device ''a''), OpCreate (sample_device ''b''), OpPair True ''a'' ''b'']
      (empty_db [False, False, True])) ''a'' = None"
    by code_simp
  have "deletes_succeed [OpCreate (sample_device ''a''), OpCreate (sample_device ''b''),
      OpPair True ''a'' ''b'', OpPair True ''a'' ''b'', OpDelete ''b''] (empty_db [False, False, True])"
    by code_simp
  from store_invariant [OF this]
  show "matching (peer_of (store_run [OpCreate (sample_device ''a''), OpCreate (sample_device ''b''),
      OpPair True ''a'' ''b'', OpPair True ''a'' ''b'', OpDelete ''b''] (empty_db [False, False, True])))"
    by blast
qed

text \<open>
  An announced key is locked for good. Once a non-empty key was accepted for a
  device, no sequence of store operations short of deleting the device changes it, and
  every later announcement of another key for it is refused.
\<close>

theorem announced_key_locked:
  assumes "key \<noteq> ''''" and "is_ok (fst (SetStaticKeyIfUnset i key d))" and "OpDelete i \<notin> set ops"
  shows "locked_key (store_run ops (snd (SetStaticKeyIfUnset i key d))) i = Some key \<and>
    (\<forall>other. other \<noteq> key \<longrightarrow>
      \<not> is_ok (fst (SetStaticKeyIfUnset i other (store_run ops (snd (SetStaticKeyIfUnset i key d))))))"
proof -
  have "locked_key (snd (SetStaticKeyIfUnset i key d)) i = Some key"
    using key_lock.lock_accept [of key i d] assms(1,2) by simp
  then have locked: "locked_key (store_run ops (snd (SetStaticKeyIfUnset i key d))) i = Some key"
    using assms(3) by (rule locked_key_store_run)
  with key_lock.lock_reject [OF locked] show ?thesis by auto
qed

theorem announced_key_locked_witness:
  "locked_key (store_run [OpSetKey ''a'' ''K2'', OpTouch 9 ''a'']
     (snd (SetStaticKeyIfUnset ''a'' ''K1'' (store_run [OpCreate (sample_device ''a'')] (empty_db []))))) ''a''
   = Some ''K1''"
proof -
  let ?d = "store_run [OpCreate (sample_device ''a'')] (empty_db [])"
  have "is_ok (fst (SetStaticKeyIfUnset ''a'' ''K1'' ?d))" by code_simp
  then show ?thesis
    using announced_key_locked [of "''K1''" "''a''" ?d "[OpSetKey ''a'' ''K2'', OpTouch 9 ''a'']"] by simp
qed

text \<open>
  A link can only be ended by its own two devices. While two devices are paired, no
  operation that names other devices (and no attempt to pair one of them again) separates
  them: only unpairing or deleting one of the two does.
\<close>

theorem link_only_ended_by_its_devices:
  assumes "peer_of d a = Some b"
    and "\<And>i. i \<in> {a, b} \<Longrightarrow> OpUnpair i \<notin> set ops \<and> OpDelete i \<notin> set ops"
  shows "peer_of (store_run ops d) a = Some b"
  using assms by (rule link_store_run)

definition sample_pair_db :: db where
  "sample_pair_db = store_run [OpCreate (sample_device ''a''), OpCreate (sample_device ''b''),
     OpCreate (sample_device ''c''), OpPair False ''a'' ''b''] (empty_db [])"

theorem link_only_ended_by_its_devices_witness:
  "peer_of (store_run [OpPair False ''c'' ''a'', OpUnpair ''c'', OpDelete ''c''] sample_pair_db) ''a'' = Some ''b''"
proof (rule link_only_ended_by_its_devices)
  show "peer_of sample_pair_db ''a'' = Some ''b''" by code_simp
qed auto

lemma check_unpaired_no_faults:
  assumes "faults d = []"
  shows "check_unpaired ids d =
    (case find (\<lambda>i. i \<notin> known d \<or> peer_of d i \<noteq> None) ids of
       None \<Rightarrow> (Inr (), d)
     | Some i \<Rightarrow> (Inl (if i \<in> known d then ErrAlreadyPaired else ErrNotFound), d))"
proof (induction ids)
  case Nil
  then show ?case by (simp add: db_return_def)
next
  case (Cons i ids)
  show ?case
  proof (cases "row_of d i")
    case None
    then show ?thesis using assms
      by (simp add: known_row_of db_bind_def QueryRow_no_faults row_of_def)
  next
    case (Some r)
    then have "QueryRow (\<lambda>r. row_id r = i) d = (Inr r, d)"
      using assms by (simp add: QueryRow_no_faults row_of_def)
    with Cons Some show ?thesis
      by (simp add: known_row_of db_bind_def peer_of_def db_fail_def)
  qed
qed

lemma link_rows_no_faults:
  "faults d = [] \<Longrightarrow> link_rows ps d = (Inr (), d\<lparr>devices := fold link_step ps (devices d)\<rparr>)"
  by (induction ps arbitrary: d)
    (auto simp: db_return_def db_bind_def Exec_no_faults link_step_def)

lemma PairDevices_no_faults:
  assumes "faults d = []" and "a \<in> known d" "b \<in> known d" and "peer_of d a = None" "peer_of d b = None"
  shows "PairDevices swap a b d = (Inr (), d\<lparr>devices := fold link_step (link_pairs swap a b) (devices d)\<rparr>)"
proof -
  let ?body = "db_bind (check_unpaired [a, b]) (\<lambda>_. link_rows (link_pairs swap a b))"
  have "?body d = (Inr (), d\<lparr>devices := fold link_step (link_pairs swap a b) (devices d)\<rparr>)"
    using assms by (simp add: db_bind_def check_unpaired_no_faults link_rows_no_faults del: check_unpaired.simps)
  with assms(1) show ?thesis
    using transaction_no_faults(1) [OF assms(1), of ?body] by (simp add: PairDevices_def)
qed

text \<open>
  The verdict of a pairing when the driver does not fail. The first device is looked
  up first; an unknown device gives \<open>ErrNotFound\<close>, an already paired one
  \<open>ErrAlreadyPaired\<close>, the first failing check decides, and otherwise the call succeeds.
\<close>

theorem PairDevices_verdict:
  assumes "faults d = []"
  shows "fst (PairDevices swap a b d) =
    (if a \<notin> known d then Inl ErrNotFound
     else if peer_of d a \<noteq> None then Inl ErrAlreadyPaired
     else if b \<notin> known d then Inl ErrNotFound
     else if peer_of d b \<noteq> None then Inl ErrAlreadyPaired
     else Inr ())"
proof -
  let ?body = "db_bind (check_unpaired [a, b]) (\<lambda>_. link_rows (link_pairs swap a b))"
  have body: "?body d = (case find (\<lambda>i. i \<notin> known d \<or> peer_of d i \<noteq> None) [a, b] of
       None \<Rightarrow> link_rows (link_pairs swap a b) d
     | Some i \<Rightarrow> (Inl (if i \<in> known d then ErrAlreadyPaired else ErrNotFound), d))"
    using assms by (simp add: db_bind_def check_unpaired_no_faults del: check_unpaired.simps split: option.split)
  show ?thesis
  proof (cases "find (\<lambda>i. i \<notin> known d \<or> peer_of d i \<noteq> None) [a, b]")
    case None
    then show ?thesis
      using body transaction_no_faults(1) [OF assms, of ?body] assms
      by (auto simp: PairDevices_def link_rows_no_faults split: if_splits)
  next
    case (Some i)
    then show ?thesis
      using body transaction_no_faults(2) [OF assms, of ?body]
      by (auto simp: PairDevices_def split: if_splits)
  qed
qed

theorem PairDevices_verdict_witness:
  "fst (PairDevices True ''c'' ''a'' sample_pair_db) = Inl ErrAlreadyPaired"
proof -
  have "faults sample_pair_db = []" by code_simp
  moreover have "''c'' \<in> known sample_pair_db \<and> peer_of sample_pair_db ''c'' = None \<and>
      ''a'' \<in> known sample_pair_db \<and> peer_of sample_pair_db ''a'' = Some ''b''"
    by code_simp
  ultimately show ?thesis
    by (simp add: PairDevices_verdict)
qed


text \<open>
  Deletion is not atomic. \<open>DeleteDevice\<close> runs two statements outside a transaction:
  when the second fails, the partner has been unlinked while the device keeps its link, so
  a symmetric pairing becomes one-sided.
\<close>

theorem DeleteDevice_one_sided:
  "\<exists>d. db_wf d \<and> matching (peer_of d) \<and> \<not> is_ok (fst (DeleteDevice ''a'' d)) \<and>
     peer_of (snd (DeleteDevice ''a'' d)) ''a'' = Some ''b'' \<and>
     peer_of (snd (DeleteDevice ''a'' d)) ''b'' = None"
proof (intro exI conjI)
  let ?ops = "[OpCreate (sample_device ''a''), OpCreate (sample_device ''b''), OpPair False ''a'' ''b'']"
  let ?fs = "[False, False, False, False, False, False, False, False, False, True]"
  let ?d = "store_run ?ops (empty_db ?fs)"
  have "db_wf ?d \<and> matching (peer_of ?d)"
    by (rule store_run_inv)
      (simp_all add: db_wf_def matching_def peer_of_def row_of_def empty_db_def)
  then show "db_wf ?d" and "matching (peer_of ?d)" by simp_all
  show "\<not> is_ok (fst (DeleteDevice ''a'' ?d))" by code_simp
  show "peer_of (snd (DeleteDevice ''a'' ?d)) ''a'' = Some ''b''" by code_simp
  show "peer_of (snd (DeleteDevice ''a'' ?d)) ''b'' = None" by code_simp
qed

end
