(* ===== verification/Relay_Hub.thy ===== *)
theory Relay_Hub
  imports Pair_Codes Store_Contracts
begin

text \<open>
  Connected clients and the hub (\<^verbatim>\<open>internal/relay/client.go\<close>, \<^verbatim>\<open>internal/relay/hub.go\<close>).
  A \<^verbatim>\<open>*Client\<close> is an address (\<open>cid\<close>) into a heap of client objects, because the hub, the
  handler of the connection and the handlers of the peer share it and compare it by
  identity. \<open>send\<close> is the content of the buffered channel, \<open>closed\<close> the flag set by
  \<^verbatim>\<open>close()\<close>, \<open>connOpen\<close> whether the socket is still open, \<open>writing\<close> whether
  \<^verbatim>\<open>writePump\<close> is still running, and \<open>wire\<close> everything written to the socket so far.

  A text frame carries the control message value that \<^verbatim>\<open>json.Marshal\<close> serialises: none of
  the fields of \<^verbatim>\<open>controlMessage\<close> can make \<^verbatim>\<open>Marshal\<close> fail, so the error branches after
  it are unreachable and have no counterpart here.

  The channels \<^verbatim>\<open>Register\<close> and \<^verbatim>\<open>Unregister\<close> are FIFO queues that hold the buffered
  values followed by those of blocked senders. A sender that would block is allowed to
  proceed, so the model has at least the interleavings of the program.
\<close>

section \<open>Data\<close>

record peerInfo =
  info_ID :: device_id
  info_StaticKey :: string

record controlMessage =
  msg_Type :: string
  msg_ProtocolVersion :: int
  msg_DeviceID :: device_id
  msg_Peers :: "peerInfo list"
  msg_StaticKey :: string
  msg_Code :: string
  msg_ExpiresIn :: int
  msg_PeerID :: device_id
  msg_PeerStaticKey :: string
  msg_Online :: "bool option"
  msg_Message :: string

definition zeroMessage :: "string \<Rightarrow> controlMessage" where
  "zeroMessage ty =
     \<lparr>msg_Type = ty, msg_ProtocolVersion = 0, msg_DeviceID = '''', msg_Peers = [], msg_StaticKey = '''',
      msg_Code = '''', msg_ExpiresIn = 0, msg_PeerID = '''', msg_PeerStaticKey = '''', msg_Online = None,
      msg_Message = ''''\<rparr>"

datatype frameData = Control controlMessage | Envelope bytes

definition TextMessage :: nat where "TextMessage = 1"

definition BinaryMessage :: nat where "BinaryMessage = 2"

record wsFrame =
  kind :: nat
  data :: frameData
  closeAfter :: bool

datatype wireMessage = WireFrame wsFrame | WireClose | WirePing

type_synonym cid = nat

record client =
  DeviceID :: device_id
  send :: "wsFrame list"
  closed :: bool
  pairedWith :: device_id
  maxMessageBytes :: int
  pingInterval :: duration
  deadline :: duration
  connOpen :: bool
  writing :: bool
  wire :: "wireMessage list"

definition sendBufferSize :: nat where
  "sendBufferSize = 256"

text \<open>Where the goroutine that serves a connection is (\<^verbatim>\<open>handler.go\<close>, \<^verbatim>\<open>Pump\<close>).\<close>

datatype thread = AtWelcome Device | Pumping | Finished

record relay =
  heap :: "cid \<rightharpoonup> client"
  threads :: "cid \<rightharpoonup> thread"
  clients :: "device_id \<rightharpoonup> cid"
  registerQ :: "cid list"
  unregisterQ :: "cid list"
  pairCodes :: pairCodeRegistry
  startAt :: time
  store :: db

section \<open>Operations of a client\<close>

definition NewClient :: "device_id \<Rightarrow> device_id \<Rightarrow> int \<Rightarrow> duration \<Rightarrow> duration \<Rightarrow> client" where
  "NewClient deviceID pairedDeviceID maxBytes ping dl =
     \<lparr>DeviceID = deviceID, send = [], closed = False, pairedWith = pairedDeviceID,
      maxMessageBytes = maxBytes, pingInterval = ping, deadline = dl,
      connOpen = True, writing = True, wire = []\<rparr>"

definition Peer :: "client \<Rightarrow> device_id \<times> bool" where
  "Peer c = (pairedWith c, pairedWith c \<noteq> '''')"

definition setPeer :: "device_id \<Rightarrow> client \<Rightarrow> client" where
  "setPeer i c = c\<lparr>pairedWith := i\<rparr>"

definition enqueue :: "wsFrame \<Rightarrow> client \<Rightarrow> bool \<times> client" where
  "enqueue frame c =
     (if closed c then (False, c)
      else if length (send c) < sendBufferSize then (True, c\<lparr>send := send c @ [frame]\<rparr>)
      else (False, c))"

text \<open>\<^verbatim>\<open>close()\<close>; the flag records that \<^verbatim>\<open>once\<close> has run.\<close>

definition close :: "client \<Rightarrow> client" where
  "close c = (if closed c then c else c\<lparr>connOpen := False, closed := True\<rparr>)"

text \<open>
  One round of \<^verbatim>\<open>writePump\<close>'s select on the send channel. \<open>ok\<close> is the outcome of the
  socket write; writing to a closed socket fails.
\<close>

definition writeStep :: "bool \<Rightarrow> client \<Rightarrow> client" where
  "writeStep ok c =
     (if \<not> writing c then c
      else case send c of
        [] \<Rightarrow>
          (if closed c
           then c\<lparr>writing := False, wire := (if ok \<and> connOpen c then wire c @ [WireClose] else wire c)\<rparr>
           else c)
      | frame # rest \<Rightarrow>
          (if \<not> (ok \<and> connOpen c) then c\<lparr>send := rest, writing := False\<rparr>
           else if closeAfter frame
             then c\<lparr>send := rest, wire := wire c @ [WireFrame frame], connOpen := False, writing := False\<rparr>
             else c\<lparr>send := rest, wire := wire c @ [WireFrame frame]\<rparr>))"

text \<open>The ticker branch of the same select.\<close>

definition pingStep :: "bool \<Rightarrow> client \<Rightarrow> client" where
  "pingStep ok c =
     (if \<not> writing c then c
      else if ok \<and> connOpen c then c\<lparr>wire := wire c @ [WirePing]\<rparr>
      else c\<lparr>writing := False\<rparr>)"

section \<open>Operations on the heap\<close>

definition onClient :: "cid \<Rightarrow> (client \<Rightarrow> client) \<Rightarrow> relay \<Rightarrow> relay" where
  "onClient c f s = s\<lparr>heap := (heap s)(c := map_option f (heap s c))\<rparr>"

definition enqueueTo :: "cid \<Rightarrow> wsFrame \<Rightarrow> relay \<Rightarrow> bool \<times> relay" where
  "enqueueTo c frame s =
     (case heap s c of
        None \<Rightarrow> (False, s)
      | Some cl \<Rightarrow> (fst (enqueue frame cl), onClient c (\<lambda>cl. snd (enqueue frame cl)) s))"

definition sendJSON :: "cid \<Rightarrow> controlMessage \<Rightarrow> relay \<Rightarrow> relay" where
  "sendJSON c m s = snd (enqueueTo c \<lparr>kind = TextMessage, data = Control m, closeAfter = False\<rparr> s)"

section \<open>Operations of the hub\<close>

definition NewHub :: "time \<Rightarrow> db \<Rightarrow> relay" where
  "NewHub now d =
     \<lparr>heap = Map.empty, threads = Map.empty, clients = Map.empty, registerQ = [], unregisterQ = [],
      pairCodes = newPairCodeRegistry, startAt = now, store = d\<rparr>"

definition GetClient :: "device_id \<Rightarrow> relay \<Rightarrow> cid option" where
  "GetClient i s = clients s i"

definition notifyPeerStatus :: "device_id \<Rightarrow> device_id \<Rightarrow> bool \<Rightarrow> relay \<Rightarrow> relay" where
  "notifyPeerStatus target about online s =
     (case GetClient target s of
        None \<Rightarrow> s
      | Some c \<Rightarrow> sendJSON c ((zeroMessage ''peer_status'')\<lparr>msg_PeerID := about, msg_Online := Some online\<rparr>) s)"

text \<open>The two branches of \<^verbatim>\<open>Run\<close>'s select, for the client received from the channel.\<close>

definition runRegister :: "cid \<Rightarrow> relay \<Rightarrow> relay" where
  "runRegister c s =
     (case heap s c of
        None \<Rightarrow> s
      | Some cl \<Rightarrow>
          (let s1 = (case clients s (DeviceID cl) of None \<Rightarrow> s | Some old \<Rightarrow> onClient old close s);
               s2 = s1\<lparr>clients := (clients s1)(DeviceID cl \<mapsto> c)\<rparr>
           in if snd (Peer cl) then notifyPeerStatus (fst (Peer cl)) (DeviceID cl) True s2 else s2))"

definition runUnregister :: "cid \<Rightarrow> relay \<Rightarrow> relay" where
  "runUnregister c s =
     (case heap s c of
        None \<Rightarrow> s
      | Some cl \<Rightarrow>
          (if clients s (DeviceID cl) = Some c
           then (let s1 = s\<lparr>clients := (clients s)(DeviceID cl := None)\<rparr>
                 in if snd (Peer cl) then notifyPeerStatus (fst (Peer cl)) (DeviceID cl) False s1 else s1)
           else s))"

text \<open>\<^verbatim>\<open>Run\<close>: receive from one of the two channels. \<open>None\<close>: nothing to receive there.\<close>

definition Run :: "bool \<Rightarrow> relay \<Rightarrow> relay option" where
  "Run fromRegister s =
     (if fromRegister
      then (case registerQ s of [] \<Rightarrow> None | c # cs \<Rightarrow> Some (runRegister c (s\<lparr>registerQ := cs\<rparr>)))
      else (case unregisterQ s of [] \<Rightarrow> None | c # cs \<Rightarrow> Some (runUnregister c (s\<lparr>unregisterQ := cs\<rparr>))))"

definition Route :: "bytes \<Rightarrow> device_id \<Rightarrow> relay \<Rightarrow> relay" where
  "Route payload pairedDeviceID s =
     (case clients s pairedDeviceID of
        None \<Rightarrow> s
      | Some peer \<Rightarrow>
          (let (ok, s1) = enqueueTo peer \<lparr>kind = BinaryMessage, data = Envelope payload, closeAfter = False\<rparr> s
           in if ok then s1
              else (let s2 = onClient peer close s1 in s2\<lparr>unregisterQ := unregisterQ s2 @ [peer]\<rparr>)))"

text \<open>\<^verbatim>\<open>ConnectedDevices\<close> ranges over the map in an order Go leaves open: the set of its results.\<close>

definition ConnectedDevices :: "relay \<Rightarrow> device_id set" where
  "ConnectedDevices s = dom (clients s)"

definition ConnectedCount :: "relay \<Rightarrow> nat" where
  "ConnectedCount s = card (dom (clients s))"

definition Uptime :: "time \<Rightarrow> relay \<Rightarrow> duration" where
  "Uptime now s = now - startAt s"

section \<open>Clients\<close>

interpretation sendq: bounded_queue enqueue send sendBufferSize
  by unfold_locales (auto simp: enqueue_def split: if_splits)

lemma enqueue_fields [simp]:
  "DeviceID (snd (enqueue f c)) = DeviceID c" "closed (snd (enqueue f c)) = closed c"
  "pairedWith (snd (enqueue f c)) = pairedWith c" "connOpen (snd (enqueue f c)) = connOpen c"
  "writing (snd (enqueue f c)) = writing c" "wire (snd (enqueue f c)) = wire c"
  by (simp_all add: enqueue_def)

lemma enqueue_ok: "fst (enqueue f c) \<longleftrightarrow> \<not> closed c \<and> length (send c) < sendBufferSize"
  by (simp add: enqueue_def)

lemma send_enqueue: "send (snd (enqueue f c)) = (if fst (enqueue f c) then send c @ [f] else send c)"
  by (simp add: enqueue_def)

lemma close_fields [simp]:
  "DeviceID (close c) = DeviceID c" "send (close c) = send c" "closed (close c)"
  "pairedWith (close c) = pairedWith c"
  by (simp_all add: close_def)

lemma close_idem [simp]: "close (close c) = close c"
  by (simp add: close_def)

lemma setPeer_fields [simp]:
  "DeviceID (setPeer i c) = DeviceID c" "send (setPeer i c) = send c" "closed (setPeer i c) = closed c"
  "pairedWith (setPeer i c) = i" "connOpen (setPeer i c) = connOpen c"
  by (simp_all add: setPeer_def)

lemma writeStep_fields [simp]:
  "DeviceID (writeStep ok c) = DeviceID c" "closed (writeStep ok c) = closed c"
  "pairedWith (writeStep ok c) = pairedWith c"
  by (simp_all add: writeStep_def split: list.split)

lemma pingStep_fields [simp]:
  "DeviceID (pingStep ok c) = DeviceID c" "closed (pingStep ok c) = closed c" "send (pingStep ok c) = send c"
  "pairedWith (pingStep ok c) = pairedWith c"
  by (simp_all add: pingStep_def)

text \<open>What a frame of the queue looks like: text frames are control messages, binary ones envelopes.\<close>

definition frame_ok :: "wsFrame \<Rightarrow> bool" where
  "frame_ok f \<longleftrightarrow> (case data f of Control _ \<Rightarrow> kind f = TextMessage | Envelope _ \<Rightarrow> kind f = BinaryMessage \<and> \<not> closeAfter f)"

definition client_ok :: "client \<Rightarrow> bool" where
  "client_ok c \<longleftrightarrow> length (send c) \<le> sendBufferSize \<and> (closed c \<longrightarrow> \<not> connOpen c) \<and> list_all frame_ok (send c)"

lemma client_ok_enqueue: "client_ok c \<Longrightarrow> frame_ok f \<Longrightarrow> client_ok (snd (enqueue f c))"
  using sendq.offer_bounded [of c f] by (auto simp: client_ok_def send_enqueue)

lemma client_ok_close: "client_ok c \<Longrightarrow> client_ok (close c)"
  by (auto simp: client_ok_def close_def)

lemma client_ok_setPeer: "client_ok (setPeer i c) = client_ok c"
  by (simp add: client_ok_def)

lemma client_ok_writeStep: "client_ok c \<Longrightarrow> client_ok (writeStep ok c)"
  by (auto simp: client_ok_def writeStep_def split: list.split)

lemma client_ok_pingStep: "client_ok c \<Longrightarrow> client_ok (pingStep ok c)"
  by (auto simp: client_ok_def pingStep_def)

section \<open>Heap updates\<close>

lemma onClient_fields [simp]:
  "clients (onClient c f s) = clients s" "threads (onClient c f s) = threads s"
  "registerQ (onClient c f s) = registerQ s" "unregisterQ (onClient c f s) = unregisterQ s"
  "pairCodes (onClient c f s) = pairCodes s" "store (onClient c f s) = store s"
  "startAt (onClient c f s) = startAt s"
  by (simp_all add: onClient_def)

lemma heap_onClient: "heap (onClient c f s) = (heap s)(c := map_option f (heap s c))"
  by (simp add: onClient_def)

lemma dom_onClient [simp]: "dom (heap (onClient c f s)) = dom (heap s)"
  by (auto simp: heap_onClient)

lemma enqueueTo_eq:
  "enqueueTo c f s =
     (case heap s c of None \<Rightarrow> False | Some cl \<Rightarrow> fst (enqueue f cl), onClient c (\<lambda>cl. snd (enqueue f cl)) s)"
  by (auto simp: enqueueTo_def onClient_def fun_upd_idem split: option.split)

lemma sendJSON_eq:
  "sendJSON c m s = onClient c (\<lambda>cl. snd (enqueue \<lparr>kind = TextMessage, data = Control m, closeAfter = False\<rparr> cl)) s"
  by (simp add: sendJSON_def enqueueTo_eq)

lemma sendJSON_fields [simp]:
  "clients (sendJSON c m s) = clients s" "threads (sendJSON c m s) = threads s"
  "registerQ (sendJSON c m s) = registerQ s" "unregisterQ (sendJSON c m s) = unregisterQ s"
  "pairCodes (sendJSON c m s) = pairCodes s" "store (sendJSON c m s) = store s"
  "startAt (sendJSON c m s) = startAt s" "dom (heap (sendJSON c m s)) = dom (heap s)"
  by (simp_all add: sendJSON_eq)

lemma notifyPeerStatus_fields [simp]:
  "clients (notifyPeerStatus t a b s) = clients s" "threads (notifyPeerStatus t a b s) = threads s"
  "registerQ (notifyPeerStatus t a b s) = registerQ s" "unregisterQ (notifyPeerStatus t a b s) = unregisterQ s"
  "pairCodes (notifyPeerStatus t a b s) = pairCodes s" "store (notifyPeerStatus t a b s) = store s"
  "startAt (notifyPeerStatus t a b s) = startAt s" "dom (heap (notifyPeerStatus t a b s)) = dom (heap s)"
  by (simp_all add: notifyPeerStatus_def split: option.split)

section \<open>The invariant of the hub\<close>

text \<open>
  Every registered address is a live object of the right device, queued addresses exist,
  every client is well formed, and no live connection is lost: a connection that is neither
  closed nor finished is registered or waits in the register channel.
\<close>

definition live :: "relay \<Rightarrow> cid \<Rightarrow> client \<Rightarrow> bool" where
  "live s c cl \<longleftrightarrow> \<not> closed cl \<and> threads s c \<noteq> Some Finished"

definition hub_inv :: "relay \<Rightarrow> bool" where
  "hub_inv s \<longleftrightarrow>
     (\<forall>i c. clients s i = Some c \<longrightarrow> (\<exists>cl. heap s c = Some cl \<and> DeviceID cl = i)) \<and>
     set (registerQ s) \<union> set (unregisterQ s) \<subseteq> dom (heap s) \<and>
     (\<forall>c cl. heap s c = Some cl \<longrightarrow> client_ok cl) \<and>
     (\<forall>c cl. heap s c = Some cl \<longrightarrow> live s c cl \<longrightarrow> c \<in> set (registerQ s) \<or> clients s (DeviceID cl) = Some c) \<and>
     (\<forall>c cl. heap s c = Some cl \<longrightarrow> c \<in> set (unregisterQ s) \<longrightarrow> \<not> live s c cl) \<and>
     finite (dom (clients s))"

lemma hub_invI:
  assumes "\<And>i c. clients s i = Some c \<Longrightarrow> \<exists>cl. heap s c = Some cl \<and> DeviceID cl = i"
    and "set (registerQ s) \<union> set (unregisterQ s) \<subseteq> dom (heap s)"
    and "\<And>c cl. heap s c = Some cl \<Longrightarrow> client_ok cl"
    and "\<And>c cl. heap s c = Some cl \<Longrightarrow> live s c cl \<Longrightarrow> c \<in> set (registerQ s) \<or> clients s (DeviceID cl) = Some c"
    and "\<And>c cl. heap s c = Some cl \<Longrightarrow> c \<in> set (unregisterQ s) \<Longrightarrow> \<not> live s c cl"
    and "finite (dom (clients s))"
  shows "hub_inv s"
  using assms unfolding hub_inv_def by blast

lemma hub_invD:
  assumes "hub_inv s"
  shows "clients s i = Some c \<Longrightarrow> \<exists>cl. heap s c = Some cl \<and> DeviceID cl = i"
    and "set (registerQ s) \<union> set (unregisterQ s) \<subseteq> dom (heap s)"
    and "heap s c = Some cl \<Longrightarrow> client_ok cl"
    and "heap s c = Some cl \<Longrightarrow> live s c cl \<Longrightarrow> c \<in> set (registerQ s) \<or> clients s (DeviceID cl) = Some c"
    and "heap s c = Some cl \<Longrightarrow> c \<in> set (unregisterQ s) \<Longrightarrow> \<not> live s c cl"
    and "finite (dom (clients s))"
  using assms unfolding hub_inv_def by blast+

text \<open>
  An update of one object keeps the invariant when it keeps the device, the well-formedness
  of the object, and does not reopen it. Every field of the relay but the heap is the same.
\<close>

definition benign :: "(client \<Rightarrow> client) \<Rightarrow> bool" where
  "benign f \<longleftrightarrow> (\<forall>cl. DeviceID (f cl) = DeviceID cl \<and> (client_ok cl \<longrightarrow> client_ok (f cl)) \<and> (closed cl \<longrightarrow> closed (f cl)))"

lemma benign_intros [inv_intros]:
  "frame_ok f \<Longrightarrow> benign (\<lambda>cl. snd (enqueue f cl))"
  "benign close" "benign (setPeer i)" "benign (writeStep ok)" "benign (pingStep ok)"
  by (simp_all add: benign_def client_ok_enqueue client_ok_close client_ok_setPeer client_ok_writeStep
      client_ok_pingStep)

lemma hub_inv_onClient:
  assumes "hub_inv s" and "benign f"
  shows "hub_inv (onClient c f s)"
proof (rule hub_invI)
  let ?s = "onClient c f s"
  have cl: "\<exists>old. heap s c' = Some old \<and> DeviceID new = DeviceID old \<and> (client_ok old \<longrightarrow> client_ok new) \<and>
      (live ?s c' new \<longrightarrow> live s c' old)" if "heap ?s c' = Some new" for c' new
    using that assms(2) by (fastforce simp: heap_onClient benign_def live_def split: if_splits)
  show "\<exists>cl. heap ?s c' = Some cl \<and> DeviceID cl = i" if "clients ?s i = Some c'" for i c'
    using hub_invD(1) [OF assms(1), of i c'] that assms(2) by (auto simp: heap_onClient benign_def)
  show "set (registerQ ?s) \<union> set (unregisterQ ?s) \<subseteq> dom (heap ?s)"
    using hub_invD(2) [OF assms(1)] by simp
  show "client_ok new" if "heap ?s c' = Some new" for c' new
    using cl [OF that] hub_invD(3) [OF assms(1)] by blast
  show "c' \<in> set (registerQ ?s) \<or> clients ?s (DeviceID new) = Some c'"
    if "heap ?s c' = Some new" "live ?s c' new" for c' new
    using cl [OF that(1)] that(2) hub_invD(4) [OF assms(1)] by fastforce
  show "\<not> live ?s c' new" if "heap ?s c' = Some new" "c' \<in> set (unregisterQ ?s)" for c' new
    using cl [OF that(1)] that(2) hub_invD(5) [OF assms(1)] by fastforce
  show "finite (dom (clients ?s))"
    using hub_invD(6) [OF assms(1)] by simp
qed

lemma frame_ok_text [simp]: "frame_ok \<lparr>kind = TextMessage, data = Control m, closeAfter = b\<rparr>"
  by (simp add: frame_ok_def)

lemma frame_ok_binary [simp]: "frame_ok \<lparr>kind = BinaryMessage, data = Envelope p, closeAfter = False\<rparr>"
  by (simp add: frame_ok_def)

lemma hub_inv_sendJSON [inv_intros]: "hub_inv s \<Longrightarrow> hub_inv (sendJSON c m s)"
  by (simp add: sendJSON_eq hub_inv_onClient inv_intros)

lemma hub_inv_notify [inv_intros]: "hub_inv s \<Longrightarrow> hub_inv (notifyPeerStatus t a b s)"
  by (simp add: notifyPeerStatus_def inv_intros split: option.split)

lemma hub_inv_enqueueTo [inv_intros]: "hub_inv s \<Longrightarrow> frame_ok f \<Longrightarrow> hub_inv (snd (enqueueTo c f s))"
  by (simp add: enqueueTo_eq hub_inv_onClient inv_intros)

text \<open>Changes outside the hub's own state.\<close>

lemma hub_inv_cong:
  assumes "hub_inv s" and "heap s' = heap s" and "clients s' = clients s" and "threads s' = threads s"
    and "registerQ s' = registerQ s" and "unregisterQ s' = unregisterQ s"
  shows "hub_inv s'"
  using assms by (simp add: hub_inv_def live_def)

lemma hub_inv_runRegister:
  assumes inv: "hub_inv s" and q: "registerQ s = c # cs"
  shows "hub_inv (runRegister c (s\<lparr>registerQ := cs\<rparr>))"
proof -
  obtain cl where cl: "heap s c = Some cl"
    using hub_invD(2) [OF inv] q by auto
  let ?d = "DeviceID cl"
  let ?s0 = "s\<lparr>registerQ := cs\<rparr>"
  let ?s1 = "case clients s ?d of None \<Rightarrow> ?s0 | Some old \<Rightarrow> onClient old close ?s0"
  let ?s2 = "?s1\<lparr>clients := (clients ?s1)(?d \<mapsto> c)\<rparr>"
  have f1: "clients ?s1 = clients s" "threads ?s1 = threads s" "registerQ ?s1 = cs" "unregisterQ ?s1 = unregisterQ s"
    by (simp_all split: option.split)
  have h1: "heap ?s1 = (\<lambda>c'. if clients s ?d = Some c' then map_option close (heap s c') else heap s c')"
    by (auto simp: heap_onClient fun_eq_iff split: option.split)
  have old: "\<exists>o'. heap s c' = Some o' \<and> DeviceID new = DeviceID o' \<and> (client_ok o' \<longrightarrow> client_ok new) \<and>
      (\<not> closed new \<longrightarrow> \<not> closed o' \<and> clients s ?d \<noteq> Some c')" if "heap ?s2 c' = Some new" for c' new
    using that by (auto simp: h1 client_ok_close split: if_splits)
  have "hub_inv ?s2"
  proof (rule hub_invI)
    show "\<exists>x. heap ?s2 c' = Some x \<and> DeviceID x = i" if "clients ?s2 i = Some c'" for i c'
      using that cl hub_invD(1) [OF inv, of i c'] by (auto simp: h1 f1 split: if_splits)
    show "set (registerQ ?s2) \<union> set (unregisterQ ?s2) \<subseteq> dom (heap ?s2)"
      using hub_invD(2) [OF inv] q by (auto simp: h1 f1)
    show "client_ok new" if "heap ?s2 c' = Some new" for c' new
      using old [OF that] hub_invD(3) [OF inv] by blast
    show "c' \<in> set (registerQ ?s2) \<or> clients ?s2 (DeviceID new) = Some c'"
      if new: "heap ?s2 c' = Some new" and l: "live ?s2 c' new" for c' new
    proof -
      obtain o' where o': "heap s c' = Some o'" "DeviceID new = DeviceID o'" "live s c' o'" "clients s ?d \<noteq> Some c'"
        using old [OF new] l by (auto simp: live_def f1)
      show ?thesis
        using hub_invD(4) [OF inv o'(1,3)] o' cl q by (auto simp: f1)
    qed
    show "\<not> live ?s2 c' new" if "heap ?s2 c' = Some new" "c' \<in> set (unregisterQ ?s2)" for c' new
      using old [OF that(1)] that(2) hub_invD(5) [OF inv] by (auto simp: live_def f1)
    show "finite (dom (clients ?s2))"
      using hub_invD(6) [OF inv] by (simp add: f1)
  qed
  then show ?thesis
    using cl by (simp add: runRegister_def Let_def inv_intros)
qed

lemma hub_inv_runUnregister:
  assumes inv: "hub_inv s" and q: "unregisterQ s = c # cs"
  shows "hub_inv (runUnregister c (s\<lparr>unregisterQ := cs\<rparr>))"
proof -
  obtain cl where cl: "heap s c = Some cl"
    using hub_invD(2) [OF inv] q by auto
  have dead: "\<not> live s c cl"
    using hub_invD(5) [OF inv cl] q by simp
  let ?s0 = "s\<lparr>unregisterQ := cs\<rparr>"
  have s0: "hub_inv ?s0"
    using inv q by (auto simp: hub_inv_def live_def)
  have "hub_inv (?s0\<lparr>clients := (clients s)(DeviceID cl := None)\<rparr>)" if cur: "clients s (DeviceID cl) = Some c"
  proof (rule hub_invI)
    let ?s1 = "?s0\<lparr>clients := (clients s)(DeviceID cl := None)\<rparr>"
    show "\<exists>x. heap ?s1 c' = Some x \<and> DeviceID x = i" if "clients ?s1 i = Some c'" for i c'
      using that hub_invD(1) [OF inv, of i c'] by (auto split: if_splits)
    show "set (registerQ ?s1) \<union> set (unregisterQ ?s1) \<subseteq> dom (heap ?s1)"
      using hub_invD(2) [OF s0] by simp
    show "client_ok new" if "heap ?s1 c' = Some new" for c' new
      using that hub_invD(3) [OF inv] by simp
    show "c' \<in> set (registerQ ?s1) \<or> clients ?s1 (DeviceID new) = Some c'"
      if "heap ?s1 c' = Some new" "live ?s1 c' new" for c' new
      using that hub_invD(4) [OF inv, of c' new] dead cl cur by (auto simp: live_def)
    show "\<not> live ?s1 c' new" if "heap ?s1 c' = Some new" "c' \<in> set (unregisterQ ?s1)" for c' new
      using that hub_invD(5) [OF inv, of c' new] q by (auto simp: live_def)
    show "finite (dom (clients ?s1))"
      using hub_invD(6) [OF inv] by simp
  qed
  then show ?thesis
    using cl s0 by (simp add: runUnregister_def Let_def inv_intros)
qed

lemma hub_inv_Run [inv_intros]: "hub_inv s \<Longrightarrow> Run b s = Some s' \<Longrightarrow> hub_inv s'"
  by (auto simp: Run_def hub_inv_runRegister hub_inv_runUnregister split: if_splits list.splits)

lemma hub_inv_push_unregister:
  assumes "hub_inv s" and "heap s c = Some cl" and "\<not> live s c cl"
  shows "hub_inv (s\<lparr>unregisterQ := unregisterQ s @ [c]\<rparr>)"
  using assms by (auto simp: hub_inv_def live_def)

lemma hub_inv_Route [inv_intros]:
  assumes "hub_inv s"
  shows "hub_inv (Route payload i s)"
proof (cases "clients s i")
  case None
  then show ?thesis using assms by (simp add: Route_def)
next
  case (Some peer)
  let ?f = "\<lparr>kind = BinaryMessage, data = Envelope payload, closeAfter = False\<rparr>"
  let ?s1 = "snd (enqueueTo peer ?f s)"
  obtain cl where cl: "heap s peer = Some cl"
    using hub_invD(1) [OF assms Some] by blast
  have s1: "hub_inv ?s1" using assms by (simp add: inv_intros)
  have "hub_inv (onClient peer close ?s1)"
    by (rule hub_inv_onClient [OF s1]) (rule benign_intros)
  moreover have "heap (onClient peer close ?s1) peer = Some (close (snd (enqueue ?f cl)))"
    using cl by (simp add: enqueueTo_eq heap_onClient)
  ultimately have "hub_inv ((onClient peer close ?s1)\<lparr>unregisterQ := unregisterQ (onClient peer close ?s1) @ [peer]\<rparr>)"
    by (rule hub_inv_push_unregister) (simp add: live_def)
  with s1 Some show ?thesis
    by (simp add: Route_def Let_def case_prod_beta)
qed

section \<open>Properties\<close>

text \<open>
  Routing is verbatim and touches only the addressee. A routed envelope either is
  appended, byte for byte and as a binary frame, behind what the addressee's queue already
  holds, or (when that queue is full or closed) closes exactly that client and asks for its
  removal; every other client, the registry of codes, the hub's map and the database stay
  as they were. An envelope for a device that is not connected has no effect at all.
\<close>

theorem route_verbatim:
  "(case GetClient i s of
      None \<Rightarrow> Route payload i s = s
    | Some peer \<Rightarrow>
        heap (Route payload i s) = (heap s)(peer := map_option (\<lambda>cl.
          if \<not> closed cl \<and> length (send cl) < sendBufferSize
          then cl\<lparr>send := send cl @ [\<lparr>kind = BinaryMessage, data = Envelope payload, closeAfter = False\<rparr>]\<rparr>
          else close cl) (heap s peer)) \<and>
        clients (Route payload i s) = clients s \<and> pairCodes (Route payload i s) = pairCodes s \<and>
        store (Route payload i s) = store s)"
proof (cases "clients s i")
  case None
  then show ?thesis by (simp add: GetClient_def Route_def)
next
  case (Some peer)
  then show ?thesis
    by (cases "heap s peer")
      (simp_all add: GetClient_def Route_def Let_def case_prod_beta enqueueTo_eq heap_onClient enqueue_def)
qed

text \<open>
  A reconnect survives the departure of the old connection. After the hub registered a
  new connection of a device, the late unregistration of the device's previous connection
  changes nothing: the new connection stays registered and nobody is told that the device
  went offline.
\<close>

theorem reconnect_keeps_new:
  assumes "hub_inv s" and "clients s i = Some old" and "heap s new = Some cl" and "DeviceID cl = i"
    and "old \<noteq> new"
  shows "clients (runRegister new s) i = Some new \<and>
    runUnregister old (runRegister new s) = runRegister new s \<and>
    (\<exists>oc. heap (runRegister new s) old = Some oc \<and> closed oc)"
proof -
  let ?s2 = "(onClient old close s)\<lparr>clients := (clients s)(i \<mapsto> new)\<rparr>"
  let ?n = "notifyPeerStatus (fst (Peer cl)) i True"
  have reg: "runRegister new s = (if snd (Peer cl) then ?n ?s2 else ?s2)"
    using assms(2-4) by (simp add: runRegister_def Let_def)
  obtain ocl where ocl: "heap s old = Some ocl" "DeviceID ocl = i"
    using hub_invD(1) [OF assms(1,2)] by blast
  have s2: "heap ?s2 old = Some (close ocl)"
    using ocl by (simp add: heap_onClient)
  have "\<exists>oc. heap (?n ?s2) old = Some oc \<and> closed oc \<and> DeviceID oc = i"
    using s2 ocl by (auto simp: notifyPeerStatus_def sendJSON_eq heap_onClient split: option.split)
  then have "\<exists>oc. heap (runRegister new s) old = Some oc \<and> closed oc \<and> DeviceID oc = i"
    using reg s2 ocl by simp
  moreover have "clients (runRegister new s) i = Some new"
    by (simp add: reg)
  ultimately show ?thesis
    using assms(5) by (auto simp: runUnregister_def)
qed

definition sample_relay :: relay where
  "sample_relay = (NewHub 0 (empty_db []))\<lparr>
     heap := [0 \<mapsto> NewClient ''a'' ''b'' 65536 30 60, 1 \<mapsto> NewClient ''a'' ''b'' 65536 30 60],
     registerQ := [1], clients := [''a'' \<mapsto> 0]\<rparr>"

theorem reconnect_keeps_new_witness:
  "clients (runRegister 1 sample_relay) ''a'' = Some 1 \<and>
   runUnregister 0 (runRegister 1 sample_relay) = runRegister 1 sample_relay"
proof -
  have "hub_inv sample_relay"
    by (rule hub_invI)
      (auto simp: sample_relay_def NewHub_def NewClient_def client_ok_def live_def split: if_splits)
  then show ?thesis
    using reconnect_keeps_new [of sample_relay "''a''" 0 1 "NewClient ''a'' ''b'' 65536 30 60"]
    by (simp add: sample_relay_def NewHub_def NewClient_def)
qed

text \<open>
  A client's frames leave in the order they were offered, and never more than the
  buffer holds are queued. Offering any sequence of frames appends a subsequence of it, in
  order, and nothing else.
\<close>

theorem send_queue_fifo:
  "\<exists>acc. subseq acc frames \<and> send (fold (\<lambda>f c. snd (enqueue f c)) frames c) = send c @ acc \<and>
     (length (send c) \<le> sendBufferSize \<longrightarrow>
       length (send (fold (\<lambda>f c. snd (enqueue f c)) frames c)) \<le> sendBufferSize)"
  using sendq.offers_in_order [of frames c] sendq.offers_bounded [of c frames] by blast

theorem send_queue_fifo_witness:
  "\<exists>acc. subseq acc [\<lparr>kind = BinaryMessage, data = Envelope [1, 2], closeAfter = False\<rparr>] \<and>
    send (fold (\<lambda>f c. snd (enqueue f c)) [\<lparr>kind = BinaryMessage, data = Envelope [1, 2], closeAfter = False\<rparr>]
      (NewClient ''a'' ''b'' 65536 30 60)) = send (NewClient ''a'' ''b'' 65536 30 60) @ acc"
  using send_queue_fifo by blast

end
