(* ===== verification/Pairing_Tokens.thy ===== *)
theory Pairing_Tokens
  imports Device_Store
begin

text \<open>
  Device registration and code generation (\<^verbatim>\<open>internal/pairing/pairing.go\<close>). The random
  bytes \<^verbatim>\<open>rand.Read\<close> delivers are an argument (\<open>None\<close>: it returned an error), as are the
  clock and the identifier \<^verbatim>\<open>uuid.NewString\<close> draws. Chunks are \<open>64 word\<close>s and the pairing
  code is computed from a \<open>32 word\<close>, as in the source.
\<close>

section \<open>Definitions\<close>

definition base58Alphabet :: string where
  "base58Alphabet = ''123456789ABCDEFGHJKLMNPQRSTUVWXYZabcdefghijkmnopqrstuvwxyz''"

text \<open>\<^verbatim>\<open>binary.BigEndian.Uint64\<close> and \<^verbatim>\<open>binary.BigEndian.Uint32\<close>.\<close>

definition Uint64 :: "bytes \<Rightarrow> 64 word" where
  "Uint64 bs = foldl (\<lambda>w b. w * 256 + ucast b) 0 bs"

definition Uint32 :: "bytes \<Rightarrow> 32 word" where
  "Uint32 bs = foldl (\<lambda>w b. w * 256 + ucast b) 0 bs"

fun leadingZeros :: "bytes \<Rightarrow> nat" where
  "leadingZeros [] = 0"
| "leadingZeros (b # bs) = (if b \<noteq> 0 then 0 else Suc (leadingZeros bs))"

text \<open>The inner loop: \<^verbatim>\<open>for num > 0 { append(alphabet[num % 58]); num /= 58 }\<close>.\<close>

function base58Digits :: "64 word \<Rightarrow> string" where
  "base58Digits num =
     (if num > 0 then base58Alphabet ! unat (num mod 58) # base58Digits (num div 58) else [])"
  by pat_completeness auto
termination
proof (relation "measure unat")
  fix num :: "64 word"
  assume "num > 0"
  then have "0 < unat num" by (simp add: unat_gt_0)
  then show "(num div 58, num) \<in> measure unat" by (simp add: unat_div)
qed simp

declare base58Digits.simps [simp del]

text \<open>The outer loop over 8-byte chunks, the last one padded on the left.\<close>

fun base58Chunks :: "bytes \<Rightarrow> string" where
  "base58Chunks [] = []"
| "base58Chunks (b # bs) =
     (let piece = take 8 (b # bs); chunk = replicate (8 - length piece) 0 @ piece
      in base58Digits (Uint64 chunk) @ base58Chunks (drop 8 (b # bs)))"

text \<open>The in-place reversal: \<^verbatim>\<open>for l, r := 0, len-1; l < r; l, r = l+1, r-1\<close>.\<close>

function reverseLoop :: "nat \<Rightarrow> nat \<Rightarrow> 'a list \<Rightarrow> 'a list" where
  "reverseLoop l r xs =
     (if l < r then reverseLoop (l + 1) (r - 1) (xs[l := xs ! r, r := xs ! l]) else xs)"
  by pat_completeness auto
termination
  by (relation "measure (\<lambda>(l, r, _). r - l)") auto

declare reverseLoop.simps [simp del]

definition base58Encode :: "bytes \<Rightarrow> string" where
  "base58Encode input =
     (let encoded = base58Chunks input @ replicate (leadingZeros input) (base58Alphabet ! 0)
      in reverseLoop 0 (length encoded - 1) encoded)"

definition GenerateDeviceToken :: "bytes option \<Rightarrow> string option" where
  "GenerateDeviceToken rnd = (case rnd of None \<Rightarrow> None | Some b \<Rightarrow> Some (base58Encode b))"

definition deviceTokenTTL :: duration where
  "deviceTokenTTL = 5 * Minute"

definition NewDevice :: "bytes option \<Rightarrow> device_id \<Rightarrow> time \<Rightarrow> string \<Rightarrow> Device option" where
  "NewDevice rnd uuid now name =
     (case GenerateDeviceToken rnd of
        None \<Rightarrow> None
      | Some token \<Rightarrow>
          Some \<lparr>ID = uuid, Name = name, PublicKey = '''', DeviceToken = token, StaticKey = '''',
            PairedWith = None, CreatedAt = now, LastSeen = None,
            ExpiresAt = Some (now + deviceTokenTTL)\<rparr>)"

definition PairingCodeTTL :: duration where
  "PairingCodeTTL = 5 * Minute"

text \<open>\<^verbatim>\<open>fmt.Sprintf("%06d", n)\<close>.\<close>

fun decimal :: "nat \<Rightarrow> string" where
  "decimal n = (if n < 10 then [char_of (48 + n)] else decimal (n div 10) @ [char_of (48 + n mod 10)])"

declare decimal.simps [simp del]

definition Sprintf06d :: "nat \<Rightarrow> string" where
  "Sprintf06d n = replicate (6 - length (decimal n)) (CHR ''0'') @ decimal n"

definition GeneratePairingCode :: "bytes option \<Rightarrow> string option" where
  "GeneratePairingCode rnd =
     (case rnd of
        None \<Rightarrow> None
      | Some b \<Rightarrow> Some (Sprintf06d (unat (Uint32 b mod 1000000))))"

text \<open>Reference decoders: what a reader of the two formats computes.\<close>

fun decimalValue :: "string \<Rightarrow> nat" where
  "decimalValue cs = foldl (\<lambda>v c. v * 10 + (of_char c - 48)) 0 cs"

definition beValue :: "bytes \<Rightarrow> nat" where
  "beValue bs = foldl (\<lambda>v b. v * 256 + unat b) 0 bs"

function beBytes :: "nat \<Rightarrow> bytes" where
  "beBytes n = (if n = 0 then [] else beBytes (n div 256) @ [word_of_nat (n mod 256)])"
  by pat_completeness auto
termination
  by (relation "measure id") auto

declare beBytes.simps [simp del]

fun indexOf :: "char \<Rightarrow> string \<Rightarrow> nat" where
  "indexOf c [] = 0"
| "indexOf c (x # xs) = (if c = x then 0 else Suc (indexOf c xs))"

definition base58Decode :: "string \<Rightarrow> bytes" where
  "base58Decode s =
     (let ones = length (takeWhile (\<lambda>c. c = base58Alphabet ! 0) s)
      in replicate ones 0 @ beBytes (foldl (\<lambda>v c. v * 58 + indexOf c base58Alphabet) 0 s))"

section \<open>The reversal loop\<close>

lemma reverseLoop_nth:
  assumes "r < length xs"
  shows "length (reverseLoop l r xs) = length xs \<and>
    (\<forall>k < length xs. reverseLoop l r xs ! k = (if l \<le> k \<and> k \<le> r then xs ! (l + r - k) else xs ! k))"
  using assms
proof (induction l r xs rule: reverseLoop.induct)
  case (1 l r xs)
  show ?case
  proof (cases "l < r")
    case True
    let ?ys = "xs[l := xs ! r, r := xs ! l]"
    have IH: "length (reverseLoop (l + 1) (r - 1) ?ys) = length xs \<and>
      (\<forall>k < length xs. reverseLoop (l + 1) (r - 1) ?ys ! k =
        (if l + 1 \<le> k \<and> k \<le> r - 1 then ?ys ! (l + 1 + (r - 1) - k) else ?ys ! k))"
      using "1.IH" [OF True] "1.prems" by simp
    have "reverseLoop l r xs ! k = (if l \<le> k \<and> k \<le> r then xs ! (l + r - k) else xs ! k)"
      if "k < length xs" for k
    proof -
      have "reverseLoop l r xs ! k =
          (if l + 1 \<le> k \<and> k \<le> r - 1 then ?ys ! (l + 1 + (r - 1) - k) else ?ys ! k)"
        using IH that True by (simp add: reverseLoop.simps [of l r xs])
      moreover have "?ys ! (l + r - k) = xs ! (l + r - k)" if "l + 1 \<le> k" "k \<le> r - 1"
        using that True by (simp add: nth_list_update)
      ultimately show ?thesis
        using that True "1.prems" by (auto simp: nth_list_update)
    qed
    then show ?thesis
      using IH True by (simp add: reverseLoop.simps [of l r xs])
  next
    case False
    then have "l + r - k = k" if "l \<le> k" "k \<le> r" for k
      using that by simp
    with False show ?thesis by (simp add: reverseLoop.simps [of l r xs])
  qed
qed

lemma reverseLoop_rev: "reverseLoop 0 (length xs - 1) xs = rev xs"
proof (cases "xs = []")
  case True
  then show ?thesis by (simp add: reverseLoop.simps)
next
  case False
  then have "length xs - 1 < length xs" by simp
  from reverseLoop_nth [OF this, of 0] show ?thesis
    by (intro nth_equalityI) (auto simp: rev_nth)
qed

section \<open>Big-endian values\<close>

lemma beValue_Nil [simp]: "beValue [] = 0"
  by (simp add: beValue_def)

lemma beValue_snoc [simp]: "beValue (bs @ [b]) = beValue bs * 256 + unat b"
  by (simp add: beValue_def)

lemma beValue_zeros [simp]: "beValue (replicate k 0 @ bs) = beValue bs"
  by (induction k) (simp_all add: beValue_def)

lemma beValue_less: "beValue bs < 256 ^ length bs"
proof (induction bs rule: rev_induct)
  case (snoc b bs)
  have "unat b < 256" by (rule unat_byte)
  with snoc show ?case by simp
qed simp

lemma Uint64_of_nat: "Uint64 bs = word_of_nat (beValue bs)"
proof (induction bs rule: rev_induct)
  case (snoc b bs)
  then show ?case by (simp add: Uint64_def beValue_def)
qed (simp add: Uint64_def)

lemma Uint32_of_nat: "Uint32 bs = word_of_nat (beValue bs)"
proof (induction bs rule: rev_induct)
  case (snoc b bs)
  then show ?case by (simp add: Uint32_def beValue_def)
qed (simp add: Uint32_def)

lemma unat_Uint64: "length bs \<le> 8 \<Longrightarrow> unat (Uint64 bs) = beValue bs"
proof -
  assume "length bs \<le> 8"
  then have "(256::nat) ^ length bs \<le> 256 ^ 8" by (intro power_increasing) simp_all
  with beValue_less [of bs] have "beValue bs < 2 ^ 64" by simp
  then show ?thesis by (simp add: Uint64_of_nat unat_of_nat)
qed

lemma unat_Uint32: "length bs = 4 \<Longrightarrow> unat (Uint32 bs) = beValue bs"
  using beValue_less [of bs] by (simp add: Uint32_of_nat unat_of_nat)

lemma beBytes_beValue: "bs = [] \<or> hd bs \<noteq> 0 \<Longrightarrow> beBytes (beValue bs) = bs"
proof (induction bs rule: rev_induct)
  case Nil
  then show ?case by (simp add: beBytes.simps)
next
  case (snoc b bs)
  have b: "unat b < 256" by (rule unat_byte)
  have "beBytes (beValue bs) = bs"
    using snoc by (cases bs) auto
  moreover have "beValue (bs @ [b]) \<noteq> 0"
  proof (cases bs)
    case Nil
    with snoc.prems show ?thesis by (simp add: beValue_def unat_eq_zero)
  next
    case (Cons c cs)
    have "beBytes 0 = []" by (simp add: beBytes.simps)
    with calculation Cons have "beValue bs \<noteq> 0" by (metis list.distinct(1))
    then show ?thesis by simp
  qed
  moreover have "(beValue bs * 256 + unat b) div 256 = beValue bs"
    and "(beValue bs * 256 + unat b) mod 256 = unat b"
    using b by simp_all
  ultimately show ?case
    by (simp add: beBytes.simps [of "beValue bs * 256 + unat b"])
qed

lemma leadingZeros_split:
  "\<exists>rest. bs = replicate (leadingZeros bs) 0 @ rest \<and> (rest = [] \<or> hd rest \<noteq> 0)"
proof (induction bs)
  case (Cons b bs)
  show ?case
  proof (cases "b = 0")
    case True
    with Cons show ?thesis by auto
  next
    case False
    then show ?thesis by (intro exI [of _ "b # bs"]) simp
  qed
qed simp

section \<open>Base 58\<close>

lemma length_alphabet [simp]: "length base58Alphabet = 58"
  by (simp add: base58Alphabet_def)

lemma distinct_alphabet: "distinct base58Alphabet"
  by (simp add: base58Alphabet_def)

lemma indexOf_nth: "distinct xs \<Longrightarrow> k < length xs \<Longrightarrow> indexOf (xs ! k) xs = k"
  by (induction xs arbitrary: k) (auto simp: nth_Cons split: nat.splits)

lemma indexOf_alphabet [simp]: "k < 58 \<Longrightarrow> indexOf (base58Alphabet ! k) base58Alphabet = k"
  by (simp add: indexOf_nth distinct_alphabet)

lemma unat_mod58: "unat (num mod (58 :: 64 word)) = unat num mod 58"
  by (simp add: unat_mod)

lemma base58Digits_alphabet: "set (base58Digits num) \<subseteq> set base58Alphabet"
proof (induction num rule: base58Digits.induct)
  case (1 num)
  have "base58Alphabet ! (unat num mod 58) \<in> set base58Alphabet"
    by (rule nth_mem) simp
  with 1 show ?case
    by (auto simp: base58Digits.simps [of num] unat_mod58)
qed

lemma base58Digits_value:
  "foldr (\<lambda>c v. indexOf c base58Alphabet + 58 * v) (base58Digits num) 0 = unat num"
proof (induction num rule: base58Digits.induct)
  case (1 num)
  show ?case
  proof (cases "num > 0")
    case True
    with 1 show ?thesis
      by (simp add: base58Digits.simps [of num] unat_mod58 unat_div)
  next
    case False
    then have "num = 0" by (simp add: word_gt_0)
    then show ?thesis by (simp add: base58Digits.simps [of 0])
  qed
qed

lemma base58Digits_Nil_iff: "base58Digits num = [] \<longleftrightarrow> num = 0"
  by (subst base58Digits.simps) (simp add: word_gt_0)

lemma base58Digits_last: "num \<noteq> 0 \<Longrightarrow> last (base58Digits num) \<noteq> base58Alphabet ! 0"
proof (induction num rule: base58Digits.induct)
  case (1 num)
  show ?case
  proof (cases "num div 58 = 0")
    case True
    then have "unat num < 58"
      using unat_div [of num 58] by (simp add: div_eq_0_iff)
    then have "unat (num mod 58) = unat num" and "unat num < 58"
      by (simp_all add: unat_mod58)
    with 1 True show ?thesis
      using nth_eq_iff_index_eq [OF distinct_alphabet, of "unat num" 0]
      by (simp add: base58Digits.simps [of num] base58Digits.simps [of 0] word_gt_0 unat_eq_zero)
  next
    case False
    with 1 show ?thesis
      by (simp add: base58Digits.simps [of num] base58Digits_Nil_iff word_gt_0)
  qed
qed

lemma base58Digits_length: "unat num < 58 ^ k \<Longrightarrow> length (base58Digits num) \<le> k"
proof (induction k arbitrary: num)
  case 0
  then show ?case by (simp add: base58Digits.simps unat_eq_zero word_gt_0)
next
  case (Suc k)
  have "unat (num div 58) < 58 ^ k"
    using Suc.prems by (simp add: unat_div less_mult_imp_div_less mult.commute)
  then show ?case
    using Suc.IH by (simp add: base58Digits.simps [of num])
qed

lemma base58Digits_max: "length (base58Digits num) \<le> 11"
  using unsigned_less [of num, where ?'a = nat] by (intro base58Digits_length) simp

lemma base58Chunks_alphabet: "set (base58Chunks bs) \<subseteq> set base58Alphabet"
  by (induction bs rule: base58Chunks.induct) (use base58Digits_alphabet in \<open>auto simp: Let_def\<close>)

lemma base58Chunks_length: "length (base58Chunks bs) \<le> 11 * ((length bs + 7) div 8)"
proof (induction bs rule: base58Chunks.induct)
  case (2 b bs)
  let ?w = "Uint64 (replicate (8 - length (take 8 (b # bs))) 0 @ take 8 (b # bs))"
  have "length (base58Chunks (b # bs)) = length (base58Digits ?w) + length (base58Chunks (drop 8 (b # bs)))"
    by (simp add: Let_def)
  also have "\<dots> \<le> 11 + 11 * ((length (drop 8 (b # bs)) + 7) div 8)"
    using "2.IH" [OF refl refl] base58Digits_max by (intro add_mono)
  also have "(length (drop 8 (b # bs)) + 7) div 8 + 1 \<le> (length (b # bs) + 7) div 8"
    by (cases "length bs < 7") (auto simp: div_le_mono)
  then have "11 + 11 * ((length (drop 8 (b # bs)) + 7) div 8) \<le> 11 * ((length (b # bs) + 7) div 8)"
    by linarith
  finally show ?case .
qed simp

lemma base58Encode_eq:
  "base58Encode bs = replicate (leadingZeros bs) (base58Alphabet ! 0) @ rev (base58Chunks bs)"
  unfolding base58Encode_def Let_def by (subst reverseLoop_rev) simp

lemma base58Chunks_short:
  assumes "length bs \<le> 8"
  shows "base58Chunks bs = base58Digits (word_of_nat (beValue bs))"
proof (cases bs)
  case Nil
  then show ?thesis by (simp add: base58Digits.simps)
next
  case (Cons b cs)
  then show ?thesis using assms by (simp add: Let_def Uint64_of_nat)
qed

lemma foldl_zeros: "foldl (\<lambda>v c. v * 58 + indexOf c base58Alphabet) 0 (replicate k (base58Alphabet ! 0)) = 0"
  by (induction k) simp_all

lemma foldl_rev_digits:
  "foldl (\<lambda>v c. v * 58 + indexOf c base58Alphabet) 0 (rev (base58Digits num)) = unat num"
proof -
  have "foldl (\<lambda>v c. v * 58 + indexOf c base58Alphabet) 0 (rev cs) =
      foldr (\<lambda>c v. indexOf c base58Alphabet + 58 * v) cs 0" for cs
    by (induction cs) (simp_all add: algebra_simps)
  then show ?thesis by (simp add: base58Digits_value)
qed

lemma takeWhile_replicate:
  "xs = [] \<or> hd xs \<noteq> c \<Longrightarrow> takeWhile (\<lambda>x. x = c) (replicate k c @ xs) = replicate k c"
  by (induction k) (auto simp: hd_conv_nth takeWhile_eq_Nil_iff)

section \<open>Decimal codes\<close>

lemma of_char_digit: "k < 10 \<Longrightarrow> of_char (char_of (48 + k) :: char) = (48 + k :: nat)"
  by simp

lemma decimal_digits: "set (decimal n) \<subseteq> {c. 48 \<le> (of_char c :: nat) \<and> (of_char c :: nat) < 58}"
proof (induction n rule: decimal.induct)
  case (1 n)
  have "n mod 10 < 10" by simp
  with 1 show ?case
    by (cases "n < 10") (auto simp: decimal.simps [of n] of_char_digit)
qed

lemma decimal_value: "foldl (\<lambda>v c. v * 10 + (of_char c - 48)) 0 (decimal n) = (n :: nat)"
proof (induction n rule: decimal.induct)
  case (1 n)
  have "n mod 10 < 10" by simp
  with 1 show ?case
    by (cases "n < 10") (simp_all add: decimal.simps [of n] of_char_digit)
qed

lemma decimal_length: "n < 10 ^ Suc k \<Longrightarrow> length (decimal n) \<le> Suc k"
proof (induction k arbitrary: n)
  case 0
  then show ?case by (simp add: decimal.simps)
next
  case (Suc k)
  have "n div 10 < 10 ^ Suc k"
    using Suc.prems by (simp add: less_mult_imp_div_less)
  then show ?case
    using Suc.IH by (simp add: decimal.simps [of n])
qed

lemma foldl_decimal_zeros:
  "foldl (\<lambda>v c. v * 10 + (of_char c - 48)) 0 (replicate k (CHR ''0'')) = (0 :: nat)"
  by (induction k) simp_all

section \<open>Properties\<close>

text \<open>
  Device tokens are printable and bounded. Every character of a generated token is a
  letter or digit of the base-58 alphabet, and the token of a 32-byte draw has at most 44
  characters plus one per leading zero byte; generation fails only when the random source
  does.
\<close>

theorem device_token_shape:
  assumes "GenerateDeviceToken (Some b) = Some token" and "length b = 32"
  shows "set token \<subseteq> set base58Alphabet \<and> length token \<le> 44 + leadingZeros b"
proof -
  have token: "token = replicate (leadingZeros b) (base58Alphabet ! 0) @ rev (base58Chunks b)"
    using assms(1) by (simp add: GenerateDeviceToken_def base58Encode_eq)
  have "base58Alphabet ! 0 \<in> set base58Alphabet"
    by (rule nth_mem) simp
  moreover have "length (base58Chunks b) \<le> 44"
    using base58Chunks_length [of b] assms(2) by simp
  ultimately show ?thesis
    using base58Chunks_alphabet [of b] by (auto simp: token split: if_splits)
qed

theorem device_token_shape_witness:
  "set (base58Encode (replicate 31 0 @ [255])) \<subseteq> set base58Alphabet \<and>
   length (base58Encode (replicate 31 0 @ [255])) \<le> 44 + leadingZeros (replicate 31 0 @ [255])"
  by (rule device_token_shape) (simp_all add: GenerateDeviceToken_def)

text \<open>
  On at most eight bytes the encoder is base 58. Decoding (leading ones are zero
  bytes, the rest is the number in base 58) returns the encoded bytes.
\<close>

theorem base58_roundtrip:
  assumes "length bs \<le> 8"
  shows "base58Decode (base58Encode bs) = bs"
proof -
  obtain rest where rest: "bs = replicate (leadingZeros bs) 0 @ rest" "rest = [] \<or> hd rest \<noteq> 0"
    using leadingZeros_split by blast
  let ?w = "word_of_nat (beValue bs) :: 64 word"
  have w: "unat ?w = beValue bs"
    using unat_Uint64 [OF assms] by (simp add: Uint64_of_nat)
  have enc: "base58Encode bs = replicate (leadingZeros bs) (base58Alphabet ! 0) @ rev (base58Digits ?w)"
    using assms by (simp add: base58Encode_eq base58Chunks_short)
  have "rev (base58Digits ?w) = [] \<or> hd (rev (base58Digits ?w)) \<noteq> base58Alphabet ! 0"
    using base58Digits_last [of ?w] by (auto simp: base58Digits_Nil_iff hd_rev)
  from takeWhile_replicate [OF this] have
    "base58Decode (base58Encode bs) = replicate (leadingZeros bs) 0 @ beBytes (beValue bs)"
    by (simp add: base58Decode_def enc foldl_zeros foldl_rev_digits w)
  moreover have "beValue bs = beValue rest"
    by (subst rest(1)) simp
  ultimately show ?thesis
    using rest by (simp add: beBytes_beValue)
qed

theorem base58_roundtrip_witness: "base58Decode (base58Encode [0, 0, 1, 2, 3]) = [0, 0, 1, 2, 3]"
  by (rule base58_roundtrip) simp

text \<open>
  On longer inputs the encoder is not injective. It encodes each eight-byte chunk on
  its own, without padding, so the boundary between chunks is lost: two different 16-byte
  inputs have the same encoding.
\<close>

theorem base58_collision: "\<exists>a b. length a = 16 \<and> length b = 16 \<and> a \<noteq> b \<and> base58Encode a = base58Encode b"
proof (intro exI conjI)
  let ?a = "[0, 0, 0, 0, 0, 0, 0, 1, 0, 0, 0, 0, 0, 0, 0, 59] :: bytes"
  let ?b = "[0, 0, 0, 0, 0, 0, 0, 59, 0, 0, 0, 0, 0, 0, 0, 1] :: bytes"
  show "length ?a = 16" and "length ?b = 16" and "?a \<noteq> ?b" by simp_all
  show "base58Encode ?a = base58Encode ?b" by code_simp
qed

text \<open>
  C34: a pairing code is six decimal digits. From four random bytes the generator returns
  a code of exactly six digits whose value is the big-endian number modulo one million.
\<close>

theorem pairing_code_shape:
  assumes "length b = 4"
  shows "\<exists>code. GeneratePairingCode (Some b) = Some code \<and> length code = 6 \<and>
    set code \<subseteq> {c. 48 \<le> (of_char c :: nat) \<and> (of_char c :: nat) < 58} \<and>
    decimalValue code = beValue b mod 1000000"
proof -
  let ?n = "beValue b mod 1000000"
  have n: "unat (Uint32 b mod 1000000) = ?n"
    using assms by (simp add: unat_mod unat_Uint32)
  have "length (decimal ?n) \<le> 6"
    using decimal_length [of ?n 5] by simp
  then show ?thesis
    using decimal_digits [of ?n]
    by (auto simp: GeneratePairingCode_def n Sprintf06d_def foldl_decimal_zeros decimal_value split: if_splits)
qed

theorem pairing_code_shape_witness:
  "\<exists>code. GeneratePairingCode (Some [0, 0, 1, 2]) = Some code \<and> length code = 6 \<and>
    set code \<subseteq> {c. 48 \<le> (of_char c :: nat) \<and> (of_char c :: nat) < 58} \<and>
    decimalValue code = beValue [0, 0, 1, 2] mod 1000000"
  by (rule pairing_code_shape) simp

end
