(* ===== verification/Relay_Control.thy ===== *)
theory Relay_Control
  imports Relay_Hub Pairing_Tokens
begin

text \<open>
  The JSON control channel (\<^verbatim>\<open>internal/relay/control.go\<close>): one definition per handler, the
  whole handler with every message it sends and every early return. \<open>unmarshal\<close> stands for
  \<^verbatim>\<open>json.Unmarshal\<close> of a frame into a \<^verbatim>\<open>controlMessage\<close> (\<open>None\<close>: it returned an error),
  \<open>now\<close> for the clock, \<open>rnd\<close> for the bytes the random source delivers and \<open>swap\<close> for the
  order in which \<^verbatim>\<open>range\<close> visits the two links in \<open>PairDevices\<close>.
\<close>

section \<open>Handlers\<close>

definition ProtocolVersion :: int where
  "ProtocolVersion = 1"

text \<open>Run a database call on the relay's store.\<close>

definition withStore :: "'a dbm \<Rightarrow> relay \<Rightarrow> (db_error + 'a) \<times> relay" where
  "withStore m s = (fst (m (store s)), s\<lparr>store := snd (m (store s))\<rparr>)"

definition sendError :: "cid \<Rightarrow> string \<Rightarrow> string \<Rightarrow> relay \<Rightarrow> relay" where
  "sendError c code message = sendJSON c ((zeroMessage ''error'')\<lparr>msg_Code := code, msg_Message := message\<rparr>)"

definition sendErrorAndClose :: "cid \<Rightarrow> string \<Rightarrow> string \<Rightarrow> relay \<Rightarrow> relay" where
  "sendErrorAndClose c code message s =
     (let (ok, s1) = enqueueTo c
        \<lparr>kind = TextMessage, data = Control ((zeroMessage ''error'')\<lparr>msg_Code := code, msg_Message := message\<rparr>),
         closeAfter = True\<rparr> s
      in if \<not> ok then onClient c close s1 else s1)"

definition staticKeyOf :: "device_id \<Rightarrow> relay \<Rightarrow> string \<times> relay" where
  "staticKeyOf i s =
     (case withStore (GetDeviceByID i) s of
        (Inl _, s1) \<Rightarrow> ('''', s1)
      | (Inr d, s1) \<Rightarrow> (StaticKey d, s1))"

definition sendWelcome :: "cid \<Rightarrow> device_id \<Rightarrow> Device \<Rightarrow> relay \<Rightarrow> relay" where
  "sendWelcome c myID device s =
     (let (peers, s1) =
        (case PairedWith device of
           None \<Rightarrow> ([], s)
         | Some p \<Rightarrow> (let (key, s') = staticKeyOf p s in ([\<lparr>info_ID = p, info_StaticKey = key\<rparr>], s')));
        s2 = sendJSON c ((zeroMessage ''welcome'')\<lparr>msg_ProtocolVersion := ProtocolVersion,
               msg_DeviceID := myID, msg_Peers := peers\<rparr>) s1
      in case PairedWith device of
           None \<Rightarrow> s2
         | Some p \<Rightarrow> sendJSON c ((zeroMessage ''peer_status'')\<lparr>msg_PeerID := p,
               msg_Online := Some (GetClient p s2 \<noteq> None)\<rparr>) s2)"

definition handleAnnounceKey :: "cid \<Rightarrow> device_id \<Rightarrow> controlMessage \<Rightarrow> relay \<Rightarrow> relay" where
  "handleAnnounceKey c myID msg s =
     (if msg_StaticKey msg = '''' then sendError c ''malformed'' ''announce_key requires static_key'' s
      else case withStore (SetStaticKeyIfUnset myID (msg_StaticKey msg)) s of
        (Inr _, s1) \<Rightarrow> s1
      | (Inl e, s1) \<Rightarrow>
          (if e = ErrStaticKeyMismatch
           then sendErrorAndClose c ''key_mismatch''
             ''announced static key does not match the key locked on first connection'' s1
           else sendError c ''internal'' ''internal error'' s1))"

definition handlePairRequest :: "bytes option \<Rightarrow> time \<Rightarrow> cid \<Rightarrow> device_id \<Rightarrow> relay \<Rightarrow> relay" where
  "handlePairRequest rnd now c myID s =
     (case GeneratePairingCode rnd of
        None \<Rightarrow> sendError c ''internal'' ''internal error'' s
      | Some code \<Rightarrow>
          (let s1 = s\<lparr>pairCodes := Put now code myID PairingCodeTTL (pairCodes s)\<rparr>
           in sendJSON c ((zeroMessage ''pair_code'')\<lparr>msg_Code := code,
                msg_ExpiresIn := PairingCodeTTL div Second\<rparr>) s1))"

definition handlePairAccept :: "bool \<Rightarrow> time \<Rightarrow> cid \<Rightarrow> device_id \<Rightarrow> controlMessage \<Rightarrow> relay \<Rightarrow> relay" where
  "handlePairAccept swap now c myID msg s =
     (if msg_Code msg = '''' then sendError c ''malformed'' ''pair_accept requires code'' s
      else let ((requester, expired, ok), codes) = Take now (msg_Code msg) (pairCodes s);
               s1 = s\<lparr>pairCodes := codes\<rparr>
        in if \<not> ok then
             (if expired then sendError c ''code_expired'' ''pairing code has expired'' s1
              else sendError c ''invalid_code'' ''unknown pairing code'' s1)
           else if requester = myID then sendError c ''invalid_code'' ''cannot pair with yourself'' s1
           else case withStore (PairDevices swap requester myID) s1 of
             (Inl e, s2) \<Rightarrow>
               (if e = ErrAlreadyPaired
                then sendError c ''already_paired'' ''one of the devices is already paired'' s2
                else if e = ErrNotFound
                then sendError c ''invalid_code'' ''requesting device no longer exists'' s2
                else sendError c ''internal'' ''internal error'' s2)
           | (Inr _, s2) \<Rightarrow>
               (let (myKey, s3) = staticKeyOf myID s2;
                    (requesterKey, s4) = staticKeyOf requester s3;
                    s5 = onClient c (setPeer requester) s4;
                    s6 = sendJSON c ((zeroMessage ''pair_complete'')\<lparr>msg_Code := msg_Code msg,
                           msg_PeerID := requester, msg_PeerStaticKey := requesterKey\<rparr>) s5
                in case GetClient requester s6 of
                     None \<Rightarrow> s6
                   | Some rc \<Rightarrow>
                       sendJSON rc ((zeroMessage ''pair_complete'')\<lparr>msg_Code := msg_Code msg,
                         msg_PeerID := myID, msg_PeerStaticKey := myKey\<rparr>)
                         (onClient rc (setPeer myID) s6)))"

definition handleUnpair :: "cid \<Rightarrow> client \<Rightarrow> relay \<Rightarrow> relay" where
  "handleUnpair c cl s =
     (let (peerID, wasPaired) = Peer cl
      in case withStore (UnpairDevice (DeviceID cl)) s of
           (Inl _, s1) \<Rightarrow> sendError c ''internal'' ''internal error'' s1
         | (Inr _, s1) \<Rightarrow>
             (let s2 = onClient c (setPeer '''') s1;
                  s3 = sendJSON c ((zeroMessage ''unpaired'')\<lparr>msg_PeerID := peerID\<rparr>) s2
              in if wasPaired
                 then (case GetClient peerID s3 of
                         None \<Rightarrow> s3
                       | Some pc \<Rightarrow>
                           sendJSON pc ((zeroMessage ''unpaired'')\<lparr>msg_PeerID := DeviceID cl\<rparr>)
                             (onClient pc (setPeer '''') s3))
                 else s3))"

definition handleControl ::
  "(bytes \<Rightarrow> controlMessage option) \<Rightarrow> bytes option \<Rightarrow> bool \<Rightarrow> time \<Rightarrow> cid \<Rightarrow> bytes \<Rightarrow> relay \<Rightarrow> relay" where
  "handleControl unmarshal rnd swap now c raw s =
     (case heap s c of
        None \<Rightarrow> s
      | Some cl \<Rightarrow>
          (case unmarshal raw of
             None \<Rightarrow> sendError c ''malformed'' ''invalid JSON control frame'' s
           | Some msg \<Rightarrow>
               (if msg_Type msg = ''announce_key'' then handleAnnounceKey c (DeviceID cl) msg s
                else if msg_Type msg = ''pair_request'' then handlePairRequest rnd now c (DeviceID cl) s
                else if msg_Type msg = ''pair_accept'' then handlePairAccept swap now c (DeviceID cl) msg s
                else if msg_Type msg = ''unpair'' then handleUnpair c cl s
                else if msg_Type msg = ''ping'' then sendJSON c (zeroMessage ''pong'') s
                else s)))"

section \<open>What the handlers leave alone\<close>

lemma withStore_eq: "withStore m s = (r, s') \<longleftrightarrow> r = fst (m (store s)) \<and> s' = s\<lparr>store := snd (m (store s))\<rparr>"
  by (auto simp: withStore_def)

lemma devices_GetDeviceByID: "devices (snd (GetDeviceByID i d)) = devices d"
  using devices_QueryRow [of "\<lambda>r. row_id r = i" d]
  by (auto simp: GetDeviceByID_def db_bind_def db_return_def split: prod.splits sum.splits)

lemma GetDeviceByID_no_faults:
  "faults d = [] \<Longrightarrow> GetDeviceByID i d =
    (case row_of d i of None \<Rightarrow> (Inl ErrNotFound, d) | Some r \<Rightarrow> (Inr (scanDevice r), d))"
  by (simp add: GetDeviceByID_def db_bind_def QueryRow_no_faults row_of_def db_return_def split: option.split)

lemma staticKeyOf_store: "\<exists>d. snd (staticKeyOf i s) = s\<lparr>store := d\<rparr> \<and> devices d = devices (store s)"
  using devices_GetDeviceByID [of i "store s"]
  by (auto simp: staticKeyOf_def withStore_def split: sum.split prod.split)

lemma staticKeyOf_fields [simp]:
  "heap (snd (staticKeyOf i s)) = heap s" "clients (snd (staticKeyOf i s)) = clients s"
  "threads (snd (staticKeyOf i s)) = threads s" "registerQ (snd (staticKeyOf i s)) = registerQ s"
  "unregisterQ (snd (staticKeyOf i s)) = unregisterQ s" "pairCodes (snd (staticKeyOf i s)) = pairCodes s"
  "devices (store (snd (staticKeyOf i s))) = devices (store s)"
  using staticKeyOf_store [of i s] by auto

text \<open>
  \<open>same_hub s s'\<close>: the map of connected clients, the threads and the two channels are the
  same. Every control handler, and the welcome, keeps them.
\<close>

definition same_hub :: "relay \<Rightarrow> relay \<Rightarrow> bool" where
  "same_hub s s' \<longleftrightarrow> clients s' = clients s \<and> threads s' = threads s \<and>
     registerQ s' = registerQ s \<and> unregisterQ s' = unregisterQ s \<and> dom (heap s') = dom (heap s)"

text \<open>\<open>hub_frame\<close>: moreover the hub's invariant carries over.\<close>

definition hub_frame :: "relay \<Rightarrow> relay \<Rightarrow> bool" where
  "hub_frame s s' \<longleftrightarrow> same_hub s s' \<and> (hub_inv s \<longrightarrow> hub_inv s')"

lemma hub_frame_refl [simp]: "hub_frame s s"
  by (simp add: hub_frame_def same_hub_def)

lemma hub_frame_trans: "hub_frame s s' \<Longrightarrow> hub_frame s' s'' \<Longrightarrow> hub_frame s s''"
  by (simp add: hub_frame_def same_hub_def)

lemma hub_frame_sendJSON [inv_intros]: "hub_frame s s' \<Longrightarrow> hub_frame s (sendJSON c m s')"
  by (simp add: hub_frame_def same_hub_def inv_intros)

lemma hub_frame_onClient [inv_intros]: "hub_frame s s' \<Longrightarrow> benign f \<Longrightarrow> hub_frame s (onClient c f s')"
  by (simp add: hub_frame_def same_hub_def hub_inv_onClient)

lemma hub_frame_store [inv_intros]: "hub_frame s s' \<Longrightarrow> hub_frame s (s'\<lparr>store := d\<rparr>)"
  by (auto simp: hub_frame_def same_hub_def intro: hub_inv_cong)

lemma hub_frame_codes [inv_intros]: "hub_frame s s' \<Longrightarrow> hub_frame s (s'\<lparr>pairCodes := r\<rparr>)"
  by (auto simp: hub_frame_def same_hub_def intro: hub_inv_cong)

lemma hub_frame_staticKeyOf [inv_intros]: "hub_frame s s' \<Longrightarrow> hub_frame s (snd (staticKeyOf i s'))"
  using staticKeyOf_store [of i s'] by (auto simp: inv_intros)

lemma hub_frame_sendError [inv_intros]: "hub_frame s s' \<Longrightarrow> hub_frame s (sendError c code m s')"
  by (simp add: sendError_def inv_intros)

lemma hub_frame_sendErrorAndClose [inv_intros]: "hub_frame s s' \<Longrightarrow> hub_frame s (sendErrorAndClose c code m s')"
  by (simp add: sendErrorAndClose_def Let_def case_prod_beta enqueueTo_eq hub_frame_onClient benign_intros)

lemma hub_frame_sendWelcome [inv_intros]: "hub_frame s s' \<Longrightarrow> hub_frame s (sendWelcome c i dv s')"
  by (auto simp: sendWelcome_def Let_def case_prod_beta inv_intros split: option.split)

lemma hub_frame_handleAnnounceKey [inv_intros]: "hub_frame s s' \<Longrightarrow> hub_frame s (handleAnnounceKey c i msg s')"
  by (auto simp: handleAnnounceKey_def withStore_def inv_intros split: sum.split)

lemma hub_frame_handlePairRequest [inv_intros]: "hub_frame s s' \<Longrightarrow> hub_frame s (handlePairRequest rnd now c i s')"
  by (auto simp: handlePairRequest_def Let_def inv_intros split: option.split)

lemma hub_frame_handleUnpair [inv_intros]: "hub_frame s s' \<Longrightarrow> hub_frame s (handleUnpair c cl s')"
  by (auto simp: handleUnpair_def Let_def case_prod_beta withStore_def inv_intros split: sum.split option.split)

lemma hub_frame_handlePairAccept [inv_intros]: "hub_frame s s' \<Longrightarrow> hub_frame s (handlePairAccept swap now c i msg s')"
  by (auto simp: handlePairAccept_def Let_def case_prod_beta withStore_def inv_intros split: sum.split option.split)

lemma hub_frame_handleControl [inv_intros]:
  "hub_frame s s' \<Longrightarrow> hub_frame s (handleControl unmarshal rnd swap now c raw s')"
  by (simp add: handleControl_def inv_intros split: option.split)

section \<open>What the handlers do\<close>

text \<open>The key a device announced, as the handlers report it: empty while there is none.\<close>

definition keyText :: "db \<Rightarrow> device_id \<Rightarrow> string" where
  "keyText d i = (case locked_key d i of None \<Rightarrow> '''' | Some k \<Rightarrow> k)"

lemma staticKeyOf_no_faults: "faults (store s) = [] \<Longrightarrow> staticKeyOf i s = (keyText (store s) i, s)"
  by (auto simp: staticKeyOf_def withStore_def GetDeviceByID_no_faults keyText_def locked_key_def scanDevice_def
      split: option.split)

definition textFrame :: "controlMessage \<Rightarrow> wsFrame" where
  "textFrame m = \<lparr>kind = TextMessage, data = Control m, closeAfter = False\<rparr>"

definition roomy :: "client \<Rightarrow> bool" where
  "roomy cl \<longleftrightarrow> \<not> closed cl \<and> length (send cl) < sendBufferSize"

lemma heap_sendJSON: "heap (sendJSON c m s) = (heap s)(c := map_option (\<lambda>cl. snd (enqueue (textFrame m) cl)) (heap s c))"
  by (simp add: sendJSON_eq heap_onClient textFrame_def)

lemma enqueue_roomy: "roomy cl \<Longrightarrow> snd (enqueue f cl) = cl\<lparr>send := send cl @ [f]\<rparr>"
  by (simp add: enqueue_def roomy_def)

lemma roomy_setPeer [simp]: "roomy (setPeer i cl) = roomy cl"
  by (simp add: roomy_def setPeer_def)

lemma sendError_frame [simp]:
  "store (sendError c k m s) = store s" "pairCodes (sendError c k m s) = pairCodes s"
  "map_option pairedWith (heap (sendError c k m s) x) = map_option pairedWith (heap s x)"
  by (auto simp: sendError_def heap_sendJSON option.map_comp o_def)

definition pairComplete :: "string \<Rightarrow> device_id \<Rightarrow> string \<Rightarrow> controlMessage" where
  "pairComplete code peer key =
     (zeroMessage ''pair_complete'')\<lparr>msg_Code := code, msg_PeerID := peer, msg_PeerStaticKey := key\<rparr>"

text \<open>The run of \<open>handlePairAccept\<close> on a live code, both devices connected.\<close>

lemma handlePairAccept_run:
  assumes "heap s c = Some cl" and "clients s r = Some rc" and "heap s rc = Some rcl" and "rc \<noteq> c"
    and "roomy cl" and "roomy rcl" and "faults (store s) = []"
    and "msg_Code msg \<noteq> ''''" and "entries (pairCodes s) (msg_Code msg) = Some e"
    and "requesterID e = r" and "now \<le> expiresAt e" and "r \<noteq> me"
    and "{r, me} \<subseteq> known (store s)" and "peer_of (store s) r = None" and "peer_of (store s) me = None"
  shows "\<exists>d. peer_of d = (peer_of (store s))(r \<mapsto> me, me \<mapsto> r) \<and> faults d = [] \<and>
    handlePairAccept swap now c me msg s = s\<lparr>store := d,
      pairCodes := (pairCodes s)\<lparr>entries := (entries (pairCodes s))(msg_Code msg := None)\<rparr>,
      heap := (heap s)
        (c \<mapsto> cl\<lparr>pairedWith := r,
           send := send cl @ [textFrame (pairComplete (msg_Code msg) r (keyText (store s) r))]\<rparr>,
         rc \<mapsto> rcl\<lparr>pairedWith := me,
           send := send rcl @ [textFrame (pairComplete (msg_Code msg) me (keyText (store s) me))]\<rparr>)\<rparr>"
proof -
  obtain d where pd: "PairDevices swap r me (store s) = (Inr (), d)" and nf: "faults d = []"
    using PairDevices_no_faults [of "store s" r me swap] assms by auto
  have peers: "peer_of d = (peer_of (store s))(r \<mapsto> me, me \<mapsto> r)"
    using peer_of_PairDevices [of swap r me "store s"] pd assms(12) by (simp add: is_ok_def fun_upd_twist)
  have keys: "keyText d = keyText (store s)"
    using locked_key_PairDevices [of swap r me "store s"] pd by (simp add: keyText_def [abs_def])
  have take: "Take now (msg_Code msg) (pairCodes s) =
      ((r, False, True), (pairCodes s)\<lparr>entries := (entries (pairCodes s))(msg_Code msg := None)\<rparr>)"
    using assms by (simp add: Take_def)
  note run = handlePairAccept_def Let_def withStore_def take pd staticKeyOf_no_faults nf keys GetClient_def
  have "handlePairAccept swap now c me msg s = s\<lparr>store := d,
      pairCodes := (pairCodes s)\<lparr>entries := (entries (pairCodes s))(msg_Code msg := None)\<rparr>,
      heap := (heap s)
        (c \<mapsto> cl\<lparr>pairedWith := r,
           send := send cl @ [textFrame (pairComplete (msg_Code msg) r (keyText (store s) r))]\<rparr>,
         rc \<mapsto> rcl\<lparr>pairedWith := me,
           send := send rcl @ [textFrame (pairComplete (msg_Code msg) me (keyText (store s) me))]\<rparr>)\<rparr>"
    using assms
    by (simp add: run sendJSON_eq onClient_def enqueue_roomy setPeer_def roomy_def pairComplete_def textFrame_def
        enqueue_def)
  with peers nf show ?thesis by blast
qed

section \<open>Properties\<close>

text \<open>
  C5: accepting a live code links both devices, in the store and in memory. The
  requester of the code and the accepting device become each other's peer in the store
  and no other link changes, the code is consumed, both connected clients route to each
  other from now on, and each is sent one \<^verbatim>\<open>pair_complete\<close> carrying the other's identifier
  and announced key. No other client is touched.
\<close>

theorem pair_accept_links:
  assumes "heap s c = Some cl" and "clients s r = Some rc" and "heap s rc = Some rcl" and "rc \<noteq> c"
    and "roomy cl" and "roomy rcl" and "faults (store s) = []"
    and "msg_Code msg \<noteq> ''''" and "entries (pairCodes s) (msg_Code msg) = Some e"
    and "requesterID e = r" and "now \<le> expiresAt e" and "r \<noteq> me"
    and "{r, me} \<subseteq> known (store s)" and "peer_of (store s) r = None" and "peer_of (store s) me = None"
  shows "let s' = handlePairAccept swap now c me msg s in
    peer_of (store s') = (peer_of (store s))(r \<mapsto> me, me \<mapsto> r) \<and>
    entries (pairCodes s') = (entries (pairCodes s))(msg_Code msg := None) \<and>
    heap s' = (heap s)
      (c \<mapsto> cl\<lparr>pairedWith := r,
         send := send cl @ [textFrame (pairComplete (msg_Code msg) r (keyText (store s) r))]\<rparr>,
       rc \<mapsto> rcl\<lparr>pairedWith := me,
         send := send rcl @ [textFrame (pairComplete (msg_Code msg) me (keyText (store s) me))]\<rparr>)"
proof -
  from handlePairAccept_run [OF assms, of swap] obtain d where "peer_of d = (peer_of (store s))(r \<mapsto> me, me \<mapsto> r)"
    and "handlePairAccept swap now c me msg s = s\<lparr>store := d,
      pairCodes := (pairCodes s)\<lparr>entries := (entries (pairCodes s))(msg_Code msg := None)\<rparr>,
      heap := (heap s)
        (c \<mapsto> cl\<lparr>pairedWith := r,
           send := send cl @ [textFrame (pairComplete (msg_Code msg) r (keyText (store s) r))]\<rparr>,
         rc \<mapsto> rcl\<lparr>pairedWith := me,
           send := send rcl @ [textFrame (pairComplete (msg_Code msg) me (keyText (store s) me))]\<rparr>)\<rparr>"
    by blast
  then show ?thesis by (simp add: Let_def)
qed

definition sample_control_relay :: relay where
  "sample_control_relay = (NewHub 0 (store_run [OpCreate (sample_device ''a''), OpCreate (sample_device ''b''),
       OpSetKey ''a'' ''KA''] (empty_db [])))\<lparr>
     heap := [0 \<mapsto> NewClient ''a'' '''' 65536 30 60, 1 \<mapsto> NewClient ''b'' '''' 65536 30 60],
     clients := [''a'' \<mapsto> 0, ''b'' \<mapsto> 1],
     pairCodes := Put 0 ''123456'' ''a'' PairingCodeTTL newPairCodeRegistry\<rparr>"

theorem pair_accept_links_witness:
  "peer_of (store (handlePairAccept False 5 1 ''b''
      ((zeroMessage ''pair_accept'')\<lparr>msg_Code := ''123456''\<rparr>) sample_control_relay)) ''a'' = Some ''b''"
proof -
  let ?s = sample_control_relay
  have "faults (store ?s) = []" "{''a'', ''b''} \<subseteq> known (store ?s)"
    "peer_of (store ?s) ''a'' = None" "peer_of (store ?s) ''b'' = None"
    by code_simp+
  moreover have "heap ?s 1 = Some (NewClient ''b'' '''' 65536 30 60)" "heap ?s 0 = Some (NewClient ''a'' '''' 65536 30 60)"
    "clients ?s ''a'' = Some 0"
    "entries (pairCodes ?s) ''123456'' = Some \<lparr>requesterID = ''a'', expiresAt = PairingCodeTTL\<rparr>"
    by (simp_all add: sample_control_relay_def)
  moreover have "roomy (NewClient i '''' 65536 30 60)" for i
    by (simp add: roomy_def NewClient_def sendBufferSize_def)
  ultimately show ?thesis
    using pair_accept_links [of ?s 1 "NewClient ''b'' '''' 65536 30 60" "''a''" 0 "NewClient ''a'' '''' 65536 30 60"
        "(zeroMessage ''pair_accept'')\<lparr>msg_Code := ''123456''\<rparr>"
        "\<lparr>requesterID = ''a'', expiresAt = PairingCodeTTL\<rparr>" 5 "''b''" False]
    by (simp add: Let_def zeroMessage_def PairingCodeTTL_def)
qed

text \<open>
  C24: an accept that is refused changes nothing but the code. Whatever the driver does,
  either the code was live, belongs to another device and the store linked the two, or the
  rows of the store and the routing of every client are as before; and a non-empty code is
  consumed in both cases, so it cannot be tried again.
\<close>

theorem pair_accept_refused:
  "let s' = handlePairAccept swap now c me msg s in
     (entries (pairCodes s') (msg_Code msg) = None \<or> msg_Code msg = '''') \<and>
     ((devices (store s') = devices (store s) \<and>
       (\<forall>x. map_option pairedWith (heap s' x) = map_option pairedWith (heap s x))) \<or>
      (\<exists>e. entries (pairCodes s) (msg_Code msg) = Some e \<and> now \<le> expiresAt e \<and> requesterID e \<noteq> me \<and>
        peer_of (store s') = (peer_of (store s))(me \<mapsto> requesterID e, requesterID e \<mapsto> me)))"
proof (cases "msg_Code msg = ''''")
  case True
  then show ?thesis by (simp add: handlePairAccept_def Let_def)
next
  case False
  obtain rid ex ok codes where tk: "Take now (msg_Code msg) (pairCodes s) = ((rid, ex, ok), codes)"
    by (metis prod_cases3 surj_pair)
  have gone: "entries codes (msg_Code msg) = None"
    using entries_Take [of now "msg_Code msg" "pairCodes s"] tk by simp
  have live: "\<exists>e. entries (pairCodes s) (msg_Code msg) = Some e \<and> now \<le> expiresAt e \<and> requesterID e = rid" if ok
    using that tk Take_result [of now "msg_Code msg" "pairCodes s"] by (auto split: option.splits if_splits)
  show ?thesis
  proof (cases "ok \<and> rid \<noteq> me")
    case no: False
    then show ?thesis using False gone
      by (auto simp: handlePairAccept_def Let_def tk)
  next
    case yes: True
    obtain res d where pd: "PairDevices swap rid me (store s) = (res, d)"
      by fastforce
    show ?thesis
    proof (cases res)
      case (Inl err)
      then have "devices d = devices (store s)"
        using PairDevices_fail [of swap rid me "store s"] pd by (simp add: is_ok_def)
      with Inl yes False gone show ?thesis
        by (simp add: handlePairAccept_def Let_def tk withStore_def pd)
    next
      case (Inr u)
      let ?s' = "handlePairAccept swap now c me msg s"
      have "peer_of d = (peer_of (store s))(me \<mapsto> rid, rid \<mapsto> me)"
        using peer_of_PairDevices [of swap rid me "store s"] pd Inr by (simp add: is_ok_def)
      moreover have "devices (store ?s') = devices d" "pairCodes ?s' = codes"
        using Inr yes False
        by (simp_all add: handlePairAccept_def Let_def tk withStore_def pd case_prod_beta split: option.split)
      ultimately show ?thesis
        using live yes gone views_cong(2) [of "store ?s'" d] by (auto simp: Let_def)
    qed
  qed
qed

text \<open>
  Unpairing clears both sides. When the statement succeeds, the device and everyone
  linked to it in the store are unlinked and no other link changes; the client stops routing,
  and so does the connected client of the peer it routed to.
\<close>

theorem unpair_clears:
  assumes "heap s c = Some cl" and "is_ok (fst (UnpairDevice (DeviceID cl) (store s)))"
  shows "let s' = handleUnpair c cl s in
    peer_of (store s') = (\<lambda>j. if j = DeviceID cl \<or> peer_of (store s) j = Some (DeviceID cl) then None
                               else peer_of (store s) j) \<and>
    map_option pairedWith (heap s' c) = Some '''' \<and>
    (\<forall>pc. pairedWith cl \<noteq> '''' \<longrightarrow> clients s (pairedWith cl) = Some pc \<longrightarrow> heap s pc \<noteq> None \<longrightarrow>
       map_option pairedWith (heap s' pc) = Some '''')"
proof -
  obtain u d where run: "UnpairDevice (DeviceID cl) (store s) = (Inr u, d)"
    using assms(2) by (elim is_okE)
  have "peer_of d = (\<lambda>j. if j = DeviceID cl \<or> peer_of (store s) j = Some (DeviceID cl) then None
                          else peer_of (store s) j)"
    using peer_of_UnpairDevice [of "DeviceID cl" "store s"] run by (simp add: is_ok_def)
  with assms(1) show ?thesis
    by (auto simp: handleUnpair_def Let_def Peer_def withStore_def run GetClient_def heap_sendJSON heap_onClient
        setPeer_def split: option.split)
qed

theorem unpair_clears_witness:
  "map_option pairedWith (heap (handleUnpair 0 (NewClient ''a'' ''b'' 65536 30 60) sample_relay) 0) = Some ''''"
proof -
  have "is_ok (fst (UnpairDevice ''a'' (store sample_relay)))" by code_simp
  then show ?thesis
    using unpair_clears [of sample_relay 0 "NewClient ''a'' ''b'' 65536 30 60"]
    by (simp add: Let_def sample_relay_def NewClient_def)
qed

text \<open>
  A device that announces another key than the locked one is turned away. The store's
  rows do not change, and the client either has the \<^verbatim>\<open>key_mismatch\<close> error queued as a frame
  after which the connection closes, or (no room for it) is closed at once.
\<close>

theorem key_mismatch_closes:
  assumes "heap s c = Some cl" and "faults (store s) = []" and "locked_key (store s) me = Some k"
    and "msg_StaticKey msg \<noteq> ''''" and "msg_StaticKey msg \<noteq> k"
  shows "let s' = handleAnnounceKey c me msg s in
    devices (store s') = devices (store s) \<and>
    (\<exists>cl'. heap s' c = Some cl' \<and>
       (if roomy cl
        then send cl' = send cl @ [\<lparr>kind = TextMessage, data = Control ((zeroMessage ''error'')
               \<lparr>msg_Code := ''key_mismatch'',
                msg_Message := ''announced static key does not match the key locked on first connection''\<rparr>),
               closeAfter = True\<rparr>]
        else closed cl' \<and> send cl' = send cl))"
proof -
  obtain r where r: "row_of (store s) me = Some r" "row_static_key r = Some k" "k \<noteq> ''''"
    using assms(3) by (auto simp: locked_key_def split: option.splits if_splits bind_splits)
  have set: "SetStaticKeyIfUnset me (msg_StaticKey msg) (store s) = (Inl ErrStaticKeyMismatch, store s)"
    using assms r
    by (simp add: SetStaticKeyIfUnset_def transaction_def db_call_ok db_bind_def QueryRow_no_faults
        row_of_def [symmetric] db_fail_def)
  show ?thesis
    using assms by (auto simp: handleAnnounceKey_def withStore_def set sendErrorAndClose_def Let_def enqueueTo_eq
        heap_onClient enqueue_def roomy_def)
qed

theorem key_mismatch_closes_witness:
  "devices (store (handleAnnounceKey 0 ''a'' ((zeroMessage ''announce_key'')\<lparr>msg_StaticKey := ''KX''\<rparr>)
      sample_control_relay)) = devices (store sample_control_relay)"
proof -
  have "faults (store sample_control_relay) = []" "locked_key (store sample_control_relay) ''a'' = Some ''KA''"
    by code_simp+
  moreover have "heap sample_control_relay 0 = Some (NewClient ''a'' '''' 65536 30 60)"
    by (simp add: sample_control_relay_def)
  ultimately show ?thesis
    using key_mismatch_closes [of sample_control_relay 0 "NewClient ''a'' '''' 65536 30 60" "''a''" "''KA''"
        "(zeroMessage ''announce_key'')\<lparr>msg_StaticKey := ''KX''\<rparr>"]
    by (simp add: Let_def)
qed

end
