(* ===== verification/Server_Config.thy ===== *)
theory Server_Config
  imports Pairing_Tokens
begin

text \<open>
  The server's configuration (\<^verbatim>\<open>internal/config/config.go\<close>): the structures, the listen
  addresses, the defaults and the validation. Loading is the subject of \<open>Config_Load\<close>.
\<close>

section \<open>Definitions\<close>

record TLSConfig =
  TLS_Enabled :: bool
  TLS_Cert :: string
  TLS_Key :: string

record DBConfig =
  DB_Path :: string

record AdminCfg =
  Admin_Enabled :: bool
  Admin_Host :: string
  Admin_Port :: int

record LogCfg =
  Log_Level :: string
  Log_Format :: string

record WSCfg =
  MaxMessageBytes :: int
  PingInterval :: duration
  Deadline :: duration

record Config =
  Host :: string
  Port :: int
  TLS :: TLSConfig
  DB :: DBConfig
  Admin :: AdminCfg
  Log :: LogCfg
  WebSocket :: WSCfg

definition showInt :: "int \<Rightarrow> string" where
  "showInt n = (if n < 0 then CHR ''-'' # decimal (nat (- n)) else decimal (nat n))"

definition Addr :: "Config \<Rightarrow> string" where
  "Addr c = Host c @ '':'' @ showInt (Port c)"

definition AdminAddr :: "Config \<Rightarrow> string" where
  "AdminAddr c = Admin_Host (Admin c) @ '':'' @ showInt (Admin_Port (Admin c))"

definition setDefaults :: Config where
  "setDefaults =
     \<lparr>Host = ''0.0.0.0'', Port = 8080,
      TLS = \<lparr>TLS_Enabled = False, TLS_Cert = '''', TLS_Key = ''''\<rparr>,
      DB = \<lparr>DB_Path = ''./data/relayly.db''\<rparr>,
      Admin = \<lparr>Admin_Enabled = True, Admin_Host = ''127.0.0.1'', Admin_Port = 8081\<rparr>,
      Log = \<lparr>Log_Level = ''info'', Log_Format = ''json''\<rparr>,
      WebSocket = \<lparr>MaxMessageBytes = 65536, PingInterval = 30 * Second, Deadline = 60 * Second\<rparr>\<rparr>"

datatype config_error = InvalidPort int | TLSIncomplete | EmptyDBPath | ReadingConfig | ParsingConfig | BindingFlags

definition validate :: "Config \<Rightarrow> config_error option" where
  "validate cfg =
     (if Port cfg < 1 \<or> Port cfg > 65535 then Some (InvalidPort (Port cfg))
      else if TLS_Enabled (TLS cfg) \<and> (TLS_Cert (TLS cfg) = '''' \<or> TLS_Key (TLS cfg) = '''') then Some TLSIncomplete
      else if DB_Path (DB cfg) = '''' then Some EmptyDBPath
      else None)"

text \<open>
  The result of reading the configuration file: it was read, it does not exist (not fatal),
  or reading failed.
\<close>

datatype read_result = ConfigRead | ConfigFileNotFound | ConfigReadError

section \<open>Lemmas\<close>

lemma validate_defaults: "validate setDefaults = None"
  by (simp add: validate_def setDefaults_def)

lemma validate_None_iff:
  "validate cfg = None \<longleftrightarrow> 1 \<le> Port cfg \<and> Port cfg \<le> 65535 \<and>
    (TLS_Enabled (TLS cfg) \<longrightarrow> TLS_Cert (TLS cfg) \<noteq> '''' \<and> TLS_Key (TLS cfg) \<noteq> '''') \<and> DB_Path (DB cfg) \<noteq> ''''"
  by (auto simp: validate_def)

end
