(* ===== verification/Relay_System.thy ===== *)
theory Relay_System
  imports Relay_Control Server_Config
begin

text \<open>
  The running relay: the HTTP handler that authenticates and upgrades a connection
  (\<^verbatim>\<open>internal/relay/handler.go\<close>), the read and write pumps (\<^verbatim>\<open>internal/relay/client.go\<close>), the hub's
  loop, and the operations other front ends perform on the shared database, interleaved in
  any order. \<open>perform\<close> executes one event (\<open>None\<close>: the event is not possible in this
  state) and \<open>relay_step\<close> is the step relation it induces. The granularity is one handler
  per step, except that the HTTP handler is cut where other goroutines can observe the
  difference: after the client was handed to the hub and before the welcome is sent.
\<close>

section \<open>Connecting\<close>

definition authenticate :: "time \<Rightarrow> device_id \<Rightarrow> string \<Rightarrow> relay \<Rightarrow> (nat + Device) \<times> relay" where
  "authenticate now deviceID token s =
     (if deviceID = '''' \<or> token = '''' then (Inl 400, s)
      else case withStore (GetDeviceByID deviceID) s of
        (Inl _, s1) \<Rightarrow> (Inl 401, s1)
      | (Inr device, s1) \<Rightarrow>
          (if DeviceToken device \<noteq> token then (Inl 401, s1)
           else case ExpiresAt device of
             Some e \<Rightarrow> if e < now then (Inl 401, s1) else (Inr device, s1)
           | None \<Rightarrow> (Inr device, s1)))"

text \<open>
  What the HTTP handler did: it answered with an error status, the upgrader failed (and
  wrote its own reply), or the client was handed to the hub.
\<close>

datatype handlerResult = HttpError nat | UpgradeFailed | Registered

text \<open>
  \<^verbatim>\<open>Handler\<close> up to and including \<^verbatim>\<open>hub.Register <- client\<close>. \<open>upgraded\<close> is the outcome of
  the WebSocket upgrade, \<open>c\<close> the address of the new object.
\<close>

definition Handler :: "WSCfg \<Rightarrow> time \<Rightarrow> device_id \<Rightarrow> string \<Rightarrow> bool \<Rightarrow> cid \<Rightarrow> relay \<Rightarrow> handlerResult \<times> relay" where
  "Handler cfg now deviceID token upgraded c s =
     (case authenticate now deviceID token s of
        (Inl status, s1) \<Rightarrow> (HttpError status, s1)
      | (Inr device, s1) \<Rightarrow>
          (let paired = (case PairedWith device of None \<Rightarrow> '''' | Some p \<Rightarrow> p)
           in if \<not> upgraded then (UpgradeFailed, s1)
              else (Registered, s1\<lparr>
                heap := (heap s1)(c \<mapsto> NewClient deviceID paired (MaxMessageBytes cfg) (PingInterval cfg) (Deadline cfg)),
                threads := (threads s1)(c \<mapsto> AtWelcome device),
                registerQ := registerQ s1 @ [c]\<rparr>)))"

record statusResponse =
  Status :: string
  Version :: string
  UptimeSeconds :: int
  ConnectedDevicesCount :: nat

text \<open>\<^verbatim>\<open>int64(d.Seconds())\<close>: the conversion truncates towards zero.\<close>

definition wholeSeconds :: "duration \<Rightarrow> int" where
  "wholeSeconds d = (if d < 0 then - ((- d) div Second) else d div Second)"

definition StatusHandler :: "string \<Rightarrow> time \<Rightarrow> relay \<Rightarrow> statusResponse" where
  "StatusHandler version now s =
     \<lparr>Status = ''ok'', Version = version, UptimeSeconds = wholeSeconds (Uptime now s),
      ConnectedDevicesCount = ConnectedCount s\<rparr>"

section \<open>Pumps\<close>

text \<open>\<^verbatim>\<open>Pump\<close>'s deferred function, after \<^verbatim>\<open>readPump\<close> returned.\<close>

definition pumpExit :: "cid \<Rightarrow> relay \<Rightarrow> relay" where
  "pumpExit c s =
     onClient c close (s\<lparr>unregisterQ := unregisterQ s @ [c], threads := (threads s)(c \<mapsto> Finished)\<rparr>)"

datatype inbound = InText bytes | InBinary bytes | InError

definition oversize :: "client \<Rightarrow> bytes \<Rightarrow> bool" where
  "oversize cl p \<longleftrightarrow> maxMessageBytes cl > 0 \<and> int (length p) > maxMessageBytes cl"

text \<open>One round of \<^verbatim>\<open>readPump\<close>'s loop. A frame above the read limit makes the read fail.\<close>

definition readPump ::
  "(bytes \<Rightarrow> controlMessage option) \<Rightarrow> bytes option \<Rightarrow> bool \<Rightarrow> time \<Rightarrow> cid \<Rightarrow> client \<Rightarrow> inbound \<Rightarrow> relay \<Rightarrow> relay" where
  "readPump unmarshal rnd swap now c cl msg s =
     (case msg of
        InError \<Rightarrow> pumpExit c s
      | InText raw \<Rightarrow> if oversize cl raw then pumpExit c s else handleControl unmarshal rnd swap now c raw s
      | InBinary payload \<Rightarrow>
          (if oversize cl payload then pumpExit c s
           else let (peerID, ok) = Peer cl in if \<not> ok then s else Route payload peerID s))"

section \<open>Events\<close>

datatype event =
    Connect time device_id string bool cid
  | Welcome cid
  | Touch time device_id
  | Read cid "bytes option" bool time inbound
  | Hub bool
  | Write cid bool
  | Ping cid bool
  | Create Device
  | Link bool device_id device_id
  | Delete device_id

fun perform :: "(bytes \<Rightarrow> controlMessage option) \<Rightarrow> WSCfg \<Rightarrow> event \<Rightarrow> relay \<Rightarrow> relay option" where
  "perform unmarshal cfg (Connect now i token upgraded c) s =
     (if heap s c \<noteq> None then None else Some (snd (Handler cfg now i token upgraded c s)))"
| "perform unmarshal cfg (Welcome c) s =
     (case (threads s c, heap s c) of
        (Some (AtWelcome device), Some cl) \<Rightarrow>
          Some (let s1 = sendWelcome c (DeviceID cl) device s in s1\<lparr>threads := (threads s1)(c \<mapsto> Pumping)\<rparr>)
      | _ \<Rightarrow> None)"
| "perform unmarshal cfg (Touch now i) s = Some (snd (withStore (TouchLastSeen now i) s))"
| "perform unmarshal cfg (Read c rnd swap now msg) s =
     (case (threads s c, heap s c) of
        (Some Pumping, Some cl) \<Rightarrow>
          (if \<not> connOpen cl \<and> msg \<noteq> InError then None
           else Some (readPump unmarshal rnd swap now c cl msg s))
      | _ \<Rightarrow> None)"
| "perform unmarshal cfg (Hub fromRegister) s = Run fromRegister s"
| "perform unmarshal cfg (Write c ok) s =
     (if threads s c = Some Pumping \<or> threads s c = Some Finished then Some (onClient c (writeStep ok) s) else None)"
| "perform unmarshal cfg (Ping c ok) s =
     (if threads s c = Some Pumping \<or> threads s c = Some Finished then Some (onClient c (pingStep ok) s) else None)"
| "perform unmarshal cfg (Create dv) s = Some (snd (withStore (CreateDevice dv) s))"
| "perform unmarshal cfg (Link swap a b) s = Some (snd (withStore (PairDevices swap a b) s))"
| "perform unmarshal cfg (Delete i) s = Some (snd (withStore (DeleteDevice i) s))"

inductive relay_step :: "(bytes \<Rightarrow> controlMessage option) \<Rightarrow> WSCfg \<Rightarrow> relay \<Rightarrow> relay \<Rightarrow> bool"
  for unmarshal :: "bytes \<Rightarrow> controlMessage option" and cfg :: WSCfg where
  step_event: "perform unmarshal cfg e s = Some t \<Longrightarrow> relay_step unmarshal cfg s t"

inductive_cases relay_stepE [elim]: "relay_step unmarshal cfg s t"

fun performs :: "(bytes \<Rightarrow> controlMessage option) \<Rightarrow> WSCfg \<Rightarrow> event list \<Rightarrow> relay \<Rightarrow> relay option" where
  "performs unmarshal cfg [] s = Some s"
| "performs unmarshal cfg (e # es) s =
     (case perform unmarshal cfg e s of None \<Rightarrow> None | Some t \<Rightarrow> performs unmarshal cfg es t)"

definition initial :: "relay \<Rightarrow> bool" where
  "initial s \<longleftrightarrow> (\<exists>now fs. s = NewHub now (empty_db fs))"

section \<open>The store behind the events\<close>

text \<open>The device whose connection an event reads from.\<close>

fun reader :: "event \<Rightarrow> relay \<Rightarrow> device_id option" where
  "reader (Read c rnd swap now msg) s = map_option DeviceID (heap s c)"
| "reader e s = None"

text \<open>
  Which store operations an event may perform: rows are deleted by \<open>Delete\<close> only, and only
  a device's own connection unpairs it or announces its key.
\<close>

definition event_op :: "event \<Rightarrow> relay \<Rightarrow> store_op \<Rightarrow> bool" where
  "event_op e s op =
     (case op of
        OpDelete i \<Rightarrow> e = Delete i
      | OpUnpair i \<Rightarrow> reader e s = Some i
      | OpSetKey i k \<Rightarrow> reader e s = Some i
      | _ \<Rightarrow> True)"

definition store_moves :: "(store_op \<Rightarrow> bool) \<Rightarrow> db \<Rightarrow> db \<Rightarrow> bool" where
  "store_moves P d d' \<longleftrightarrow> devices d' = devices d \<or> (\<exists>op. P op \<and> devices d' = devices (snd (store_apply op d)))"

lemma store_moves_refl [simp]: "store_moves P d d"
  by (simp add: store_moves_def)

lemma store_moves_op: "P op \<Longrightarrow> devices d' = devices (snd (store_apply op d)) \<Longrightarrow> store_moves P d d'"
  by (auto simp: store_moves_def)

lemma store_sendErrorAndClose [simp]: "store (sendErrorAndClose c k m s) = store s"
  by (simp add: sendErrorAndClose_def Let_def enqueueTo_eq case_prod_beta)

lemma store_hub [simp]:
  "store (notifyPeerStatus t a b s) = store s" "store (Route p i s) = store s"
  "store (runRegister c s) = store s" "store (runUnregister c s) = store s"
  by (auto simp: notifyPeerStatus_def Route_def runRegister_def runUnregister_def Let_def enqueueTo_eq
      case_prod_beta split: option.split)

lemma store_Run: "Run b s = Some t \<Longrightarrow> store t = store s"
  by (auto simp: Run_def split: if_splits list.splits)

lemma store_handleAnnounceKey:
  "P (OpSetKey me (msg_StaticKey msg)) \<Longrightarrow> store_moves P (store s) (store (handleAnnounceKey c me msg s))"
  by (auto simp: handleAnnounceKey_def withStore_def split: sum.split
      intro!: store_moves_op [of P "OpSetKey me (msg_StaticKey msg)"])

lemma store_handlePairRequest: "store (handlePairRequest rnd now c me s) = store s"
  by (simp add: handlePairRequest_def Let_def split: option.split)

lemma store_handlePairAccept:
  assumes "\<And>r. P (OpPair swap r me)"
  shows "store_moves P (store s) (store (handlePairAccept swap now c me msg s))"
proof -
  let ?op = "OpPair swap (fst (fst (Take now (msg_Code msg) (pairCodes s)))) me"
  show ?thesis
    using assms
    by (auto simp: handlePairAccept_def withStore_def Let_def case_prod_beta split: sum.split option.split
        intro!: store_moves_op [of P ?op])
qed

lemma store_handleUnpair: "P (OpUnpair (DeviceID cl)) \<Longrightarrow> store_moves P (store s) (store (handleUnpair c cl s))"
  by (auto simp: handleUnpair_def withStore_def Let_def case_prod_beta split: sum.split option.split
      intro!: store_moves_op [of P "OpUnpair (DeviceID cl)"])

lemmas store_handlers = store_handleAnnounceKey store_handlePairRequest store_handlePairAccept store_handleUnpair

lemma store_readPump:
  assumes "heap s c = Some cl" and "e = Read c rnd swap now msg"
  shows "store_moves (event_op e s) (store s) (store (readPump unmarshal rnd swap now c cl msg s))"
  using assms
  by (auto simp: readPump_def pumpExit_def handleControl_def Peer_def event_op_def store_handlers
      split: inbound.split option.split)

lemma store_sendWelcome: "devices (store (sendWelcome c me dv s)) = devices (store s)"
  by (simp add: sendWelcome_def Let_def case_prod_beta split: option.split)

lemma authenticate_store: "\<exists>d. snd (authenticate now i tok s) = s\<lparr>store := d\<rparr> \<and> devices d = devices (store s)"
proof -
  have "snd (authenticate now i tok s) = s \<or>
      snd (authenticate now i tok s) = s\<lparr>store := snd (GetDeviceByID i (store s))\<rparr>"
    by (simp add: authenticate_def withStore_def split: sum.split option.split)
  then show ?thesis
    using devices_GetDeviceByID [of i "store s"] by (metis relay.surjective relay.update_convs(8))
qed

lemma store_Handler: "devices (store (snd (Handler cfg now i tok up c s))) = devices (store s)"
proof -
  obtain d where "snd (authenticate now i tok s) = s\<lparr>store := d\<rparr>" "devices d = devices (store s)"
    using authenticate_store by blast
  then show ?thesis
    by (auto simp: Handler_def Let_def split: prod.split sum.split)
qed

lemma perform_store:
  assumes "perform unmarshal cfg e s = Some t"
  shows "store_moves (event_op e s) (store s) (store t)"
proof (cases e)
  case (Read c rnd swap now msg)
  then show ?thesis
    using assms store_readPump [of s c _ e rnd swap now msg unmarshal]
    by (auto split: option.splits thread.splits if_splits)
next
  case (Connect now i tok up c)
  then show ?thesis
    using assms store_Handler by (auto simp: store_moves_def split: if_splits)
next
  case (Welcome c)
  then show ?thesis
    using assms by (auto simp: store_moves_def Let_def store_sendWelcome split: option.splits thread.splits)
next
  case (Create dv)
  then show ?thesis
    using assms by (auto simp: withStore_def event_op_def intro: store_moves_op [of _ "OpCreate dv"])
next
  case (Link swap a b)
  then show ?thesis
    using assms by (auto simp: withStore_def event_op_def intro: store_moves_op [of _ "OpPair swap a b"])
next
  case (Delete i)
  then show ?thesis
    using assms by (auto simp: withStore_def event_op_def intro: store_moves_op [of _ "OpDelete i"])
next
  case (Touch now i)
  then show ?thesis
    using assms by (auto simp: withStore_def event_op_def intro: store_moves_op [of _ "OpTouch now i"])
qed (use assms in \<open>auto simp: store_Run split: if_splits\<close>)

section \<open>The invariant\<close>

lemma hub_frameD: "hub_frame s s' \<Longrightarrow> hub_inv s \<Longrightarrow> hub_inv s'"
  by (simp add: hub_frame_def)

lemma hub_inv_store: "hub_inv s \<Longrightarrow> hub_inv (s\<lparr>store := d\<rparr>)"
  by (rule hub_inv_cong) simp_all

lemma client_ok_NewClient: "client_ok (NewClient i p mb pg dl)"
  by (simp add: client_ok_def NewClient_def)

lemma hub_inv_allocate:
  assumes "hub_inv s" and "heap s c = None"
  shows "hub_inv (s\<lparr>heap := (heap s)(c \<mapsto> NewClient i p mb pg dl), threads := (threads s)(c \<mapsto> AtWelcome dv),
    registerQ := registerQ s @ [c]\<rparr>)"
proof -
  have fresh: "c \<notin> set (unregisterQ s)" "clients s j \<noteq> Some c" for j
    using assms hub_invD(1) [OF assms(1), of j c] hub_invD(2) [OF assms(1)] by auto
  show ?thesis
    using assms(1) fresh by (auto simp: hub_inv_def live_def client_ok_NewClient)
qed

lemma hub_inv_Handler:
  assumes "hub_inv s" and "heap s c = None"
  shows "hub_inv (snd (Handler cfg now i tok up c s))"
proof -
  obtain d where auth: "snd (authenticate now i tok s) = s\<lparr>store := d\<rparr>"
    using authenticate_store by blast
  have "hub_inv (s\<lparr>store := d\<rparr>)" "heap (s\<lparr>store := d\<rparr>) c = None"
    using assms by (simp_all add: hub_inv_store)
  from this(1) hub_inv_allocate [OF this] auth show ?thesis
    by (auto simp: Handler_def Let_def split: prod.split sum.split)
qed

lemma hub_inv_finish:
  assumes "hub_inv s" and "heap s c = Some cl"
  shows "hub_inv (s\<lparr>unregisterQ := unregisterQ s @ [c], threads := (threads s)(c \<mapsto> Finished)\<rparr>)"
  using assms by (auto simp: hub_inv_def live_def)

lemma hub_inv_pumpExit: "hub_inv s \<Longrightarrow> heap s c = Some cl \<Longrightarrow> hub_inv (pumpExit c s)"
  by (simp add: pumpExit_def hub_inv_onClient hub_inv_finish benign_intros)

lemma hub_inv_readPump:
  assumes "hub_inv s" and "heap s c = Some cl"
  shows "hub_inv (readPump unmarshal rnd swap now c cl msg s)"
  using assms hub_frameD [OF hub_frame_handleControl [OF hub_frame_refl]]
  by (auto simp: readPump_def hub_inv_pumpExit hub_inv_Route Peer_def split: inbound.split)

lemma hub_inv_pumping:
  assumes "hub_inv s" and "threads s c = Some (AtWelcome dv)"
  shows "hub_inv (s\<lparr>threads := (threads s)(c \<mapsto> Pumping)\<rparr>)"
proof -
  have "live (s\<lparr>threads := (threads s)(c \<mapsto> Pumping)\<rparr>) = live s"
    using assms(2) by (auto simp: live_def fun_eq_iff)
  with assms(1) show ?thesis by (simp add: hub_inv_def)
qed

lemma hub_inv_Welcome:
  assumes "hub_inv s" and "threads s c = Some (AtWelcome dv)"
  shows "hub_inv ((sendWelcome c me dv s)\<lparr>threads := (threads (sendWelcome c me dv s))(c \<mapsto> Pumping)\<rparr>)"
proof (rule hub_inv_pumping)
  have fr: "hub_frame s (sendWelcome c me dv s)"
    by (rule hub_frame_sendWelcome) simp
  show "hub_inv (sendWelcome c me dv s)"
    using hub_frameD [OF fr assms(1)] .
  show "threads (sendWelcome c me dv s) c = Some (AtWelcome dv)"
    using fr assms(2) by (simp add: hub_frame_def same_hub_def)
qed

lemma hub_inv_perform:
  assumes "hub_inv s" and "perform unmarshal cfg e s = Some t"
  shows "hub_inv t"
proof (cases e)
  case (Connect now i tok up c)
  then show ?thesis using assms by (auto simp: hub_inv_Handler split: if_splits)
next
  case (Welcome c)
  then show ?thesis
    using assms by (auto simp: Let_def hub_inv_Welcome split: option.splits thread.splits)
next
  case (Read c rnd swap now msg)
  then show ?thesis
    using assms by (auto simp: hub_inv_readPump split: option.splits thread.splits if_splits)
next
  case (Hub b)
  then show ?thesis using assms hub_inv_Run by auto
next
  case (Write c ok)
  then show ?thesis using assms by (auto simp: hub_inv_onClient benign_intros split: if_splits)
next
  case (Ping c ok)
  then show ?thesis using assms by (auto simp: hub_inv_onClient benign_intros split: if_splits)
qed (use assms in \<open>auto simp: withStore_def hub_inv_store\<close>)

definition relay_inv :: "relay \<Rightarrow> bool" where
  "relay_inv s \<longleftrightarrow> hub_inv s \<and> db_wf (store s)"

lemma db_wf_moves: "store_moves P d d' \<Longrightarrow> db_wf d \<Longrightarrow> db_wf d'"
  using views_cong(5) db_wf_store_apply by (metis store_moves_def)

lemma relay_inv_initial: "initial s \<Longrightarrow> relay_inv s"
  by (auto simp: initial_def relay_inv_def hub_inv_def NewHub_def empty_db_def db_wf_def)

lemma relay_inv_perform: "relay_inv s \<Longrightarrow> perform unmarshal cfg e s = Some t \<Longrightarrow> relay_inv t"
  using hub_inv_perform db_wf_moves [OF perform_store] by (auto simp: relay_inv_def)

interpretation relay_sys: inductive_invariant initial "relay_step unmarshal cfg" relay_inv
  for unmarshal :: "bytes \<Rightarrow> controlMessage option" and cfg :: WSCfg
  by unfold_locales (auto intro: relay_inv_initial relay_inv_perform)

lemma performs_reach:
  assumes "performs unmarshal cfg es s = Some t" and "reach initial (relay_step unmarshal cfg) s"
  shows "reach initial (relay_step unmarshal cfg) t"
  using assms
proof (induction es arbitrary: s)
  case (Cons e es)
  then obtain u where "perform unmarshal cfg e s = Some u" and rest: "performs unmarshal cfg es u = Some t"
    by (auto split: option.splits)
  then have "reach initial (relay_step unmarshal cfg) u"
    using Cons.prems(2) by (blast intro: reach_step step_event)
  with Cons.IH rest show ?case by blast
qed simp

lemma locked_key_moves:
  assumes "store_moves (event_op e s) d d'" and "locked_key d i = Some k" and "e \<noteq> Delete i"
  shows "locked_key d' i = Some k"
  using assms(1) unfolding store_moves_def
proof
  assume "devices d' = devices d"
  then show ?thesis using views_cong(4) [of d' d] assms(2) by simp
next
  assume "\<exists>op. event_op e s op \<and> devices d' = devices (snd (store_apply op d))"
  then obtain op where op: "event_op e s op" and d': "devices d' = devices (snd (store_apply op d))"
    by blast
  have "op \<noteq> OpDelete i" using op assms(3) by (auto simp: event_op_def)
  then show ?thesis
    using locked_key_store_apply [OF assms(2), of op] views_cong(4) [OF d'] by simp
qed

lemma link_moves:
  assumes "store_moves (event_op e s) d d'" and "peer_of d a = Some b"
    and "e \<noteq> Delete a" "e \<noteq> Delete b" and "reader e s \<noteq> Some a" "reader e s \<noteq> Some b"
  shows "peer_of d' a = Some b"
  using assms(1) unfolding store_moves_def
proof
  assume "devices d' = devices d"
  then show ?thesis using views_cong(2) [of d' d] assms(2) by simp
next
  assume "\<exists>op. event_op e s op \<and> devices d' = devices (snd (store_apply op d))"
  then obtain op where op: "event_op e s op" and d': "devices d' = devices (snd (store_apply op d))"
    by blast
  have "OpUnpair i \<notin> set [op] \<and> OpDelete i \<notin> set [op]" if "i \<in> {a, b}" for i
    using op that assms(3-6) by (auto simp: event_op_def)
  then show ?thesis
    using link_store_run [OF assms(2), of "[op]"] views_cong(2) [OF d'] by simp
qed

section \<open>Properties\<close>

definition sample_cfg :: WSCfg where
  "sample_cfg = WebSocket setDefaults"

text \<open>Two registered devices, the first connected and served by the hub.\<close>

definition sample_events :: "event list" where
  "sample_events = [Create (sample_device ''a''), Create (sample_device ''b''), Connect 1 ''a'' ''ta'' True 0,
     Hub True, Welcome 0]"

definition sample_start :: relay where
  "sample_start = NewHub 0 (empty_db [])"

text \<open>
  C1: in every reachable state of the relay, under any interleaving of connections,
  frames, disconnects, driver failures and administration, the hub's map only holds
  connections of the device they are filed under, every connection that is neither closed
  nor finished is filed or waits for the hub (so none is lost), no live connection waits for
  removal, every send queue is within its capacity and carries well-formed frames, and the
  table satisfies its key constraints.
\<close>

theorem relay_reachable_inv:
  assumes "reach initial (relay_step unmarshal cfg) s"
  shows "hub_inv s \<and> db_wf (store s)"
  using relay_sys.reach_inv [OF assms] by (simp add: relay_inv_def)

theorem relay_reachable_inv_witness:
  "\<exists>t. performs (\<lambda>_. None) sample_cfg sample_events sample_start = Some t \<and> clients t ''a'' = Some 0 \<and> hub_inv t"
proof -
  have run: "case performs (\<lambda>_. None) sample_cfg sample_events sample_start of
      None \<Rightarrow> False | Some t \<Rightarrow> clients t ''a'' = Some 0"
    by code_simp
  then obtain t where t: "performs (\<lambda>_. None) sample_cfg sample_events sample_start = Some t"
    and a: "clients t ''a'' = Some 0"
    by (auto split: option.splits)
  have "reach initial (relay_step (\<lambda>_. None) sample_cfg) sample_start"
    by (rule reach_init) (auto simp: initial_def sample_start_def)
  then have "hub_inv t"
    using relay_reachable_inv [OF performs_reach [OF t]] by simp
  with t a show ?thesis by blast
qed

text \<open>
  C6: only an authenticated device gets a connection. A request that ends up as a
  client of the relay named a device of the store, presented exactly that device's token,
  and the token had not expired; the client acts for that device and routes to the peer the
  store had for it.
\<close>

theorem connect_authenticated:
  assumes "perform unmarshal cfg (Connect now i token upgraded c) s = Some t" and "heap t c = Some cl"
  shows "\<exists>r. row_of (store s) i = Some r \<and> row_device_token r = token \<and> token \<noteq> '''' \<and>
    (case row_expires_at r of None \<Rightarrow> True | Some x \<Rightarrow> now \<le> x) \<and>
    DeviceID cl = i \<and> pairedWith cl = (case peer_of (store s) i of None \<Rightarrow> '''' | Some p \<Rightarrow> p)"
proof -
  have fresh: "heap s c = None" and t: "t = snd (Handler cfg now i token upgraded c s)"
    using assms(1) by (auto split: if_splits)
  obtain dv s1 where auth: "authenticate now i token s = (Inr dv, s1)"
    and cl: "cl = NewClient i (case PairedWith dv of None \<Rightarrow> '''' | Some p \<Rightarrow> p)
      (MaxMessageBytes cfg) (PingInterval cfg) (Deadline cfg)"
    using assms(2) fresh t authenticate_store [of now i token s]
    by (auto simp: Handler_def Let_def split: prod.splits sum.splits if_splits)
  obtain d where get: "GetDeviceByID i (store s) = (Inr dv, d)"
    and ok: "DeviceToken dv = token" "token \<noteq> ''''" "case ExpiresAt dv of None \<Rightarrow> True | Some x \<Rightarrow> now \<le> x"
    using auth by (auto simp: authenticate_def withStore_def prod_eq_iff not_less
        split: if_splits sum.splits option.splits)
  obtain r where "row_of (store s) i = Some r" and "dv = scanDevice r"
    using get by (auto simp: GetDeviceByID_def db_bind_Inr_iff db_return_def row_of_def dest!: QueryRow_okD)
  with ok cl show ?thesis
    by (auto simp: scanDevice_def NewClient_def peer_of_def)
qed

theorem connect_authenticated_witness:
  "\<exists>r. row_of (store_run [OpCreate (sample_device ''a'')] (empty_db [])) ''a'' = Some r \<and>
     row_device_token r = ''ta''"
proof -
  let ?s = "NewHub 0 (store_run [OpCreate (sample_device ''a'')] (empty_db []))"
  have "case perform (\<lambda>_. None) sample_cfg (Connect 1 ''a'' ''ta'' True 0) ?s of
      None \<Rightarrow> False | Some t \<Rightarrow> heap t 0 \<noteq> None"
    by code_simp
  then obtain t cl where "perform (\<lambda>_. None) sample_cfg (Connect 1 ''a'' ''ta'' True 0) ?s = Some t"
    and "heap t 0 = Some cl"
    by (auto split: option.splits)
  from connect_authenticated [OF this] show ?thesis
    by (auto simp: NewHub_def)
qed

text \<open>
  C19: over any run of the relay, the key locked for a device stays the same as long as
  the device is not deleted, whoever connects and whatever they send.
\<close>

theorem locked_key_forever:
  assumes "performs unmarshal cfg es s = Some t" and "locked_key (store s) i = Some k" and "Delete i \<notin> set es"
  shows "locked_key (store t) i = Some k"
  using assms
proof (induction es arbitrary: s)
  case (Cons e es)
  then obtain u where u: "perform unmarshal cfg e s = Some u" and rest: "performs unmarshal cfg es u = Some t"
    by (auto split: option.splits)
  have "locked_key (store u) i = Some k"
    using locked_key_moves [OF perform_store [OF u] Cons.prems(2)] Cons.prems(3) by auto
  with Cons.IH [OF rest] Cons.prems(3) show ?case by simp
qed simp

text \<open>The decoder of the sample runs.\<close>

definition sample_unmarshal :: "bytes \<Rightarrow> controlMessage option" where
  "sample_unmarshal raw =
     (if raw = [1] then Some ((zeroMessage ''announce_key'')\<lparr>msg_StaticKey := ''K1''\<rparr>)
      else if raw = [2] then Some ((zeroMessage ''announce_key'')\<lparr>msg_StaticKey := ''K2''\<rparr>)
      else if raw = [3] then Some (zeroMessage ''unpair'')
      else None)"

theorem locked_key_forever_witness:
  "\<exists>s t. performs sample_unmarshal sample_cfg (sample_events @ [Read 0 None False 2 (InText [1])]) sample_start = Some s \<and>
     performs sample_unmarshal sample_cfg [Read 0 None False 3 (InText [2]), Link False ''a'' ''b''] s = Some t \<and>
     locked_key (store t) ''a'' = Some ''K1''"
proof -
  let ?p = "performs sample_unmarshal sample_cfg"
  let ?tail = "[Read 0 None False 3 (InText [2]), Link False ''a'' ''b'']"
  have "case ?p (sample_events @ [Read 0 None False 2 (InText [1])]) sample_start of None \<Rightarrow> False
      | Some s \<Rightarrow> locked_key (store s) ''a'' = Some ''K1'' \<and> ?p ?tail s \<noteq> None"
    by code_simp
  then obtain s t where s: "?p (sample_events @ [Read 0 None False 2 (InText [1])]) sample_start = Some s"
    and k: "locked_key (store s) ''a'' = Some ''K1''" and t: "?p ?tail s = Some t"
    by (auto simp del: performs.simps split: option.splits)
  from locked_key_forever [OF t k] s t show ?thesis by auto
qed

text \<open>
  No third party ends a link. Whatever event happens, two devices linked in the store
  stay linked unless the event is a frame from one of their own connections or the deletion
  of one of them.
\<close>

theorem link_survives_others:
  assumes "perform unmarshal cfg e s = Some t" and "peer_of (store s) a = Some b"
    and "e \<noteq> Delete a" and "e \<noteq> Delete b" and "reader e s \<noteq> Some a" and "reader e s \<noteq> Some b"
  shows "peer_of (store t) a = Some b"
  using link_moves [OF perform_store [OF assms(1)] assms(2-6)] .

theorem link_survives_others_witness:
  "\<exists>t. perform (\<lambda>_. None) sample_cfg (Link True ''c'' ''a'') (NewHub 0 sample_pair_db) = Some t \<and>
     peer_of (store t) ''a'' = Some ''b''"
proof -
  let ?s = "NewHub 0 sample_pair_db"
  have "peer_of (store ?s) ''a'' = Some ''b''" by code_simp
  moreover obtain t where t: "perform (\<lambda>_. None) sample_cfg (Link True ''c'' ''a'') ?s = Some t"
    by simp
  ultimately show ?thesis
    using link_survives_others [OF t, of "''a''" "''b''"] by (auto simp del: perform.simps)
qed



text \<open>
  A connection that ends before the hub has registered it can be registered after its
  removal was processed. The hub's select is free to serve the removal first, which then does
  nothing; the dead connection is filed afterwards, with no removal left in the channel, so the
  device counts as online although its connection is closed.
\<close>

theorem dead_connection_registered:
  "\<exists>es t. performs (\<lambda>_. None) sample_cfg es sample_start = Some t \<and>
     clients t ''a'' = Some 0 \<and> map_option closed (heap t 0) = Some True \<and> threads t 0 = Some Finished \<and>
     registerQ t = [] \<and> unregisterQ t = []"
proof -
  let ?es = "[Create (sample_device ''a''), Connect 1 ''a'' ''ta'' True 0, Welcome 0,
    Read 0 None False 2 InError, Hub False, Hub True]"
  have "case performs (\<lambda>_. None) sample_cfg ?es sample_start of None \<Rightarrow> False
    | Some t \<Rightarrow> clients t ''a'' = Some 0 \<and> map_option closed (heap t 0) = Some True \<and> threads t 0 = Some Finished \<and>
     registerQ t = [] \<and> unregisterQ t = []"
    by code_simp
  then show ?thesis
    by (auto simp del: performs.simps split: option.splits)
qed

text \<open>
  Unpairing does not always stop the traffic. A device whose connection was
  authenticated, but not yet registered, when its peer unpairs keeps the peer it read from
  the store: both devices are unlinked in the store, and yet a frame it sends afterwards is
  queued for its former peer.
\<close>

theorem unpaired_device_still_routed:
  "\<exists>es t cl. performs sample_unmarshal sample_cfg es sample_start = Some t \<and>
     peer_of (store t) ''a'' = None \<and> peer_of (store t) ''b'' = None \<and>
     clients t ''b'' = Some 1 \<and> heap t 1 = Some cl \<and> Envelope [7] \<in> data ` set (send cl)"
proof -
  let ?es = "[Create (sample_device ''a''), Create (sample_device ''b''), Link False ''a'' ''b'',
    Connect 1 ''b'' ''tb'' True 1, Hub True, Welcome 1,
    Connect 2 ''a'' ''ta'' True 0, Read 1 None False 3 (InText [3]), Hub True, Welcome 0,
    Read 0 None False 4 (InBinary [7])]"
  have "case performs sample_unmarshal sample_cfg ?es sample_start of None \<Rightarrow> False
    | Some t \<Rightarrow> peer_of (store t) ''a'' = None \<and> peer_of (store t) ''b'' = None \<and> clients t ''b'' = Some 1 \<and>
        (case heap t 1 of None \<Rightarrow> False | Some cl \<Rightarrow> Envelope [7] \<in> data ` set (send cl))"
    by code_simp
  then show ?thesis
    by (auto simp del: performs.simps split: option.splits)
qed

end
