(* ===== verification/Directory_Spec.thy ===== *)
theory Directory_Spec
  imports Relay_System
begin

text \<open>
  What the relay promises about its devices, without tables, transactions, connections or
  driver failures: a directory of registered devices, the links between them and the keys
  they announced, with one step per promise. The running relay of \<open>Relay_System\<close> refines
  it, under every interleaving and every script of driver failures.
\<close>

section \<open>The specification\<close>

record directory =
  dir_members :: "device_id set"
  dir_links :: "device_id \<rightharpoonup> device_id"
  dir_keys :: "device_id \<rightharpoonup> string"

definition free_of :: "device_id \<Rightarrow> (device_id \<rightharpoonup> device_id) \<Rightarrow> device_id \<rightharpoonup> device_id" where
  "free_of i p = (\<lambda>j. if p j = Some i then None else p j)"

text \<open>
  The last rule is the one failure that shows: a deletion whose second statement fails has
  already freed the partner (\<^verbatim>\<open>DeleteDevice\<close> does not run in a transaction).
\<close>

inductive dir_step :: "directory \<Rightarrow> directory \<Rightarrow> bool" where
  dir_register: "i \<notin> dir_members D \<Longrightarrow> dir_step D (D\<lparr>dir_members := insert i (dir_members D)\<rparr>)"
| dir_link: "a \<in> dir_members D \<Longrightarrow> b \<in> dir_members D \<Longrightarrow> dir_links D a = None \<Longrightarrow> dir_links D b = None \<Longrightarrow>
    dir_step D (D\<lparr>dir_links := (dir_links D)(b \<mapsto> a, a \<mapsto> b)\<rparr>)"
| dir_unlink: "dir_step D (D\<lparr>dir_links := (free_of i (dir_links D))(i := None)\<rparr>)"
| dir_announce: "i \<in> dir_members D \<Longrightarrow> dir_keys D i = None \<Longrightarrow> k \<noteq> '''' \<Longrightarrow>
    dir_step D (D\<lparr>dir_keys := (dir_keys D)(i \<mapsto> k)\<rparr>)"
| dir_remove: "dir_step D \<lparr>dir_members = dir_members D - {i}, dir_links = (free_of i (dir_links D))(i := None),
    dir_keys = (dir_keys D)(i := None)\<rparr>"
| dir_remove_interrupted: "dir_step D (D\<lparr>dir_links := free_of i (dir_links D)\<rparr>)"

inductive_cases dir_stepE: "dir_step D E"

definition dir_initial :: "directory \<Rightarrow> bool" where
  "dir_initial D \<longleftrightarrow> D = \<lparr>dir_members = {}, dir_links = Map.empty, dir_keys = Map.empty\<rparr>"

text \<open>Links and keys belong to registered devices, and links point to registered devices.\<close>

definition dir_inv :: "directory \<Rightarrow> bool" where
  "dir_inv D \<longleftrightarrow> (\<forall>i j. dir_links D i = Some j \<longrightarrow> i \<in> dir_members D \<and> j \<in> dir_members D) \<and>
     (\<forall>i k. dir_keys D i = Some k \<longrightarrow> i \<in> dir_members D \<and> k \<noteq> '''')"

interpretation dir_sys: inductive_invariant dir_initial dir_step dir_inv
proof unfold_locales
  fix D E :: directory
  assume "dir_inv D" and "dir_step D E"
  then show "dir_inv E"
    by (elim dir_stepE) (auto simp: dir_inv_def free_of_def split: if_splits)
qed (simp add: dir_initial_def dir_inv_def)

section \<open>The abstraction\<close>

definition dir_of :: "db \<Rightarrow> directory" where
  "dir_of d = \<lparr>dir_members = known d, dir_links = peer_of d, dir_keys = locked_key d\<rparr>"

abbreviation dir_moves :: "db \<Rightarrow> db \<Rightarrow> bool" where
  "dir_moves d d' \<equiv> dir_of d' = dir_of d \<or> dir_step (dir_of d) (dir_of d')"

lemma dir_of_cong: "devices d' = devices d \<Longrightarrow> dir_of d' = dir_of d"
  by (simp add: dir_of_def views_cong [of d' d])

lemma dir_CreateDevice: "dir_moves d (snd (CreateDevice dv d))"
proof (cases rule: CreateDevice_cases [of dv d])
  case fail
  then show ?thesis using dir_of_cong by blast
next
  case (ok r)
  have "known (snd (CreateDevice dv d)) = insert (ID dv) (known d)"
    using ok by (simp add: known_def)
  then have "dir_of (snd (CreateDevice dv d)) = (dir_of d)\<lparr>dir_members := insert (ID dv) (dir_members (dir_of d))\<rparr>"
    by (simp add: dir_of_def frame_simps)
  moreover have "ID dv \<notin> dir_members (dir_of d)" using ok by (simp add: dir_of_def)
  ultimately show ?thesis using dir_register by metis
qed

lemma dir_PairDevices: "dir_moves d (snd (PairDevices swap a b d))"
proof (cases "is_ok (fst (PairDevices swap a b d))")
  case True
  note ok = PairDevices_ok [OF True]
  have "known (snd (PairDevices swap a b d)) = known d"
    by (rule map_rows_views(1) [OF ok(1)]) simp
  then have "dir_of (snd (PairDevices swap a b d)) = (dir_of d)\<lparr>dir_links := (dir_links (dir_of d))(b \<mapsto> a, a \<mapsto> b)\<rparr>"
    using True by (simp add: dir_of_def peer_of_PairDevices frame_simps)
  moreover have "dir_step (dir_of d) ((dir_of d)\<lparr>dir_links := (dir_links (dir_of d))(b \<mapsto> a, a \<mapsto> b)\<rparr>)"
    by (rule dir_link) (use ok in \<open>simp_all add: dir_of_def\<close>)
  ultimately show ?thesis by simp
qed (use dir_of_cong [OF PairDevices_fail] in blast)

lemma dir_UnpairDevice: "dir_moves d (snd (UnpairDevice i d))"
proof (cases "is_ok (fst (UnpairDevice i d))")
  case True
  have "known (snd (UnpairDevice i d)) = known d"
    by (rule map_rows_views(1) [of _ "\<lambda>r. if row_id r = i \<or> row_paired_with r = Some i then r\<lparr>row_paired_with := None\<rparr> else r"])
      (simp_all add: devices_UnpairDevice True update_where_def)
  moreover have "peer_of (snd (UnpairDevice i d)) = (free_of i (peer_of d))(i := None)"
    using True by (auto simp: peer_of_UnpairDevice free_of_def fun_eq_iff)
  ultimately have "dir_of (snd (UnpairDevice i d)) = (dir_of d)\<lparr>dir_links := (free_of i (dir_links (dir_of d)))(i := None)\<rparr>"
    by (simp add: dir_of_def frame_simps)
  then show ?thesis by (simp add: dir_unlink)
qed (use dir_of_cong [of "snd (UnpairDevice i d)" d] in \<open>simp add: devices_UnpairDevice\<close>)

lemma dir_SetStaticKeyIfUnset: "dir_moves d (snd (SetStaticKeyIfUnset i k d))"
proof (cases rule: SetStaticKeyIfUnset_cases [of i k d])
  case set
  let ?d' = "snd (SetStaticKeyIfUnset i k d)"
  have known: "known ?d' = known d" by (rule map_rows_views(1) [OF set(4)]) simp
  show ?thesis
  proof (cases "k = ''''")
    case True
    have row: "row_of ?d' j = map_option (keyed i k) (row_of d j)" for j
      by (rule row_of_map [OF set(4)]) simp
    have "locked_key ?d' i = None"
      using True row [of i] by (cases "row_of d i") (simp_all add: locked_key_def row_of_SomeD)
    moreover have "locked_key ?d' j = locked_key d j" if "j \<noteq> i" for j
      using that row [of j] by (cases "row_of d j") (auto simp: locked_key_def dest: row_of_SomeD)
    ultimately have "locked_key ?d' = locked_key d" using set(3) by (metis ext)
    with known show ?thesis by (simp add: dir_of_def frame_simps)
  next
    case False
    have "dir_of ?d' = (dir_of d)\<lparr>dir_keys := (dir_keys (dir_of d))(i \<mapsto> k)\<rparr>"
      using set(2) known locked_key_set [OF set(4) False] by (simp add: dir_of_def frame_simps)
    moreover have "dir_step (dir_of d) ((dir_of d)\<lparr>dir_keys := (dir_keys (dir_of d))(i \<mapsto> k)\<rparr>)"
      by (rule dir_announce) (use set(2,3) False in \<open>simp_all add: dir_of_def\<close>)
    ultimately show ?thesis by simp
  qed
qed (use dir_of_cong in blast)+

lemma dir_DeleteDevice: "dir_moves d (snd (DeleteDevice i d))"
proof (cases rule: DeleteDevice_cases [of i d])
  case ok
  let ?d' = "snd (DeleteDevice i d)"
  have "known ?d' = known d - {i}"
    by (rule set_eqI) (simp add: known_row_of row_of_DeleteDevice [OF ok(1)])
  moreover have "locked_key ?d' = (locked_key d)(i := None)"
    using locked_key_DeleteDevice [of _ i d] row_of_DeleteDevice [OF ok(1), of i]
    by (auto simp: fun_eq_iff locked_key_def)
  moreover have "peer_of ?d' = (free_of i (peer_of d))(i := None)"
    using ok(1) by (auto simp: peer_of_DeleteDevice free_of_def fun_eq_iff)
  ultimately show ?thesis using dir_remove [of "dir_of d" i] by (simp add: dir_of_def)
next
  case half
  let ?d' = "snd (DeleteDevice i d)"
  have "known ?d' = known d" by (rule map_rows_views(1) [OF half(2)]) simp
  moreover have "locked_key ?d' = locked_key d" by (rule map_rows_views(3) [OF half(2)]) simp_all
  moreover have "peer_of ?d' j = free_of i (peer_of d) j" for j
    by (cases "row_of d j") (simp_all add: peer_of_def free_of_def row_of_unlinked [OF half(2)])
  then have "peer_of ?d' = free_of i (peer_of d)" ..
  ultimately show ?thesis using dir_remove_interrupted [of "dir_of d" i] by (simp add: dir_of_def)
qed (use dir_of_cong in blast)

lemma dir_store_apply: "dir_moves d (snd (store_apply op d))"
proof (cases op)
  case (OpTouch t i)
  then show ?thesis by (simp add: dir_of_def frame_simps)
qed (use dir_CreateDevice dir_PairDevices dir_UnpairDevice dir_SetStaticKeyIfUnset dir_DeleteDevice in simp_all)

lemma dir_store_moves: "store_moves P d d' \<Longrightarrow> dir_moves d d'"
  unfolding store_moves_def using dir_of_cong dir_store_apply by metis

section \<open>The refinement\<close>

interpretation relay_dir: refinement_mapping initial "relay_step unmarshal cfg" relay_inv
  "\<lambda>s. dir_of (store s)" dir_initial dir_step
  for unmarshal :: "bytes \<Rightarrow> controlMessage option" and cfg :: WSCfg
proof unfold_locales
  fix s t
  assume "relay_step unmarshal cfg s t"
  then show "dir_moves (store s) (store t)"
    using dir_store_moves [OF perform_store] by (elim relay_stepE) blast
next
  fix s
  assume "initial s"
  then show "dir_initial (dir_of (store s))"
    by (auto simp: initial_def dir_initial_def dir_of_def NewHub_def empty_db_def known_def peer_of_def
        locked_key_def row_of_def fun_eq_iff)
qed

section \<open>Properties\<close>

text \<open>
  C2: the relay implements the directory. Whatever connects, sends, fails or is
  administered, and in whatever order, the table of a reachable relay is, seen as a directory,
  a reachable state of the specification: devices are registered fresh, links join two free
  devices and end on both sides, a key is set once, and the only visible failure is a deletion
  that has freed the partner. In particular no link and no key ever outlives its devices.
\<close>

theorem relay_refines_directory:
  assumes "reach initial (relay_step unmarshal cfg) s"
  shows "reach dir_initial dir_step (dir_of (store s)) \<and>
    (\<forall>a b. peer_of (store s) a = Some b \<longrightarrow> a \<in> known (store s) \<and> b \<in> known (store s))"
proof
  show "reach dir_initial dir_step (dir_of (store s))"
    using assms by (rule relay_dir.refines)
  from dir_sys.reach_inv [OF this]
  show "\<forall>a b. peer_of (store s) a = Some b \<longrightarrow> a \<in> known (store s) \<and> b \<in> known (store s)"
    by (simp add: dir_inv_def dir_of_def)
qed

text \<open>The sample run: two devices are linked, and the first deletion of the second fails half way.\<close>

definition sample_admin :: "event list" where
  "sample_admin = [Create (sample_device ''a''), Create (sample_device ''b''), Link True ''a'' ''b'', Delete ''b'', Connect 1 ''a'' ''ta'' True 0]"

definition sample_faulty :: relay where
  "sample_faulty = NewHub 0 (empty_db (replicate 9 False @ [True]))"

theorem relay_refines_directory_witness:
  "\<exists>t. performs (\<lambda>_. None) sample_cfg sample_admin sample_faulty = Some t \<and> peer_of (store t) ''a'' = None \<and>
     peer_of (store t) ''b'' = Some ''a'' \<and> ''a'' \<in> known (store t) \<and> reach dir_initial dir_step (dir_of (store t))"
proof -
  have "case performs (\<lambda>_. None) sample_cfg sample_admin sample_faulty of None \<Rightarrow> False
      | Some t \<Rightarrow> peer_of (store t) ''a'' = None \<and> peer_of (store t) ''b'' = Some ''a''"
    by code_simp
  then obtain t where t: "performs (\<lambda>_. None) sample_cfg sample_admin sample_faulty = Some t"
    and p: "peer_of (store t) ''a'' = None" "peer_of (store t) ''b'' = Some ''a''"
    by (auto simp del: perform.simps performs.simps split: option.splits)
  have "reach initial (relay_step (\<lambda>_. None) sample_cfg) sample_faulty"
    by (rule reach_init) (auto simp: initial_def sample_faulty_def)
  from relay_refines_directory [OF performs_reach [OF t this]] t p show ?thesis by blast
qed

end
