(* ===== verification/Front_Ends.thy ===== *)
theory Front_Ends
  imports Relay_System
begin

text \<open>
  The other front ends of the database: the REST API (\<^verbatim>\<open>internal/api\<close>), the handlers of the
  admin server that change state or answer with data (\<^verbatim>\<open>internal/admin/server.go\<close>) and the
  commands \<^verbatim>\<open>link\<close> and \<^verbatim>\<open>pair\<close> (\<^verbatim>\<open>internal/cli\<close>). JSON bodies are the values that are
  encoded; decoding a request body is an argument (\<open>None\<close>: the decoder failed). Rendering of
  templates and of QR codes is not modelled.
\<close>

section \<open>REST API\<close>

record deviceResponse =
  resp_ID :: device_id
  resp_Name :: string
  resp_PairedWith :: "device_id option"
  resp_CreatedAt :: time
  resp_LastSeen :: "time option"

record createDeviceResponse =
  created_DeviceID :: device_id
  created_DeviceToken :: string
  created_ExpiresAt :: time

record healthResponse =
  health_Status :: string
  health_Version :: string
  health_UptimeSeconds :: int
  health_ConnectedDevices :: nat

record adminStatus =
  admin_Status :: string
  admin_Version :: string
  admin_Connected :: nat
  admin_Uptime :: string

datatype httpBody =
    NoBody
  | ErrorText string
  | DeviceList "deviceResponse list"
  | Created createDeviceResponse
  | Health healthResponse
  | AdminDevices "Device list"
  | DevicesTable "Device list" "device_id \<Rightarrow> bool"
  | IndexPage string nat string "Device list" "device_id \<Rightarrow> bool"
  | DevicesPage string "Device list" "device_id \<Rightarrow> bool"
  | AdminStatus adminStatus

record httpResponse =
  status :: nat
  headers :: "(string \<times> string) list"
  body :: httpBody

definition writeJSON :: "nat \<Rightarrow> httpBody \<Rightarrow> httpResponse" where
  "writeJSON code v = \<lparr>status = code, headers = [(''Content-Type'', ''application/json'')], body = v\<rparr>"

definition httpError :: "string \<Rightarrow> nat \<Rightarrow> httpResponse" where
  "httpError text code = \<lparr>status = code,
     headers = [(''Content-Type'', ''text/plain; charset=utf-8''), (''X-Content-Type-Options'', ''nosniff'')],
     body = ErrorText text\<rparr>"

definition toResponse :: "Device \<Rightarrow> deviceResponse" where
  "toResponse d = \<lparr>resp_ID = ID d, resp_Name = Name d, resp_PairedWith = PairedWith d,
     resp_CreatedAt = CreatedAt d, resp_LastSeen = LastSeen d\<rparr>"

definition handleListDevices :: "relay \<Rightarrow> httpResponse \<times> relay" where
  "handleListDevices s =
     (case withStore ListDevices s of
        (Inl _, s1) \<Rightarrow> (httpError ''internal server error'' 500, s1)
      | (Inr ds, s1) \<Rightarrow> (writeJSON 200 (DeviceList (map toResponse ds)), s1))"

definition handleCreateDevice ::
  "string option \<Rightarrow> bytes option \<Rightarrow> device_id \<Rightarrow> time \<Rightarrow> relay \<Rightarrow> httpResponse \<times> relay" where
  "handleCreateDevice decodedName rnd uuid now s =
     (case decodedName of
        None \<Rightarrow> (httpError ''body must be JSON with non-empty \"name\" field'' 400, s)
      | Some name \<Rightarrow>
          (if name = '''' then (httpError ''body must be JSON with non-empty \"name\" field'' 400, s)
           else case NewDevice rnd uuid now name of
             None \<Rightarrow> (httpError ''internal server error'' 500, s)
           | Some dev \<Rightarrow>
               (case withStore (CreateDevice dev) s of
                  (Inl _, s1) \<Rightarrow> (httpError ''internal server error'' 500, s1)
                | (Inr _, s1) \<Rightarrow>
                    (writeJSON 200 (Created \<lparr>created_DeviceID = ID dev, created_DeviceToken = DeviceToken dev,
                       created_ExpiresAt = (case ExpiresAt dev of None \<Rightarrow> 0 | Some e \<Rightarrow> e)\<rparr>), s1))))"

definition handleHealth :: "string \<Rightarrow> time \<Rightarrow> time \<Rightarrow> relay \<Rightarrow> httpResponse" where
  "handleHealth version apiStart now s =
     writeJSON 200 (Health \<lparr>health_Status = ''ok'', health_Version = version,
       health_UptimeSeconds = wholeSeconds (now - apiStart), health_ConnectedDevices = ConnectedCount s\<rparr>)"

definition deprecated :: "httpResponse \<times> relay \<Rightarrow> httpResponse \<times> relay" where
  "deprecated r = (let (resp, s) = r in (resp\<lparr>headers := (''Deprecation'', ''true'') # headers resp\<rparr>, s))"

definition corsMiddleware :: "string \<Rightarrow> (relay \<Rightarrow> httpResponse \<times> relay) \<Rightarrow> relay \<Rightarrow> httpResponse \<times> relay" where
  "corsMiddleware httpMethod next s =
     (let cors = [(''Access-Control-Allow-Origin'', ''*''),
                  (''Access-Control-Allow-Methods'', ''GET, POST, OPTIONS''),
                  (''Access-Control-Allow-Headers'', ''Content-Type'')]
      in if httpMethod = ''OPTIONS'' then (\<lparr>status = 204, headers = cors, body = NoBody\<rparr>, s)
         else (let (resp, s1) = next s in (resp\<lparr>headers := cors @ headers resp\<rparr>, s1)))"

section \<open>Admin server\<close>

definition onlineSet :: "device_id set \<Rightarrow> device_id \<Rightarrow> bool" where
  "onlineSet ids i \<longleftrightarrow> i \<in> ids"

definition handleDevicesPartial :: "relay \<Rightarrow> httpResponse \<times> relay" where
  "handleDevicesPartial s =
     (case withStore ListDevices s of
        (Inl _, s1) \<Rightarrow> (httpError ''db error'' 500, s1)
      | (Inr ds, s1) \<Rightarrow>
          (\<lparr>status = 200, headers = [(''Content-Type'', ''text/html; charset=utf-8'')],
            body = DevicesTable ds (onlineSet (ConnectedDevices s1))\<rparr>, s1))"

definition handleDeleteDevice :: "device_id \<Rightarrow> relay \<Rightarrow> httpResponse \<times> relay" where
  "handleDeleteDevice i s =
     (case withStore (DeleteDevice i) s of
        (Inl _, s1) \<Rightarrow> (httpError ''delete failed'' 500, s1)
      | (Inr _, s1) \<Rightarrow> (\<lparr>status = 200, headers = [], body = NoBody\<rparr>, s1))"

text \<open>
  The text of a duration rounded to whole seconds: \<^verbatim>\<open>d.Round(time.Second).String()\<close>. Halves
  are rounded away from zero.
\<close>

definition roundSeconds :: "duration \<Rightarrow> int" where
  "roundSeconds d = (if d < 0 then - ((- d + Second div 2) div Second) else (d + Second div 2) div Second)"

definition secondsString :: "int \<Rightarrow> string" where
  "secondsString n =
     (let a = \<bar>n\<bar>; h = a div 3600; m = a div 60 mod 60; sec = a mod 60;
          text = (if h > 0 then showInt h @ ''h'' @ showInt m @ ''m''
                  else if m > 0 then showInt m @ ''m'' else '''') @ showInt sec @ ''s''
      in if n < 0 then CHR ''-'' # text else text)"

definition htmlPage :: "httpBody \<Rightarrow> httpResponse" where
  "htmlPage b = \<lparr>status = 200, headers = [(''Content-Type'', ''text/html; charset=utf-8'')], body = b\<rparr>"

definition handleIndex :: "string \<Rightarrow> time \<Rightarrow> relay \<Rightarrow> httpResponse \<times> relay" where
  "handleIndex version now s =
     (case withStore ListDevices s of
        (Inl _, s1) \<Rightarrow> (httpError ''db error'' 500, s1)
      | (Inr ds, s1) \<Rightarrow>
          (htmlPage (IndexPage version (ConnectedCount s1) (secondsString (roundSeconds (Uptime now s1))) ds
             (onlineSet (ConnectedDevices s1))), s1))"

definition handleDevices :: "string \<Rightarrow> relay \<Rightarrow> httpResponse \<times> relay" where
  "handleDevices version s =
     (case withStore ListDevices s of
        (Inl _, s1) \<Rightarrow> (httpError ''db error'' 500, s1)
      | (Inr ds, s1) \<Rightarrow> (htmlPage (DevicesPage version ds (onlineSet (ConnectedDevices s1))), s1))"

definition apiStatus :: "string \<Rightarrow> time \<Rightarrow> relay \<Rightarrow> httpResponse" where
  "apiStatus version now s =
     writeJSON 200 (AdminStatus \<lparr>admin_Status = ''ok'', admin_Version = version, admin_Connected = ConnectedCount s,
       admin_Uptime = secondsString (roundSeconds (Uptime now s))\<rparr>)"

text \<open>\<open>form\<close> is the parsed form (\<open>None\<close>: parsing failed), \<open>errText\<close> the text of an error.\<close>

definition handlePairDevices ::
  "(db_error \<Rightarrow> string) \<Rightarrow> bool \<Rightarrow> (device_id \<times> device_id) option \<Rightarrow> relay \<Rightarrow> httpResponse \<times> relay" where
  "handlePairDevices errText swap form s =
     (case form of
        None \<Rightarrow> (httpError ''bad request'' 400, s)
      | Some (id1, id2) \<Rightarrow>
          (if id1 = '''' \<or> id2 = '''' \<or> id1 = id2 then (httpError ''invalid device IDs'' 400, s)
           else case withStore (PairDevices swap id1 id2) s of
             (Inl e, s1) \<Rightarrow> (httpError (''pairing failed: '' @ errText e) 500, s1)
           | (Inr _, s1) \<Rightarrow> handleDevicesPartial s1))"

definition apiDevices :: "relay \<Rightarrow> httpResponse \<times> relay" where
  "apiDevices s =
     (case withStore ListDevices s of
        (Inl _, s1) \<Rightarrow> (httpError ''db error'' 500, s1)
      | (Inr ds, s1) \<Rightarrow> (writeJSON 200 (AdminDevices ds), s1))"

section \<open>Commands\<close>

text \<open>Why a command failed: before the database was open, or with the error of a call.\<close>

datatype cli_error = LoadingConfig | OpeningDatabase | GeneratingDevice | DatabaseError db_error | GeneratingQR

definition runLink :: "bool \<Rightarrow> bool \<Rightarrow> bool \<Rightarrow> device_id \<Rightarrow> device_id \<Rightarrow> db \<Rightarrow> (cli_error + unit) \<times> db" where
  "runLink cfgOk dbOk swap id1 id2 d =
     (if \<not> cfgOk then (Inl LoadingConfig, d)
      else if \<not> dbOk then (Inl OpeningDatabase, d)
      else case GetDeviceByID id1 d of
        (Inl e, d1) \<Rightarrow> (Inl (DatabaseError e), d1)
      | (Inr _, d1) \<Rightarrow>
          (case GetDeviceByID id2 d1 of
             (Inl e, d2) \<Rightarrow> (Inl (DatabaseError e), d2)
           | (Inr _, d2) \<Rightarrow>
               (case PairDevices swap id1 id2 d2 of
                  (Inl e, d3) \<Rightarrow> (Inl (DatabaseError e), d3)
                | (Inr _, d3) \<Rightarrow> (Inr (), d3))))"

text \<open>
  \<^verbatim>\<open>relayly pair\<close>: the result is the URI it prints; \<open>qr\<close> is the outcome of building the QR
  code, \<open>None\<close> when \<^verbatim>\<open>--no-qr\<close> was given.
\<close>

definition pairingURI :: "Device \<Rightarrow> string" where
  "pairingURI dev = ''relayly://pair?device_id='' @ ID dev @ ''&token='' @ DeviceToken dev"

definition runPair ::
  "bool \<Rightarrow> bool \<Rightarrow> bool option \<Rightarrow> bytes option \<Rightarrow> device_id \<Rightarrow> time \<Rightarrow> string \<Rightarrow> db \<Rightarrow> (cli_error + Device \<times> string option) \<times> db" where
  "runPair cfgOk dbOk qr rnd uuid now deviceName d =
     (if \<not> cfgOk then (Inl LoadingConfig, d)
      else if \<not> dbOk then (Inl OpeningDatabase, d)
      else case NewDevice rnd uuid now deviceName of
        None \<Rightarrow> (Inl GeneratingDevice, d)
      | Some dev \<Rightarrow>
          (case CreateDevice dev d of
             (Inl e, d1) \<Rightarrow> (Inl (DatabaseError e), d1)
           | (Inr _, d1) \<Rightarrow>
               (case qr of
                  None \<Rightarrow> (Inr (dev, None), d1)
                | Some built \<Rightarrow> if built then (Inr (dev, Some (pairingURI dev)), d1) else (Inl GeneratingQR, d1))))"

section \<open>Lemmas\<close>

lemma ListDevices_cases:
  obtains (fail) d' where "ListDevices d = (Inl ErrDriver, d')" "devices d' = devices d"
  | (ok) d' where "ListDevices d = (Inr (map scanDevice (sort_key row_created_at (devices d))), d')"
      "devices d' = devices d"
proof (cases "faults d")
  case Nil
  then show ?thesis by (intro ok) (simp_all add: ListDevices_def db_bind_def db_call_def)
next
  case (Cons f fs)
  then show ?thesis
    by (cases f) (auto simp: ListDevices_def db_bind_def db_call_def intro: fail ok)
qed

lemma GetDeviceByID_after_create:
  assumes "CreateDevice dv d = (Inr u, d')" and "faults d' = []"
  shows "\<exists>r. GetDeviceByID (ID dv) d' = (Inr (scanDevice r), d') \<and> row_device_token r = DeviceToken dv \<and>
    row_expires_at r = ExpiresAt dv \<and> row_paired_with r = None"
proof (cases rule: CreateDevice_cases [of dv d])
  case fail
  then show ?thesis using assms(1) by (simp add: is_ok_def)
next
  case (ok r)
  have "row_of d (ID dv) = None"
    using ok(9) by (simp add: known_row_of)
  moreover have "devices d' = devices d @ [r]"
    using ok(2) assms(1) by simp
  ultimately have "row_of d' (ID dv) = Some r"
    using ok(3) by (auto simp: row_of_def find_None_iff find_Some_iff nth_append intro!: exI [of _ "length (devices d)"])
  then show ?thesis
    using ok assms(2) by (auto simp: GetDeviceByID_no_faults)
qed

lemma handleCreateDevice_created:
  assumes "body (fst (handleCreateDevice decodedName rnd uuid now s)) = Created cr"
  obtains name dv u d where "NewDevice rnd uuid now name = Some dv" and "CreateDevice dv (store s) = (Inr u, d)"
    and "snd (handleCreateDevice decodedName rnd uuid now s) = s\<lparr>store := d\<rparr>"
    and "cr = \<lparr>created_DeviceID = ID dv, created_DeviceToken = DeviceToken dv,
      created_ExpiresAt = (case ExpiresAt dv of None \<Rightarrow> 0 | Some e \<Rightarrow> e)\<rparr>"
proof -
  note defs = handleCreateDevice_def httpError_def writeJSON_def withStore_def
  obtain name where name: "decodedName = Some name" "name \<noteq> []"
    using assms by (cases decodedName; cases "decodedName = Some []") (auto simp: defs)
  obtain dv where dv: "NewDevice rnd uuid now name = Some dv"
    using assms name by (cases "NewDevice rnd uuid now name") (auto simp: defs)
  obtain r d where run: "CreateDevice dv (store s) = (r, d)"
    by fastforce
  obtain u where "r = Inr u"
    using assms name dv run by (cases r) (auto simp: defs)
  with that [OF dv] assms name dv run show ?thesis
    by (simp add: defs)
qed

definition publicRow :: "row \<Rightarrow> row" where
  "publicRow r = r\<lparr>row_public_key := '''', row_device_token := '''', row_static_key := None, row_expires_at := None\<rparr>"

lemma publicRow_simps [simp]:
  "row_created_at (publicRow r) = row_created_at r" "toResponse (scanDevice (publicRow r)) = toResponse (scanDevice r)"
  by (simp_all add: publicRow_def toResponse_def scanDevice_def)

lemma insort_publicRow:
  "insort_key row_created_at (publicRow r) (map publicRow xs) = map publicRow (insort_key row_created_at r xs)"
  by (induction xs) simp_all

lemma public_list:
  "map (toResponse \<circ> scanDevice) (sort_key row_created_at rs)
    = map (toResponse \<circ> scanDevice) (sort_key row_created_at (map publicRow rs))"
proof -
  have "sort_key row_created_at (map publicRow rs) = map publicRow (sort_key row_created_at rs)"
    by (induction rs) (simp_all add: insort_publicRow)
  then show ?thesis by simp
qed

section \<open>Properties\<close>

text \<open>
  C25: what registration hands out works. When \<^verbatim>\<open>POST /api/v1/devices\<close> answers with a device
  identifier and token, a WebSocket request that presents them no later than the reported
  expiry is accepted: it creates a client for that device, unpaired, and hands it to the hub.
\<close>

theorem created_device_connects:
  assumes "handleCreateDevice decodedName rnd uuid now s = (resp, s')" and "body resp = Created cr"
    and "faults (store s') = []" and "heap s' c = None"
    and "created_DeviceID cr \<noteq> ''''" and "created_DeviceToken cr \<noteq> ''''" and "later \<le> created_ExpiresAt cr"
  shows "\<exists>t. perform unmarshal cfg (Connect later (created_DeviceID cr) (created_DeviceToken cr) True c) s' = Some t \<and>
    registerQ t = registerQ s' @ [c] \<and>
    heap t c = Some (NewClient (created_DeviceID cr) '''' (MaxMessageBytes cfg) (PingInterval cfg) (Deadline cfg))"
proof -
  have "body (fst (handleCreateDevice decodedName rnd uuid now s)) = Created cr"
    using assms(1,2) by simp
  then obtain name dv u d where dv: "NewDevice rnd uuid now name = Some dv"
    and create: "CreateDevice dv (store s) = (Inr u, d)"
    and st: "snd (handleCreateDevice decodedName rnd uuid now s) = s\<lparr>store := d\<rparr>"
    and crd: "cr = \<lparr>created_DeviceID = ID dv, created_DeviceToken = DeviceToken dv,
      created_ExpiresAt = (case ExpiresAt dv of None \<Rightarrow> 0 | Some e \<Rightarrow> e)\<rparr>"
    by (rule handleCreateDevice_created)
  have s': "s' = s\<lparr>store := d\<rparr>"
    using st assms(1) by simp
  have cr: "created_DeviceID cr = ID dv" "created_DeviceToken cr = DeviceToken dv"
      "created_ExpiresAt cr = (case ExpiresAt dv of None \<Rightarrow> 0 | Some e \<Rightarrow> e)"
    by (simp_all add: crd)
  obtain e where e: "ExpiresAt dv = Some e"
    using dv by (auto simp: NewDevice_def split: option.splits)
  obtain r where get: "GetDeviceByID (ID dv) d = (Inr (scanDevice r), d)"
    and r: "row_device_token r = DeviceToken dv" "row_expires_at r = Some e" "row_paired_with r = None"
    using GetDeviceByID_after_create [OF create] assms(3) s' e by auto
  have auth: "authenticate later (ID dv) (DeviceToken dv) s' = (Inr (scanDevice r), s')"
    using get r cr e assms(5-7) s' by (simp add: authenticate_def withStore_def scanDevice_def)
  show ?thesis
    using auth assms(4) cr r by (simp add: Handler_def scanDevice_def)
qed

theorem created_device_connects_witness:
  "\<exists>s' t. performs (\<lambda>_. None) sample_cfg [] (snd (handleCreateDevice (Some ''phone'') (Some [1, 2, 3]) ''u'' 0 sample_start)) = Some s' \<and>
     perform (\<lambda>_. None) sample_cfg (Connect 10 ''u'' (base58Encode [1, 2, 3]) True 0) s' = Some t \<and> registerQ t = [0]"
proof -
  let ?tok = "base58Encode [1, 2, 3]"
  let ?r = "handleCreateDevice (Some ''phone'') (Some [1, 2, 3]) ''u'' 0 sample_start"
  let ?cr = "\<lparr>created_DeviceID = ''u'', created_DeviceToken = ?tok, created_ExpiresAt = deviceTokenTTL\<rparr>"
  have body: "body (fst ?r) = Created ?cr" and st: "faults (store (snd ?r)) = []" "registerQ (snd ?r) = []"
    "heap (snd ?r) 0 = None"
    by (simp_all add: handleCreateDevice_def NewDevice_def GenerateDeviceToken_def withStore_def CreateDevice_def
        sample_start_def NewHub_def empty_db_def writeJSON_def)
  have tok: "?tok \<noteq> ''''" by code_simp
  show ?thesis
    using created_device_connects [of "Some ''phone''" "Some [1, 2, 3]" "''u''" 0 sample_start "fst ?r" "snd ?r" ?cr 0 10
        "\<lambda>_. None" sample_cfg] body st tok
    by (auto simp: deviceTokenTTL_def simp del: perform.simps)
qed

text \<open>
  The device list of the REST API depends on public columns only. Two stores whose
  rows agree on everything but tokens, static keys, legacy public keys and expiry times give
  the same answer, so the answer carries nothing about a secret.
\<close>

theorem list_hides_secrets:
  assumes "map publicRow (devices (store s)) = map publicRow (devices (store s'))"
    and "faults (store s) = faults (store s')"
  shows "fst (handleListDevices s) = fst (handleListDevices s')"
proof -
  have "map (toResponse \<circ> scanDevice) (sort_key row_created_at (devices (store s)))
      = map (toResponse \<circ> scanDevice) (sort_key row_created_at (devices (store s')))"
    using public_list [of "devices (store s)"] public_list [of "devices (store s')"] assms(1) by simp
  with assms(2) show ?thesis
    by (simp add: handleListDevices_def withStore_def ListDevices_def db_bind_def db_call_def split: list.split)
qed

theorem list_hides_secrets_witness:
  "fst (handleListDevices (NewHub 0 (store_run [OpCreate (sample_device ''a'')] (empty_db [])))) =
   fst (handleListDevices (NewHub 5 (store_run [OpCreate (sample_device ''a''), OpSetKey ''a'' ''K1''] (empty_db []))))"
proof (rule list_hides_secrets)
  show "map publicRow (devices (store (NewHub 0 (store_run [OpCreate (sample_device ''a'')] (empty_db []))))) =
    map publicRow (devices (store (NewHub 5 (store_run [OpCreate (sample_device ''a''), OpSetKey ''a'' ''K1''] (empty_db [])))))"
    by code_simp
  show "faults (store (NewHub 0 (store_run [OpCreate (sample_device ''a'')] (empty_db [])))) =
    faults (store (NewHub 5 (store_run [OpCreate (sample_device ''a''), OpSetKey ''a'' ''K1''] (empty_db []))))"
    by code_simp
qed

text \<open>
  The command line can link a device with itself. \<^verbatim>\<open>relayly link X X\<close> succeeds for an
  unpaired device and leaves it paired with itself, which the admin server and the in-band
  flow refuse.
\<close>

theorem link_with_itself:
  "fst (runLink True True False ''a'' ''a'' (store_run [OpCreate (sample_device ''a'')] (empty_db []))) = Inr () \<and>
   peer_of (snd (runLink True True False ''a'' ''a'' (store_run [OpCreate (sample_device ''a'')] (empty_db [])))) ''a''
     = Some ''a'' \<and>
   (\<forall>errText swap i s. handlePairDevices errText swap (Some (i, i)) s = (httpError ''invalid device IDs'' 400, s))"
proof (intro conjI allI)
  show "fst (runLink True True False ''a'' ''a'' (store_run [OpCreate (sample_device ''a'')] (empty_db []))) = Inr ()"
    by code_simp
  show "peer_of (snd (runLink True True False ''a'' ''a'' (store_run [OpCreate (sample_device ''a'')] (empty_db [])))) ''a''
     = Some ''a''"
    by code_simp
qed (simp add: handlePairDevices_def)

end
