(* ===== verification/Rate_Limit.thy ===== *)
theory Rate_Limit
  imports Relayly_Prelude
begin

text \<open>
  Per-address rate limiting of WebSocket upgrades (\<^verbatim>\<open>internal/relay/ratelimit.go\<close>): the token
  bucket, the limiter with its buckets per address, one pass of the cleanup loop, the
  environment overrides and the middleware. \<^verbatim>\<open>time.Now()\<close> is the argument \<open>now\<close>; each
  operation runs under the bucket's mutex and is one atomic step. Of the standard library
  the model contains \<^verbatim>\<open>strconv.Atoi\<close> and \<^verbatim>\<open>net.SplitHostPort\<close> as the source uses them,
  and the wrap-around of 64-bit durations.
\<close>

section \<open>Definitions\<close>

record tokenBucket =
  tokens :: int
  maxTokens :: int
  window :: duration
  windowStart :: time
  lastSeen :: time

definition allow :: "time \<Rightarrow> tokenBucket \<Rightarrow> bool \<times> tokenBucket" where
  "allow now b =
     (let b1 = b\<lparr>lastSeen := now\<rparr>;
          b2 = (if now - windowStart b1 \<ge> window b1
                then b1\<lparr>tokens := maxTokens b1, windowStart := now\<rparr> else b1)
      in if tokens b2 \<le> 0 then (False, b2) else (True, b2\<lparr>tokens := tokens b2 - 1\<rparr>))"

record IPRateLimiter =
  buckets :: "string \<rightharpoonup> tokenBucket"
  rl_maxTokens :: int
  rl_window :: duration

definition NewIPRateLimiter :: "int \<Rightarrow> duration \<Rightarrow> IPRateLimiter" where
  "NewIPRateLimiter mx w = \<lparr>buckets = Map.empty, rl_maxTokens = mx, rl_window = w\<rparr>"

definition freshBucket :: "time \<Rightarrow> IPRateLimiter \<Rightarrow> tokenBucket" where
  "freshBucket now rl =
     \<lparr>tokens = rl_maxTokens rl, maxTokens = rl_maxTokens rl, window = rl_window rl,
      windowStart = now, lastSeen = now\<rparr>"

definition Allow :: "time \<Rightarrow> string \<Rightarrow> IPRateLimiter \<Rightarrow> bool \<times> IPRateLimiter" where
  "Allow now ip rl =
     (let v = (case buckets rl ip of Some b \<Rightarrow> b | None \<Rightarrow> freshBucket now rl);
          (ok, v') = allow now v
      in (ok, rl\<lparr>buckets := (buckets rl)(ip \<mapsto> v')\<rparr>))"

text \<open>One tick of \<open>cleanupLoop\<close>.\<close>

definition cleanup :: "time \<Rightarrow> IPRateLimiter \<Rightarrow> IPRateLimiter" where
  "cleanup now rl =
     (let cutoff = now + (- rl_window rl) * 2
      in rl\<lparr>buckets := (\<lambda>ip. case buckets rl ip of
            None \<Rightarrow> None | Some b \<Rightarrow> if lastSeen b < cutoff then None else Some b)\<rparr>)"

text \<open>\<^verbatim>\<open>strconv.Atoi\<close> on a 64-bit platform: an optional sign, then decimal digits, in range.\<close>

definition isDigit :: "char \<Rightarrow> bool" where
  "isDigit c \<longleftrightarrow> 48 \<le> (of_char c :: nat) \<and> (of_char c :: nat) \<le> 57"

definition digitsValue :: "string \<Rightarrow> int" where
  "digitsValue cs = foldl (\<lambda>v c. v * 10 + (of_char c - 48)) 0 cs"

definition Atoi :: "string \<Rightarrow> int option" where
  "Atoi s =
     (let neg = (s \<noteq> [] \<and> hd s = CHR ''-'');
          ds = (if s \<noteq> [] \<and> (hd s = CHR ''-'' \<or> hd s = CHR ''+'') then tl s else s);
          v = (if neg then - digitsValue ds else digitsValue ds)
      in if ds = [] \<or> \<not> list_all isDigit ds then None
         else if - (2 ^ 63) \<le> v \<and> v < 2 ^ 63 then Some v else None)"

definition envRateLimitMax :: "string \<Rightarrow> int" where
  "envRateLimitMax v =
     (if v \<noteq> '''' then (case Atoi v of Some n \<Rightarrow> if n > 0 then n else 10 | None \<Rightarrow> 10) else 10)"

text \<open>\<^verbatim>\<open>time.Duration(n) * time.Second\<close> is a 64-bit product.\<close>

definition envRateLimitWindow :: "string \<Rightarrow> duration" where
  "envRateLimitWindow v =
     (if v \<noteq> ''''
      then (case Atoi v of
              Some n \<Rightarrow> if n > 0 then sint (word_of_int n * (1000000000 :: 64 word)) else Minute
            | None \<Rightarrow> Minute)
      else Minute)"

text \<open>\<^verbatim>\<open>net.SplitHostPort\<close>, the host part; \<open>None\<close> is its error.\<close>

definition SplitHostPort :: "string \<Rightarrow> string option" where
  "SplitHostPort hp =
     (if CHR '':'' \<notin> set hp then None
      else let i = length hp - 1 - length (takeWhile (\<lambda>c. c \<noteq> CHR '':'') (rev hp)) in
        if hd hp = CHR ''['' then
          (if CHR '']'' \<notin> set hp then None
           else let e = length (takeWhile (\<lambda>c. c \<noteq> CHR '']'') hp) in
             if e + 1 \<noteq> i then None
             else if CHR ''['' \<in> set (drop 1 hp) \<or> CHR '']'' \<in> set (drop (e + 1) hp) then None
             else Some (take (e - 1) (drop 1 hp)))
        else let host = take i hp in
          if CHR '':'' \<in> set host then None
          else if CHR ''['' \<in> set hp \<or> CHR '']'' \<in> set hp then None
          else Some host)"

text \<open>
  The middleware: \<open>Inl 429\<close> is the rejection, \<open>Inr ()\<close> hands the request to the next
  handler.
\<close>

definition RateLimitMiddleware :: "time \<Rightarrow> string \<Rightarrow> IPRateLimiter \<Rightarrow> (nat + unit) \<times> IPRateLimiter" where
  "RateLimitMiddleware now remoteAddr rl =
     (let ip = (case SplitHostPort remoteAddr of Some host \<Rightarrow> host | None \<Rightarrow> remoteAddr);
          (ok, rl') = Allow now ip rl
      in (if \<not> ok then Inl 429 else Inr (), rl'))"

text \<open>How many requests of a sequence of instants a bucket admits.\<close>

fun admitted :: "time list \<Rightarrow> tokenBucket \<Rightarrow> nat" where
  "admitted [] b = 0"
| "admitted (t # ts) b = (let (ok, b') = allow t b in (if ok then 1 else 0) + admitted ts b')"

fun allowRun :: "(time \<times> string) list \<Rightarrow> IPRateLimiter \<Rightarrow> IPRateLimiter" where
  "allowRun [] rl = rl"
| "allowRun ((t, ip) # rs) rl = allowRun rs (snd (Allow t ip rl))"

definition bucket_ok :: "int \<Rightarrow> duration \<Rightarrow> tokenBucket \<Rightarrow> bool" where
  "bucket_ok mx w b \<longleftrightarrow> maxTokens b = mx \<and> window b = w \<and>
     windowStart b \<le> lastSeen b \<and> tokens b \<le> maxTokens b \<and> 0 \<le> tokens b"

definition limiter_ok :: "IPRateLimiter \<Rightarrow> bool" where
  "limiter_ok rl \<longleftrightarrow> 0 < rl_maxTokens rl \<and> 0 < rl_window rl \<and>
     (\<forall>ip b. buckets rl ip = Some b \<longrightarrow> bucket_ok (rl_maxTokens rl) (rl_window rl) b)"

section \<open>One bucket\<close>

lemma allow_fields [simp]:
  "maxTokens (snd (allow now b)) = maxTokens b" "window (snd (allow now b)) = window b"
  "lastSeen (snd (allow now b)) = now"
  by (simp_all add: allow_def Let_def)

lemma windowStart_allow:
  "windowStart (snd (allow now b)) = (if now - windowStart b \<ge> window b then now else windowStart b)"
  by (simp add: allow_def Let_def)

lemma allow_same_window:
  "now - windowStart b < window b \<Longrightarrow>
    fst (allow now b) = (0 < tokens b) \<and>
    tokens (snd (allow now b)) = (if 0 < tokens b then tokens b - 1 else tokens b)"
  by (simp add: allow_def Let_def)

lemma allow_new_window:
  "now - windowStart b \<ge> window b \<Longrightarrow>
    fst (allow now b) = (0 < maxTokens b) \<and>
    tokens (snd (allow now b)) = (if 0 < maxTokens b then maxTokens b - 1 else maxTokens b)"
  by (simp add: allow_def Let_def)

lemma admitted_Cons:
  "admitted (t # ts) b = (if fst (allow t b) then 1 else 0) + admitted ts (snd (allow t b))"
  by (simp add: case_prod_beta)

declare admitted.simps(2) [simp del]

lemma admitted_same_window:
  assumes "\<And>t. t \<in> set ts \<Longrightarrow> t - windowStart b < window b" and "0 \<le> tokens b"
  shows "int (admitted ts b) \<le> tokens b"
  using assms
proof (induction ts arbitrary: b)
  case (Cons t ts)
  have t: "t - windowStart b < window b" using Cons.prems(1) by simp
  have "int (admitted ts (snd (allow t b))) \<le> tokens (snd (allow t b))"
  proof (rule Cons.IH)
    show "u - windowStart (snd (allow t b)) < window (snd (allow t b))" if "u \<in> set ts" for u
      using Cons.prems(1) [of u] t that by (simp add: windowStart_allow)
    show "0 \<le> tokens (snd (allow t b))"
      using t Cons.prems(2) by (simp add: allow_same_window)
  qed
  with t Cons.prems(2) show ?case
    by (auto simp: admitted_Cons allow_same_window split: if_splits)
qed simp

lemma admitted_two_windows:
  assumes "sorted ts" and "\<And>t. t \<in> set ts \<Longrightarrow> lo \<le> t \<and> t < lo + window b"
    and "0 \<le> tokens b" and "0 \<le> maxTokens b"
  shows "int (admitted ts b) \<le> tokens b + maxTokens b"
  using assms
proof (induction ts arbitrary: b)
  case (Cons t ts)
  let ?b' = "snd (allow t b)"
  show ?case
  proof (cases "t - windowStart b < window b")
    case True
    have "int (admitted ts ?b') \<le> tokens ?b' + maxTokens ?b'"
      using Cons.prems True by (intro Cons.IH) (auto simp: allow_same_window)
    with True Cons.prems(3,4) show ?thesis
      by (auto simp: admitted_Cons allow_same_window split: if_splits)
  next
    case False
    have "u - windowStart ?b' < window ?b'" if "u \<in> set ts" for u
      using Cons.prems(2) [of u] Cons.prems(2) [of t] that False by (auto simp: windowStart_allow)
    then have "int (admitted ts ?b') \<le> tokens ?b'"
      using Cons.prems(4) False by (intro admitted_same_window) (auto simp: allow_new_window)
    with False Cons.prems(3,4) show ?thesis
      by (auto simp: admitted_Cons allow_new_window split: if_splits)
  qed
qed simp

section \<open>The limiter\<close>

lemma Allow_buckets [simp]:
  "buckets (snd (Allow now ip rl)) =
     (buckets rl)(ip \<mapsto> snd (allow now (case buckets rl ip of Some b \<Rightarrow> b | None \<Rightarrow> freshBucket now rl)))"
  "rl_maxTokens (snd (Allow now ip rl)) = rl_maxTokens rl"
  "rl_window (snd (Allow now ip rl)) = rl_window rl"
  by (simp_all add: Allow_def Let_def case_prod_beta)

lemma fst_Allow: "fst (Allow now ip rl) =
    fst (allow now (case buckets rl ip of Some b \<Rightarrow> b | None \<Rightarrow> freshBucket now rl))"
  by (simp add: Allow_def Let_def case_prod_beta)

lemma bucket_ok_allow:
  "bucket_ok mx w b \<Longrightarrow> windowStart b \<le> now \<Longrightarrow> 0 < mx \<Longrightarrow> bucket_ok mx w (snd (allow now b))"
  by (cases "now - windowStart b < window b")
    (auto simp: bucket_ok_def windowStart_allow allow_same_window allow_new_window not_less)

lemma limiter_ok_Allow [inv_intros]:
  assumes "limiter_ok rl" and "\<And>b. buckets rl ip = Some b \<Longrightarrow> lastSeen b \<le> now"
  shows "limiter_ok (snd (Allow now ip rl))"
proof -
  let ?v = "case buckets rl ip of Some b \<Rightarrow> b | None \<Rightarrow> freshBucket now rl"
  have pos: "0 < rl_maxTokens rl" "0 < rl_window rl"
    using assms(1) by (simp_all add: limiter_ok_def)
  have "bucket_ok (rl_maxTokens rl) (rl_window rl) ?v \<and> windowStart ?v \<le> now"
  proof (cases "buckets rl ip")
    case None
    then show ?thesis using pos by (simp add: bucket_ok_def freshBucket_def)
  next
    case (Some b)
    then have "bucket_ok (rl_maxTokens rl) (rl_window rl) b" using assms(1) by (simp add: limiter_ok_def)
    with Some assms(2) show ?thesis by (force simp: bucket_ok_def)
  qed
  then have "bucket_ok (rl_maxTokens rl) (rl_window rl) (snd (allow now ?v))"
    using pos(1) by (simp add: bucket_ok_allow)
  then show ?thesis
    using assms(1) by (simp add: limiter_ok_def)
qed

lemma limiter_ok_cleanup [inv_intros]: "limiter_ok rl \<Longrightarrow> limiter_ok (cleanup now rl)"
  by (auto simp: limiter_ok_def cleanup_def Let_def split: option.splits if_splits)

text \<open>
  A keyed admission control: the decision for a key depends on that key's own entry, and
  an admission touches no other entry.
\<close>

locale keyed_admission =
  fixes admit :: "time \<Rightarrow> 'k \<Rightarrow> 's \<Rightarrow> bool \<times> 's"
    and entry :: "'s \<Rightarrow> 'k \<Rightarrow> 'e"
    and conf :: "'s \<Rightarrow> 'c"
  assumes decision_local: "entry s k = entry s' k \<Longrightarrow> conf s = conf s' \<Longrightarrow> fst (admit t k s) = fst (admit t k s')"
    and others_untouched: "k' \<noteq> k \<Longrightarrow> entry (snd (admit t k s)) k' = entry s k'"
    and conf_untouched: "conf (snd (admit t k s)) = conf s"
begin

lemma isolated_run:
  assumes "\<And>t k'. (t, k') \<in> set rs \<Longrightarrow> k' \<noteq> k"
  shows "fst (admit now k (fold (\<lambda>(t, k') s. snd (admit t k' s)) rs s)) = fst (admit now k s)"
proof -
  have "entry (fold (\<lambda>(t, k') s. snd (admit t k' s)) rs s) k = entry s k \<and>
      conf (fold (\<lambda>(t, k') s. snd (admit t k' s)) rs s) = conf s"
    using assms
  proof (induction rs arbitrary: s)
    case (Cons r rs)
    obtain t k' where r: "r = (t, k')" by (cases r)
    with Cons.prems [of t k'] have "k \<noteq> k'" by auto
    have rest: "j \<noteq> k" if "(u, j) \<in> set rs" for u j
      using Cons.prems [of u j] that by simp
    from Cons.IH [where s = "snd (admit t k' s)", OF rest] \<open>k \<noteq> k'\<close> r show ?case
      by (simp add: others_untouched conf_untouched)
  qed simp
  then show ?thesis by (intro decision_local) simp_all
qed

end

interpretation ipl: keyed_admission Allow buckets "\<lambda>rl. (rl_maxTokens rl, rl_window rl)"
  by unfold_locales (simp_all add: fst_Allow freshBucket_def split: option.split)

lemma allowRun_fold: "allowRun rs rl = fold (\<lambda>(t, ip) rl. snd (Allow t ip rl)) rs rl"
  by (induction rs rl rule: allowRun.induct) simp_all

section \<open>Properties\<close>



text \<open>
  Addresses do not disturb each other. Whatever requests other addresses make in
  between, the decision for an address is the one it would have got without them.
\<close>

theorem rate_isolation:
  assumes "\<And>t ip'. (t, ip') \<in> set rs \<Longrightarrow> ip' \<noteq> ip"
  shows "fst (Allow now ip (allowRun rs rl)) = fst (Allow now ip rl)"
  unfolding allowRun_fold by (rule ipl.isolated_run [OF assms])

theorem rate_isolation_witness:
  "fst (Allow 9 ''1.1.1.1'' (allowRun [(1, ''2.2.2.2''), (2, ''2.2.2.2'')] (NewIPRateLimiter 1 60)))
   = fst (Allow 9 ''1.1.1.1'' (NewIPRateLimiter 1 60))"
  by (rule rate_isolation) auto

text \<open>
  The cleanup is unobservable. Dropping the buckets that were idle for two windows
  changes no later decision, and after the next request of an address its bucket is the
  same as without the cleanup.
\<close>

theorem cleanup_transparent:
  assumes "limiter_ok rl" and "now \<le> later"
  shows "fst (Allow later ip (cleanup now rl)) = fst (Allow later ip rl) \<and>
    buckets (snd (Allow later ip (cleanup now rl))) ip = buckets (snd (Allow later ip rl)) ip"
proof (cases "buckets rl ip")
  case None
  then show ?thesis
    by (simp add: fst_Allow cleanup_def Let_def freshBucket_def)
next
  case (Some b)
  have b: "bucket_ok (rl_maxTokens rl) (rl_window rl) b" and w: "0 < rl_window rl"
    using assms(1) Some by (simp_all add: limiter_ok_def)
  show ?thesis
  proof (cases "lastSeen b < now + (- rl_window rl) * 2")
    case True
    then have "window b \<le> later - windowStart b"
      using b w assms(2) by (simp add: bucket_ok_def)
    then have "allow later b = allow later (freshBucket later rl)"
      using b w by (simp add: allow_def Let_def freshBucket_def bucket_ok_def)
    with Some True show ?thesis
      by (simp add: fst_Allow cleanup_def Let_def freshBucket_def)
  next
    case False
    with Some show ?thesis by (simp add: fst_Allow cleanup_def Let_def)
  qed
qed

theorem cleanup_transparent_witness:
  "fst (Allow 500 ''1.1.1.1'' (cleanup 400 (snd (Allow 0 ''1.1.1.1'' (NewIPRateLimiter 1 60)))))
   = fst (Allow 500 ''1.1.1.1'' (snd (Allow 0 ''1.1.1.1'' (NewIPRateLimiter 1 60))))"
proof -
  have "limiter_ok (snd (Allow 0 ''1.1.1.1'' (NewIPRateLimiter 1 60)))"
    by (rule limiter_ok_Allow) (simp_all add: limiter_ok_def NewIPRateLimiter_def)
  then show ?thesis
    using cleanup_transparent [of _ 400 500 "''1.1.1.1''"] by simp
qed

end
