(* ===== verification/Migrations.thy ===== *)
theory Migrations
  imports Relayly_Prelude
begin

text \<open>
  Schema migrations (\<^verbatim>\<open>internal/database/db.go\<close>). The database file is the tracking table
  (absent, or the recorded versions), the \<^verbatim>\<open>devices\<close> table (its columns, and rows as maps from
  column to value, \<open>None\<close> for \<^verbatim>\<open>NULL\<close>) and the names of the indexes with the column each is on.
  A migration is the list of the statements of its SQL text, run one after the other without
  a transaction: a failing statement stops the text and what ran before it stays. \<open>failing\<close>
  is the script of driver failures, one entry per query or statement.
\<close>

section \<open>The database file\<close>

record devTable =
  columns :: "string list"
  rows :: "(string \<Rightarrow> string option) list"

record dbfile =
  tracked :: "nat list option"
  table :: "devTable option"
  indexes :: "(string \<times> string) list"
  failing :: "bool list"

datatype stmt =
    CreateDevices "string list"
  | CreateIndex string string
  | DropIndex string
  | AddColumn string
  | RenameColumn string string
  | CopyNonEmpty string string

text \<open>
  \<open>CREATE TABLE/INDEX IF NOT EXISTS\<close> and \<open>DROP INDEX IF EXISTS\<close> do nothing when the object is
  already there (or gone); altering a table fails when the table or the column is missing or
  the new column exists.
\<close>

fun renameIn :: "string \<Rightarrow> string \<Rightarrow> string \<Rightarrow> string" where
  "renameIn a b c = (if c = a then b else c)"

fun run_stmt :: "stmt \<Rightarrow> dbfile \<Rightarrow> dbfile option" where
  "run_stmt (CreateDevices cs) f =
     (case table f of
        None \<Rightarrow> Some (f\<lparr>table := Some \<lparr>columns = cs, rows = []\<rparr>\<rparr>)
      | Some _ \<Rightarrow> Some f)"
| "run_stmt (CreateIndex n c) f =
     (if n \<in> fst ` set (indexes f) then Some f
      else case table f of
        None \<Rightarrow> None
      | Some t \<Rightarrow> if c \<in> set (columns t) then Some (f\<lparr>indexes := indexes f @ [(n, c)]\<rparr>) else None)"
| "run_stmt (DropIndex n) f = Some (f\<lparr>indexes := filter (\<lambda>(m, c). m \<noteq> n) (indexes f)\<rparr>)"
| "run_stmt (AddColumn c) f =
     (case table f of
        None \<Rightarrow> None
      | Some t \<Rightarrow>
          if c \<in> set (columns t) then None
          else Some (f\<lparr>table := Some \<lparr>columns = columns t @ [c], rows = map (\<lambda>r. r(c := None)) (rows t)\<rparr>\<rparr>))"
| "run_stmt (RenameColumn a b) f =
     (case table f of
        None \<Rightarrow> None
      | Some t \<Rightarrow>
          if a \<notin> set (columns t) \<or> b \<in> set (columns t) then None
          else Some (f\<lparr>table := Some \<lparr>columns = map (renameIn a b) (columns t),
                         rows = map (\<lambda>r. r(b := r a, a := None)) (rows t)\<rparr>,
                       indexes := map (\<lambda>(n, c). (n, renameIn a b c)) (indexes f)\<rparr>))"
| "run_stmt (CopyNonEmpty src dst) f =
     (case table f of
        None \<Rightarrow> None
      | Some t \<Rightarrow>
          if src \<in> set (columns t) \<and> dst \<in> set (columns t)
          then Some (f\<lparr>table := Some (t\<lparr>rows :=
            map (\<lambda>r. if r src \<noteq> None \<and> r src \<noteq> Some '''' then r(dst := r src) else r) (rows t)\<rparr>)\<rparr>)
          else None)"

text \<open>Does the next driver call fail?\<close>

definition driver :: "dbfile \<Rightarrow> bool \<times> dbfile" where
  "driver f = (case failing f of [] \<Rightarrow> (True, f) | b # bs \<Rightarrow> (\<not> b, f\<lparr>failing := bs\<rparr>))"

text \<open>
  \<^verbatim>\<open>db.Exec\<close> of a text of several statements: stop at the first failure, of the statement or
  of the driver.
\<close>

fun exec_script :: "stmt list \<Rightarrow> dbfile \<Rightarrow> bool \<times> dbfile" where
  "exec_script [] f = (True, f)"
| "exec_script (st # sts) f =
     (let (ok, f1) = driver f
      in if \<not> ok then (False, f1)
         else case run_stmt st f1 of None \<Rightarrow> (False, f1) | Some f2 \<Rightarrow> exec_script sts f2)"

section \<open>The migrations\<close>

definition migration1SQL :: "stmt list" where
  "migration1SQL =
     [CreateDevices [''id'', ''name'', ''public_key'', ''pair_token'', ''paired_with'', ''created_at'', ''last_seen''],
      CreateIndex ''idx_devices_pair_token'' ''pair_token'',
      CreateIndex ''idx_devices_paired_with'' ''paired_with'']"

definition migration2SQL :: "stmt list" where
  "migration2SQL = [AddColumn ''expires_at'']"

definition migration3SQL :: "stmt list" where
  "migration3SQL =
     [RenameColumn ''pair_token'' ''device_token'', AddColumn ''static_key'',
      CopyNonEmpty ''public_key'' ''static_key'',
      DropIndex ''idx_devices_pair_token'', CreateIndex ''idx_devices_device_token'' ''device_token'']"

definition migrations :: "(nat \<times> stmt list) list" where
  "migrations = [(1, migration1SQL), (2, migration2SQL), (3, migration3SQL)]"

datatype migrate_error = CreatingTable | Checking nat | Migration nat | Recording nat

definition migrationsTableSQL :: "dbfile \<Rightarrow> dbfile" where
  "migrationsTableSQL f = (case tracked f of None \<Rightarrow> f\<lparr>tracked := Some []\<rparr> | Some _ \<Rightarrow> f)"

definition versions :: "dbfile \<Rightarrow> nat list" where
  "versions f = (case tracked f of None \<Rightarrow> [] | Some vs \<Rightarrow> vs)"

fun migrateLoop :: "(nat \<times> stmt list) list \<Rightarrow> dbfile \<Rightarrow> (migrate_error + unit) \<times> dbfile" where
  "migrateLoop [] f = (Inr (), f)"
| "migrateLoop ((v, sql) # ms) f =
     (let (ok1, f1) = driver f
      in if \<not> ok1 then (Inl (Checking v), f1)
         else if v \<in> set (versions f1) then migrateLoop ms f1
         else let (ran, f2) = exec_script sql f1
           in if \<not> ran then (Inl (Migration v), f2)
              else let (ok3, f3) = driver f2
                in if \<not> ok3 then (Inl (Recording v), f3)
                   else migrateLoop ms (f3\<lparr>tracked := Some (versions f3 @ [v])\<rparr>))"

definition migrate :: "dbfile \<Rightarrow> (migrate_error + unit) \<times> dbfile" where
  "migrate f =
     (let (ok, f1) = driver f
      in if \<not> ok then (Inl CreatingTable, f1) else migrateLoop migrations (migrationsTableSQL f1))"

section \<open>Lemmas\<close>

lemma driver_ok [simp]: "failing f = [] \<Longrightarrow> driver f = (True, f)"
  by (simp add: driver_def)

text \<open>The file a release with the first \<open>k\<close> migrations leaves, with any rows.\<close>

fun release :: "nat \<Rightarrow> (string \<Rightarrow> string option) list \<Rightarrow> dbfile" where
  "release k rs =
     \<lparr>tracked = (if k = 0 then None else Some [1..<Suc k]),
      table = (if k = 0 then None else Some \<lparr>columns =
        [''id'', ''name'', ''public_key'', if k < 3 then ''pair_token'' else ''device_token'', ''paired_with'',
         ''created_at'', ''last_seen''] @ (if k \<ge> 2 then [''expires_at''] else []) @
        (if k \<ge> 3 then [''static_key''] else []), rows = rs\<rparr>),
      indexes = (if k = 0 then []
        else if k < 3 then [(''idx_devices_pair_token'', ''pair_token''), (''idx_devices_paired_with'', ''paired_with'')]
        else [(''idx_devices_paired_with'', ''paired_with''), (''idx_devices_device_token'', ''device_token'')]),
      failing = []\<rparr>"

text \<open>What the migrations after version \<open>k\<close> make of a row.\<close>

definition upgraded :: "nat \<Rightarrow> (string \<Rightarrow> string option) \<Rightarrow> string \<Rightarrow> string option" where
  "upgraded k r =
     (if k \<ge> 3 then r
      else (let r1 = (if k < 2 then r(''expires_at'' := None) else r);
                r2 = r1(''device_token'' := r1 ''pair_token'', ''pair_token'' := None, ''static_key'' := None)
            in if r ''public_key'' \<noteq> None \<and> r ''public_key'' \<noteq> Some '''' then r2(''static_key'' := r ''public_key'') else r2))"

lemmas migration_defs = migrate_def migrations_def migration1SQL_def migration2SQL_def migration3SQL_def
  migrationsTableSQL_def versions_def Let_def

section \<open>Properties\<close>

text \<open>
  C28: upgrading works from every release. A database left by no release, or by one with the
  first, the first two or all three migrations, and with any rows, is brought to the current
  schema: the call succeeds, all three versions are recorded, the columns and indexes are the
  current ones, every row keeps its token under the new name, and its announced key is the
  non-empty legacy key, if any.
\<close>

theorem migrate_from_any_release:
  assumes "k \<le> 3" and "k = 0 \<longrightarrow> rs = []"
  shows "migrate (release k rs) = (Inr (), release 3 (map (upgraded k) rs))"
proof -
  consider "k = 0" | "k = 1" | "k = 2" | "k = 3"
    using assms(1) by linarith
  then show ?thesis
  proof cases
    case 1
    with assms(2) show ?thesis by (simp add: migration_defs upt_rec)
  next
    case 2
    then show ?thesis by (simp add: migration_defs upt_rec upgraded_def o_def fun_upd_twist)
  next
    case 3
    then show ?thesis by (simp add: migration_defs upt_rec upgraded_def o_def)
  next
    case 4
    then show ?thesis by (simp add: migration_defs upt_rec upgraded_def [abs_def])
  qed
qed

theorem migrate_from_any_release_witness:
  "migrate (release 1 [[''id'' \<mapsto> ''a'', ''pair_token'' \<mapsto> ''t'', ''public_key'' \<mapsto> ''K'']]) =
    (Inr (), release 3 (map (upgraded 1) [[''id'' \<mapsto> ''a'', ''pair_token'' \<mapsto> ''t'', ''public_key'' \<mapsto> ''K'']]))"
  by (rule migrate_from_any_release) simp_all

text \<open>
  Migrations are not atomic. If the driver fails after the statement of migration 2 has
  run and before its version is recorded, every later start of the server fails at migration
  2, because the column already exists, and leaves the file as it is.
\<close>

theorem interrupted_migration_is_fatal:
  "\<exists>fs f. migrate ((release 1 [])\<lparr>failing := fs\<rparr>) = (Inl (Recording 2), f) \<and> failing f = [] \<and>
     migrate f = (Inl (Migration 2), f)"
proof -
  let ?f = "snd (migrate ((release 1 [])\<lparr>failing := [False, False, False, False, True]\<rparr>))"
  have "migrate ((release 1 [])\<lparr>failing := [False, False, False, False, True]\<rparr>) = (Inl (Recording 2), ?f)"
    "failing ?f = []" "migrate ?f = (Inl (Migration 2), ?f)"
    by (simp_all add: migration_defs driver_def)
  then show ?thesis by blast
qed

end
