(* ===== verification/Server_Start.thy ===== *)
theory Server_Start
  imports Front_Ends Rate_Limit Migrations
begin

text \<open>
  The server process: opening the database (\<^verbatim>\<open>internal/database/db.go\<close>), the routing tables of
  the three HTTP servers (\<^verbatim>\<open>internal/api/server.go\<close>, \<^verbatim>\<open>internal/admin/server.go\<close>,
  \<^verbatim>\<open>internal/cli/start.go\<close>), the start command and the status command. Routing follows
  \<^verbatim>\<open>http.ServeMux\<close> on a cleaned path: \<open>GET\<close> patterns also match \<open>HEAD\<close>, a pattern that
  ends in a slash matches the subtree and redirects the path without the slash, and a path that
  only patterns of other methods match is answered with 405.
\<close>

section \<open>Opening the database\<close>

datatype open_error = MkdirDb | OpeningSqlite | PingingSqlite | RunningMigrations migrate_error

definition Open :: "bool \<Rightarrow> bool \<Rightarrow> bool \<Rightarrow> dbfile \<Rightarrow> (open_error + unit) \<times> dbfile" where
  "Open mkdirOk openOk pingOk f =
     (if \<not> mkdirOk then (Inl MkdirDb, f)
      else if \<not> openOk then (Inl OpeningSqlite, f)
      else if \<not> pingOk then (Inl PingingSqlite, f)
      else case migrate f of
        (Inl e, f1) \<Rightarrow> (Inl (RunningMigrations e), f1)
      | (Inr _, f1) \<Rightarrow> (Inr (), f1))"

section \<open>Routing\<close>

record request =
  req_method :: string
  req_path :: string
  req_name :: "string option"
  req_form :: "(device_id \<times> device_id) option"

text \<open>What the environment contributes to answering a request.\<close>

record answerEnv =
  env_now :: time
  env_rnd :: "bytes option"
  env_uuid :: device_id
  env_swap :: bool
  env_errText :: "db_error \<Rightarrow> string"

definition isGet :: "string \<Rightarrow> bool" where
  "isGet m \<longleftrightarrow> m = ''GET'' \<or> m = ''HEAD''"

definition notFound :: httpResponse where
  "notFound = httpError ''404 page not found'' 404"

definition methodNotAllowed :: httpResponse where
  "methodNotAllowed = httpError ''Method Not Allowed'' 405"

definition redirect :: "string \<Rightarrow> httpResponse" where
  "redirect target = \<lparr>status = 301, headers = [(''Location'', target)], body = NoBody\<rparr>"

text \<open>The REST API: \<^verbatim>\<open>api.New\<close>.\<close>

definition apiMux :: "string \<Rightarrow> time \<Rightarrow> answerEnv \<Rightarrow> request \<Rightarrow> relay \<Rightarrow> httpResponse \<times> relay" where
  "apiMux ver apiStart env r s =
     (let create = handleCreateDevice (req_name r) (env_rnd env) (env_uuid env) (env_now env) s
      in if req_path r = ''/api/v1/devices'' then
           (if isGet (req_method r) then handleListDevices s
            else if req_method r = ''POST'' then create
            else (methodNotAllowed, s))
         else if req_path r = ''/api/v1/pair'' then
           (if req_method r = ''POST'' then deprecated create else (methodNotAllowed, s))
         else if req_path r = ''/api/v1/health'' then
           (if isGet (req_method r) then (handleHealth ver apiStart (env_now env) s, s) else (methodNotAllowed, s))
         else (notFound, s))"

definition apiNew :: "string \<Rightarrow> string \<Rightarrow> time \<Rightarrow> answerEnv \<Rightarrow> request \<Rightarrow> relay \<Rightarrow> httpResponse \<times> relay" where
  "apiNew versionDefault ver apiStart env r =
     corsMiddleware (req_method r) (apiMux (if ver = '''' then versionDefault else ver) apiStart env r)"

text \<open>
  The admin server. \<^verbatim>\<open>GET /\<close> matches every path, so an unknown path gets the index page and
  every other method on it 405. \<open>static\<close> answers for the embedded files. The identifier in a
  path is taken as it stands (device identifiers have no percent escapes).
\<close>

definition deletePrefix :: string where
  "deletePrefix = ''/htmx/devices/''"

definition deleteTarget :: "string \<Rightarrow> device_id option" where
  "deleteTarget path =
     (let seg = drop (length deletePrefix) path
      in if prefix deletePrefix path \<and> seg \<noteq> '''' \<and> CHR ''/'' \<notin> set seg then Some seg else None)"

definition adminServe ::
  "(string \<Rightarrow> httpResponse) \<Rightarrow> string \<Rightarrow> answerEnv \<Rightarrow> request \<Rightarrow> relay \<Rightarrow> httpResponse \<times> relay" where
  "adminServe static version env r s =
     (let path = req_path r
      in if isGet (req_method r) then
           (if prefix ''/static/'' path then (static path, s)
            else if path = ''/static'' then (redirect ''/static/'', s)
            else if path = ''/favicon.ico'' then (redirect ''/static/favicon.ico'', s)
            else if path = ''/devices'' then handleDevices version s
            else if path = ''/htmx/devices'' then handleDevicesPartial s
            else if path = ''/api/v1/status'' then (apiStatus version (env_now env) s, s)
            else if path = ''/api/v1/devices'' then apiDevices s
            else handleIndex version (env_now env) s)
         else if req_method r = ''DELETE'' then
           (case deleteTarget path of Some i \<Rightarrow> handleDeleteDevice i s | None \<Rightarrow> (methodNotAllowed, s))
         else if req_method r = ''POST'' \<and> path = ''/htmx/pair'' then
           handlePairDevices (env_errText env) (env_swap env) (req_form r) s
         else (methodNotAllowed, s))"

section \<open>The start command\<close>

record serverPlan =
  plan_relayAddr :: string
  plan_tls :: "(string \<times> string) option"
  plan_adminAddr :: "string option"
  plan_log :: LogCfg

datatype start_error = StartConfig config_error | StartLogger | StartOpen open_error | StartAdmin | StartServer string

definition overrideLog :: "bool \<Rightarrow> bool \<Rightarrow> LogCfg \<Rightarrow> LogCfg" where
  "overrideLog dev debug lg =
     (if dev then lg\<lparr>Log_Level := ''debug'', Log_Format := ''console''\<rparr>
      else if debug then lg\<lparr>Log_Level := ''debug''\<rparr>
      else lg)"

text \<open>
  \<^verbatim>\<open>buildLogger\<close>: the level (an unknown name means info) and whether the development
  configuration is used. \<open>parseLevel\<close> is the logging library's table of names.
\<close>

definition buildLogger :: "(string \<Rightarrow> 'l option) \<Rightarrow> 'l \<Rightarrow> string \<Rightarrow> string \<Rightarrow> 'l \<times> bool" where
  "buildLogger parseLevel info level format =
     ((case parseLevel level of Some l \<Rightarrow> l | None \<Rightarrow> info), format = ''console'')"

text \<open>
  \<^verbatim>\<open>runStart\<close> up to the point where the servers listen; \<open>opened\<close> is what \<open>Open\<close> returned.
\<close>

definition startPlan ::
  "config_error + (Config \<times> config_error option) \<Rightarrow> bool \<Rightarrow> bool \<Rightarrow> bool \<Rightarrow> open_error + unit \<Rightarrow> bool \<Rightarrow> start_error + serverPlan" where
  "startPlan loaded dev debug loggerOk opened adminOk =
     (case loaded of
        Inl e \<Rightarrow> Inl (StartConfig e)
      | Inr (cfg, Some e) \<Rightarrow> Inl (StartConfig e)
      | Inr (cfg, None) \<Rightarrow>
          (if \<not> loggerOk then Inl StartLogger
           else case opened of
             Inl e \<Rightarrow> Inl (StartOpen e)
           | Inr _ \<Rightarrow>
               (if Admin_Enabled (Admin cfg) \<and> \<not> adminOk then Inl StartAdmin
                else Inr \<lparr>plan_relayAddr = Addr cfg,
                  plan_tls = (if TLS_Enabled (TLS cfg) then Some (TLS_Cert (TLS cfg), TLS_Key (TLS cfg)) else None),
                  plan_adminAddr = (if Admin_Enabled (Admin cfg) then Some (AdminAddr cfg) else None),
                  plan_log = overrideLog dev debug (Log cfg)\<rparr>)))"

text \<open>
  The routes of the relay's own server: the WebSocket endpoint behind the rate limiter, the
  health check and the REST API.
\<close>

datatype relayRoute = WsRoute | HealthRoute | ApiRoute | ApiRedirect | NoRoute

definition relayRoutes :: "string \<Rightarrow> relayRoute" where
  "relayRoutes path =
     (if path = ''/ws'' then WsRoute
      else if path = ''/health'' then HealthRoute
      else if prefix ''/api/'' path then ApiRoute
      else if path = ''/api'' then ApiRedirect
      else NoRoute)"

definition wsEndpoint ::
  "WSCfg \<Rightarrow> time \<Rightarrow> string \<Rightarrow> device_id \<Rightarrow> string \<Rightarrow> bool \<Rightarrow> cid \<Rightarrow> IPRateLimiter \<times> relay \<Rightarrow> handlerResult \<times> IPRateLimiter \<times> relay" where
  "wsEndpoint cfg now remoteAddr deviceID token upgradeOk c st =
     (let (rl, s) = st in
      case RateLimitMiddleware now remoteAddr rl of
        (Inl code, rl') \<Rightarrow> (HttpError code, rl', s)
      | (Inr _, rl') \<Rightarrow> (let (r, s') = Handler cfg now deviceID token upgradeOk c s in (r, rl', s')))"

text \<open>
  What the select at the end of \<^verbatim>\<open>runStart\<close> waits for: a server that returns (\<open>None\<close>: without an
  error, or because it was closed), or the signal. \<open>None\<close> as a result: still serving. After the signal
  both servers are shut down, the relay first.
\<close>

datatype serverEvent = RelayReturned "string option" | AdminReturned "string option" | Interrupted

datatype shutdownCall = ShutdownRelay | ShutdownAdmin

fun awaitStop :: "serverPlan \<Rightarrow> serverEvent list \<Rightarrow> (start_error option \<times> shutdownCall list) option" where
  "awaitStop plan [] = None"
| "awaitStop plan (RelayReturned r # es) =
     (case r of
        None \<Rightarrow> awaitStop plan es
      | Some e \<Rightarrow> Some (Some (StartServer (''relay server on '' @ plan_relayAddr plan @ '': '' @ e)), []))"
| "awaitStop plan (AdminReturned r # es) =
     (case (r, plan_adminAddr plan) of
        (Some e, Some addr) \<Rightarrow> Some (Some (StartServer (''admin server on '' @ addr @ '': '' @ e)), [])
      | _ \<Rightarrow> awaitStop plan es)"
| "awaitStop plan (Interrupted # es) =
     Some (None, ShutdownRelay # (case plan_adminAddr plan of None \<Rightarrow> [] | Some _ \<Rightarrow> [ShutdownAdmin]))"

definition runStart ::
  "config_error + (Config \<times> config_error option) \<Rightarrow> bool \<Rightarrow> bool \<Rightarrow> bool \<Rightarrow> open_error + unit \<Rightarrow> bool \<Rightarrow> serverEvent list \<Rightarrow>
    (start_error option \<times> shutdownCall list) option" where
  "runStart loaded dev debug loggerOk opened adminOk es =
     (case startPlan loaded dev debug loggerOk opened adminOk of Inl e \<Rightarrow> Some (Some e, []) | Inr plan \<Rightarrow> awaitStop plan es)"

section \<open>The root command\<close>

definition Info :: "string \<Rightarrow> string \<Rightarrow> string \<Rightarrow> string" where
  "Info version commit buildTime = ''relayly '' @ version @ '' (commit='' @ commit @ '' built='' @ buildTime @ '')''"

text \<open>The exit status, from the error of the command that ran.\<close>

definition Execute :: "string option \<Rightarrow> nat" where
  "Execute err = (case err of None \<Rightarrow> 0 | Some _ \<Rightarrow> 1)"

section \<open>The pages of the admin server\<close>

text \<open>
  \<open>parses\<close> and \<open>executes\<close> are the outcomes of the template library. Data that is a map gets the
  year, unless it has one.
\<close>

datatype 'v pageData = PageMap "string \<rightharpoonup> 'v" | PageOther

definition templateFiles :: "string \<Rightarrow> string list" where
  "templateFiles name =
     (if drop (length name - 5) name = ''.html'' then [''base.html'', ''partials/*.html'', name] else [''partials/*.html''])"

definition withYear :: "'v \<Rightarrow> 'v pageData \<Rightarrow> 'v pageData" where
  "withYear year d = (case d of PageMap m \<Rightarrow> PageMap (if m ''Year'' = None then m(''Year'' \<mapsto> year) else m) | PageOther \<Rightarrow> PageOther)"

definition render ::
  "(string list \<Rightarrow> bool) \<Rightarrow> (string \<Rightarrow> 'v pageData \<Rightarrow> string) \<Rightarrow> 'v \<Rightarrow> string \<Rightarrow> 'v pageData \<Rightarrow> nat \<times> string \<times> string" where
  "render parses executes year name d =
     (if \<not> parses (templateFiles name) then (500, ''text/plain; charset=utf-8'', ''render error'')
      else (200, ''text/html; charset=utf-8'', executes name (withYear year d)))"

section \<open>The status command\<close>

datatype status_error = Connecting string | ReadingBody | ParsingResponse

text \<open>
  \<open>got\<close> is the answer of the admin server: \<open>None\<close> when the request failed, then whether the body
  could be read, and what it parses to. The result is what is printed.
\<close>

definition runStatus :: "string \<Rightarrow> string \<Rightarrow> (bool \<times> string \<times> adminStatus option) option \<Rightarrow> status_error + string list" where
  "runStatus adminURL format got =
     (case got of
        None \<Rightarrow> Inl (Connecting adminURL)
      | Some (readOk, raw, parsed) \<Rightarrow>
          (if \<not> readOk then Inl ReadingBody
           else case parsed of
             None \<Rightarrow> Inl ParsingResponse
           | Some st \<Rightarrow>
               (if format = ''json'' then Inr [raw]
                else Inr [''  Status:    '' @ admin_Status st, ''  Version:   '' @ admin_Version st,
                  ''  Connected: '' @ showInt (int (admin_Connected st)) @ '' device(s)'',
                  ''  Uptime:    '' @ admin_Uptime st])))"

section \<open>Lemmas\<close>

lemma deleteTarget_Some: "deleteTarget path = Some i \<Longrightarrow> path = deletePrefix @ i"
  by (auto simp: deleteTarget_def Let_def prefix_def split: if_splits)

lemma ListDevices_keeps [simp]: "devices (snd (ListDevices d)) = devices d"
  by (rule ListDevices_cases [of d]) simp_all

lemma reads_keep:
  "devices (store (snd (handleIndex v now s))) = devices (store s)"
  "devices (store (snd (handleDevices v s))) = devices (store s)"
  "devices (store (snd (handleDevicesPartial s))) = devices (store s)"
  "devices (store (snd (apiDevices s))) = devices (store s)"
  "devices (store (snd (handleListDevices s))) = devices (store s)"
  using ListDevices_keeps [of "store s"]
  by (auto simp: handleIndex_def handleDevices_def handleDevicesPartial_def apiDevices_def handleListDevices_def withStore_def
      split: prod.split sum.split simp del: ListDevices_keeps)

lemma handleDeleteDevice_store: "store (snd (handleDeleteDevice i s)) = snd (DeleteDevice i (store s))"
  by (simp add: handleDeleteDevice_def withStore_def split: prod.split sum.split)

lemma handlePairDevices_store:
  "devices (store (snd (handlePairDevices tx swap form s))) = devices (store s) \<or>
   (\<exists>a b. form = Some (a, b) \<and> a \<noteq> '''' \<and> b \<noteq> '''' \<and> a \<noteq> b \<and>
     devices (store (snd (handlePairDevices tx swap form s))) = devices (snd (PairDevices swap a b (store s))))"
  using reads_keep(3)
  by (auto simp: handlePairDevices_def withStore_def split: option.split prod.split sum.split)

text \<open>
  The start command stops for a reason: with an error exactly when the plan failed or a server it
  started failed before the signal, and then without a shutdown; otherwise it shuts down every
  server it started.
\<close>

lemma awaitStop_reason:
  "awaitStop plan es = Some (Some e, acts) \<Longrightarrow> acts = [] \<and>
     (\<exists>us vs err. es = us @ RelayReturned (Some err) # vs \<or> es = us @ AdminReturned (Some err) # vs \<and> plan_adminAddr plan \<noteq> None)"
proof (induction plan es rule: awaitStop.induct)
  case (2 plan r es)
  then show ?case by (cases r) (auto, (metis append_Cons append_Nil)+)
next
  case (3 plan r es)
  then show ?case by (cases r; cases "plan_adminAddr plan") (auto, (metis append_Cons append_Nil)+)
qed auto

lemma awaitStop_graceful:
  "awaitStop plan es = Some (None, acts) \<Longrightarrow> Interrupted \<in> set es \<and> ShutdownRelay \<in> set acts \<and> (ShutdownAdmin \<in> set acts \<longleftrightarrow> plan_adminAddr plan \<noteq> None)"
  by (induction plan es rule: awaitStop.induct) (auto split: option.splits)

section \<open>Properties\<close>

text \<open>
  C23: what the admin server can change. Whatever request it gets, the table stays as it is,
  unless the request is a \<open>DELETE\<close> of one device by its identifier or a \<open>POST\<close> of the pairing
  form with two different, non-empty identifiers; these do to the table exactly what
  \<open>DeleteDevice\<close> and \<open>PairDevices\<close> do. In particular no page and no status request writes.
\<close>

theorem admin_effects:
  "let s' = snd (adminServe static version env r s) in
   devices (store s') = devices (store s) \<or>
   (\<exists>i. req_method r = ''DELETE'' \<and> req_path r = ''/htmx/devices/'' @ i \<and> store s' = snd (DeleteDevice i (store s))) \<or>
   (\<exists>a b. req_method r = ''POST'' \<and> req_path r = ''/htmx/pair'' \<and> req_form r = Some (a, b) \<and> a \<noteq> '''' \<and> b \<noteq> '''' \<and> a \<noteq> b \<and>
     devices (store s') = devices (snd (PairDevices (env_swap env) a b (store s))))"
proof (cases "isGet (req_method r)")
  case True
  then show ?thesis by (simp add: adminServe_def Let_def reads_keep)
next
  case notGet: False
  show ?thesis
  proof (cases "req_method r = ''DELETE''")
    case True
    then show ?thesis
      using notGet deleteTarget_Some [of "req_path r"]
      by (auto simp: adminServe_def Let_def handleDeleteDevice_store deletePrefix_def split: option.split)
  next
    case False
    then show ?thesis
      using notGet handlePairDevices_store [of "env_errText env" "env_swap env" "req_form r" s]
      by (auto simp: adminServe_def Let_def)
  qed
qed

end
