(* ===== verification/Config_Load.thy ===== *)
theory Config_Load
  imports Server_Start
begin

text \<open>
  Loading the configuration (\<^verbatim>\<open>Load\<close> and \<^verbatim>\<open>setDefaults\<close> of \<^verbatim>\<open>internal/config/config.go\<close>) as the calls it makes on the
  Viper library. The library is a record of functions over a state of its own;
  \<open>viper_contract\<close> says what is documented of it: what each call sets, where it looks for files, and the
  order in which it asks its sources for a key. Decoding a value into a field is the business
  of the library too and is a record of functions.
\<close>

section \<open>The library\<close>

datatype cfgVal = VStr string | VInt int | VBool bool | VDur duration

type_synonym settings = "string \<Rightarrow> cfgVal option"

text \<open>A flag has a value and is either given on the command line or left at its default.\<close>

type_synonym flagSet = "string \<Rightarrow> (cfgVal \<times> bool) option"

record 'v viperLib =
  vNew :: 'v
  vBindPFlags :: "flagSet \<Rightarrow> 'v \<Rightarrow> 'v option"
  vSetEnvPrefix :: "string \<Rightarrow> 'v \<Rightarrow> 'v"
  vSetEnvKeyReplacer :: "char \<Rightarrow> char \<Rightarrow> 'v \<Rightarrow> 'v"
  vAutomaticEnv :: "'v \<Rightarrow> 'v"
  vSetDefault :: "string \<Rightarrow> cfgVal \<Rightarrow> 'v \<Rightarrow> 'v"
  vSetConfigFile :: "string \<Rightarrow> 'v \<Rightarrow> 'v"
  vSetConfigName :: "string \<Rightarrow> 'v \<Rightarrow> 'v"
  vSetConfigType :: "string \<Rightarrow> 'v \<Rightarrow> 'v"
  vAddConfigPath :: "string \<Rightarrow> 'v \<Rightarrow> 'v"
  vReadInConfig :: "'v \<Rightarrow> read_result \<times> 'v"
  vMergeInConfig :: "'v \<Rightarrow> 'v"
  vUnmarshal :: "'v \<Rightarrow> Config option"

section \<open>Loading\<close>

definition applyDefaults :: "'v viperLib \<Rightarrow> 'v \<Rightarrow> 'v" where
  "applyDefaults L v =
     fold (\<lambda>(key, val). vSetDefault L key val)
       [(''host'', VStr ''0.0.0.0''), (''port'', VInt 8080), (''tls.enabled'', VBool False), (''db.path'', VStr ''./data/relayly.db''),
        (''admin.enabled'', VBool True), (''admin.host'', VStr ''127.0.0.1''), (''admin.port'', VInt 8081),
        (''log.level'', VStr ''info''), (''log.format'', VStr ''json''),
        (''websocket.max_message_bytes'', VInt 65536), (''websocket.ping_interval'', VDur (30 * Second)),
        (''websocket.deadline'', VDur (60 * Second))] v"

text \<open>
  The result: an error, or the configuration together with the outcome of its validation,
  which \<^verbatim>\<open>Load\<close> returns side by side.
\<close>

definition Load :: "'v viperLib \<Rightarrow> string \<Rightarrow> flagSet option \<Rightarrow> config_error + (Config \<times> config_error option)" where
  "Load L cfgFile flags =
     (case (case flags of None \<Rightarrow> Some (vNew L) | Some fs \<Rightarrow> vBindPFlags L fs (vNew L)) of
        None \<Rightarrow> Inl BindingFlags
      | Some v \<Rightarrow>
          (let v1 = vAutomaticEnv L (vSetEnvKeyReplacer L (CHR ''.'') (CHR ''_'') (vSetEnvPrefix L ''RELAYLY'' v));
               v2 = applyDefaults L v1;
               v3 = (if cfgFile \<noteq> '''' then vSetConfigFile L cfgFile v2
                     else vAddConfigPath L ''.'' (vAddConfigPath L ''$HOME/.relayly'' (vAddConfigPath L ''./config''
                            (vSetConfigType L ''yaml'' (vSetConfigName L ''relayly'' v2)))));
               (rd, v4) = vReadInConfig L v3
           in if rd = ConfigReadError then Inl ReadingConfig
              else case vUnmarshal L (vMergeInConfig L (vSetConfigName L ''relayly.local'' v4)) of
                     None \<Rightarrow> Inl ParsingConfig
                   | Some cfg \<Rightarrow> Inr (cfg, validate cfg)))"

section \<open>What is documented of the library\<close>

text \<open>What the calls have set so far.\<close>

record viperView =
  vw_flags :: flagSet
  vw_prefix :: string
  vw_replacer :: "(char \<times> char) option"
  vw_auto :: bool
  vw_defaults :: settings
  vw_file :: string
  vw_name :: string
  vw_type :: string
  vw_paths :: "string list"
  vw_config :: settings

definition freshView :: viperView where
  "freshView = \<lparr>vw_flags = (\<lambda>_. None), vw_prefix = '''', vw_replacer = None, vw_auto = False, vw_defaults = (\<lambda>_. None),
     vw_file = '''', vw_name = ''config'', vw_type = '''', vw_paths = [], vw_config = (\<lambda>_. None)\<rparr>"

definition upperChar :: "char \<Rightarrow> char" where
  "upperChar c = (if 97 \<le> (of_char c :: nat) \<and> (of_char c :: nat) \<le> 122 then char_of ((of_char c :: nat) - 32) else c)"

text \<open>The variable for a key: prefix and key in upper case, with the replacement.\<close>

definition envName :: "viperView \<Rightarrow> string \<Rightarrow> string" where
  "envName w key =
     (let n = map upperChar (vw_prefix w @ ''_'' @ key)
      in case vw_replacer w of None \<Rightarrow> n | Some (a, b) \<Rightarrow> map (\<lambda>c. if c = a then b else c) n)"

text \<open>
  The value of a key: a flag that was given, the environment, the files, the defaults, a flag's own
  default. Unmarshalling goes through the keys it knows of, from the flags, the files and the
  defaults; the environment alone does not make a key known. An empty variable counts as unset.
\<close>

definition knownKey :: "viperView \<Rightarrow> string \<Rightarrow> bool" where
  "knownKey w key \<longleftrightarrow> vw_flags w key \<noteq> None \<or> vw_config w key \<noteq> None \<or> vw_defaults w key \<noteq> None"

definition storedSetting :: "viperView \<Rightarrow> string \<Rightarrow> cfgVal option" where
  "storedSetting w key =
     (case vw_config w key of
        Some val \<Rightarrow> Some val
      | None \<Rightarrow> (case vw_defaults w key of Some val \<Rightarrow> Some val | None \<Rightarrow> map_option fst (vw_flags w key)))"

definition viperFind :: "(string \<Rightarrow> string option) \<Rightarrow> viperView \<Rightarrow> string \<Rightarrow> cfgVal option" where
  "viperFind env w key =
     (if \<not> knownKey w key then None
      else if (case vw_flags w key of Some (_, given) \<Rightarrow> given | None \<Rightarrow> False) then map_option fst (vw_flags w key)
      else case (if vw_auto w then env (envName w key) else None) of
             None \<Rightarrow> storedSetting w key
           | Some s \<Rightarrow> (if s = '''' then storedSetting w key else Some (VStr s)))"

record decoders =
  asString :: "cfgVal \<Rightarrow> string option"
  asInt :: "cfgVal \<Rightarrow> int option"
  asBool :: "cfgVal \<Rightarrow> bool option"
  asDur :: "cfgVal \<Rightarrow> duration option"

text \<open>A field without a value keeps its zero value.\<close>

definition fieldOf :: "(cfgVal \<Rightarrow> 'a option) \<Rightarrow> 'a \<Rightarrow> cfgVal option \<Rightarrow> 'a option" where
  "fieldOf dec z v = (case v of None \<Rightarrow> Some z | Some val \<Rightarrow> dec val)"

definition decodeConfig :: "decoders \<Rightarrow> (string \<Rightarrow> cfgVal option) \<Rightarrow> Config option" where
  "decodeConfig D look =
     Option.bind (fieldOf (asString D) '''' (look ''host'')) (\<lambda>host.
     Option.bind (fieldOf (asInt D) 0 (look ''port'')) (\<lambda>port.
     Option.bind (fieldOf (asBool D) False (look ''tls.enabled'')) (\<lambda>tls.
     Option.bind (fieldOf (asString D) '''' (look ''tls.cert'')) (\<lambda>cert.
     Option.bind (fieldOf (asString D) '''' (look ''tls.key'')) (\<lambda>key.
     Option.bind (fieldOf (asString D) '''' (look ''db.path'')) (\<lambda>path.
     Option.bind (fieldOf (asBool D) False (look ''admin.enabled'')) (\<lambda>aen.
     Option.bind (fieldOf (asString D) '''' (look ''admin.host'')) (\<lambda>ahost.
     Option.bind (fieldOf (asInt D) 0 (look ''admin.port'')) (\<lambda>aport.
     Option.bind (fieldOf (asString D) '''' (look ''log.level'')) (\<lambda>level.
     Option.bind (fieldOf (asString D) '''' (look ''log.format'')) (\<lambda>fmt.
     Option.bind (fieldOf (asInt D) 0 (look ''websocket.max_message_bytes'')) (\<lambda>mmb.
     Option.bind (fieldOf (asDur D) 0 (look ''websocket.ping_interval'')) (\<lambda>pi.
     Option.bind (fieldOf (asDur D) 0 (look ''websocket.deadline'')) (\<lambda>dl.
       Some \<lparr>Host = host, Port = port, TLS = \<lparr>TLS_Enabled = tls, TLS_Cert = cert, TLS_Key = key\<rparr>, DB = \<lparr>DB_Path = path\<rparr>,
             Admin = \<lparr>Admin_Enabled = aen, Admin_Host = ahost, Admin_Port = aport\<rparr>, Log = \<lparr>Log_Level = level, Log_Format = fmt\<rparr>,
             WebSocket = \<lparr>MaxMessageBytes = mmb, PingInterval = pi, Deadline = dl\<rparr>\<rparr>))))))))))))))"

text \<open>
  The files: \<open>explicit\<close> gives the contents of a file named in full, \<open>search\<close> looks for a name in a list of directories. Setting
  a name forgets a file named in full.
\<close>

record configFiles =
  explicit :: "string \<Rightarrow> read_result \<times> settings"
  search :: "string \<Rightarrow> string list \<Rightarrow> read_result \<times> settings"

definition readTarget :: "configFiles \<Rightarrow> viperView \<Rightarrow> read_result \<times> settings" where
  "readTarget F w = (if vw_file w \<noteq> '''' then explicit F (vw_file w) else search F (vw_name w) (vw_paths w))"

definition viper_contract ::
  "'v viperLib \<Rightarrow> ('v \<Rightarrow> viperView) \<Rightarrow> (string \<Rightarrow> string option) \<Rightarrow> configFiles \<Rightarrow> decoders \<Rightarrow> bool" where
  "viper_contract L V env F D \<longleftrightarrow>
     V (vNew L) = freshView \<and>
     (\<forall>fs v. \<exists>v'. vBindPFlags L fs v = Some v' \<and> V v' = (V v)\<lparr>vw_flags := fs\<rparr>) \<and>
     (\<forall>p v. V (vSetEnvPrefix L p v) = (V v)\<lparr>vw_prefix := p\<rparr>) \<and>
     (\<forall>a b v. V (vSetEnvKeyReplacer L a b v) = (V v)\<lparr>vw_replacer := Some (a, b)\<rparr>) \<and>
     (\<forall>v. V (vAutomaticEnv L v) = (V v)\<lparr>vw_auto := True\<rparr>) \<and>
     (\<forall>k x v. V (vSetDefault L k x v) = (V v)\<lparr>vw_defaults := (vw_defaults (V v))(k \<mapsto> x)\<rparr>) \<and>
     (\<forall>f v. V (vSetConfigFile L f v) = (V v)\<lparr>vw_file := f\<rparr>) \<and>
     (\<forall>n v. V (vSetConfigName L n v) = (V v)\<lparr>vw_name := n, vw_file := ''''\<rparr>) \<and>
     (\<forall>t v. V (vSetConfigType L t v) = (V v)\<lparr>vw_type := t\<rparr>) \<and>
     (\<forall>p v. V (vAddConfigPath L p v) = (V v)\<lparr>vw_paths := vw_paths (V v) @ [p]\<rparr>) \<and>
     (\<forall>v. \<exists>v'. vReadInConfig L v = (fst (readTarget F (V v)), v') \<and>
        V v' = (if fst (readTarget F (V v)) = ConfigRead then (V v)\<lparr>vw_config := snd (readTarget F (V v))\<rparr> else V v)) \<and>
     (\<forall>v. V (vMergeInConfig L v) =
        (if fst (readTarget F (V v)) = ConfigRead then (V v)\<lparr>vw_config := vw_config (V v) ++ snd (readTarget F (V v))\<rparr> else V v)) \<and>
     (\<forall>v. vUnmarshal L v = decodeConfig D (viperFind env (V v)))"

text \<open>Without a directory to look in, nothing is found.\<close>

definition files_contract :: "configFiles \<Rightarrow> bool" where
  "files_contract F \<longleftrightarrow> (\<forall>n. search F n [] = (ConfigFileNotFound, (\<lambda>_. None)))"

section \<open>What loading does\<close>

definition defaultSettings :: settings where
  "defaultSettings = map_of
     [(''host'', VStr ''0.0.0.0''), (''port'', VInt 8080), (''tls.enabled'', VBool False), (''db.path'', VStr ''./data/relayly.db''),
      (''admin.enabled'', VBool True), (''admin.host'', VStr ''127.0.0.1''), (''admin.port'', VInt 8081),
      (''log.level'', VStr ''info''), (''log.format'', VStr ''json''),
      (''websocket.max_message_bytes'', VInt 65536), (''websocket.ping_interval'', VDur (30 * Second)),
      (''websocket.deadline'', VDur (60 * Second))]"

definition configPaths :: "string list" where
  "configPaths = [''./config'', ''$HOME/.relayly'', ''.'']"

text \<open>The outcome of reading the main file, and the settings of the files with the local ones on top.\<close>

definition fileSettings :: "configFiles \<Rightarrow> string \<Rightarrow> read_result \<times> settings" where
  "fileSettings F cfgFile =
     (let (rd, m) = (if cfgFile \<noteq> '''' then explicit F cfgFile else search F ''relayly'' configPaths);
          (rd', m') = search F ''relayly.local'' (if cfgFile \<noteq> '''' then [] else configPaths)
      in (rd, (if rd = ConfigRead then m else (\<lambda>_. None)) ++ (if rd' = ConfigRead then m' else (\<lambda>_. None))))"

definition givenFlags :: "flagSet option \<Rightarrow> flagSet" where
  "givenFlags flags = (case flags of None \<Rightarrow> (\<lambda>_. None) | Some fs \<Rightarrow> fs)"

definition envVariable :: "string \<Rightarrow> string" where
  "envVariable key = ''RELAYLY_'' @ map (\<lambda>c. if c = CHR ''.'' then CHR ''_'' else upperChar c) key"

definition loadView :: "flagSet option \<Rightarrow> string \<Rightarrow> string \<Rightarrow> string list \<Rightarrow> settings \<Rightarrow> viperView" where
  "loadView flags name ty paths m =
     \<lparr>vw_flags = givenFlags flags, vw_prefix = ''RELAYLY'', vw_replacer = Some (CHR ''.'', CHR ''_''), vw_auto = True,
      vw_defaults = defaultSettings, vw_file = '''', vw_name = name, vw_type = ty, vw_paths = paths, vw_config = m\<rparr>"

lemma upperChar_dot: "upperChar c = CHR ''.'' \<longleftrightarrow> c = CHR ''.''"
proof -
  have "upperChar c = CHR ''.'' \<Longrightarrow> c = CHR ''.''"
  proof (cases "97 \<le> (of_char c :: nat) \<and> (of_char c :: nat) \<le> 122")
    case True
    assume "upperChar c = CHR ''.''"
    then have "of_char (char_of ((of_char c :: nat) - 32) :: char) = (of_char (CHR ''.'') :: nat)" using True by (simp add: upperChar_def)
    moreover have "of_char (char_of ((of_char c :: nat) - 32) :: char) = (of_char c :: nat) - 32"
    proof -
      have "(of_char c :: nat) - 32 < 256" using True by linarith
      then show ?thesis by simp
    qed
    ultimately have "(of_char c :: nat) - 32 = 46" by simp
    with True have False by linarith
    then show ?thesis ..
  qed (auto simp: upperChar_def)
  moreover have "upperChar (CHR ''.'') = CHR ''.''" by (simp add: upperChar_def)
  ultimately show ?thesis by blast
qed

lemma envName_load: "envName (loadView flags name ty paths m) key = envVariable key"
proof -
  have "map (\<lambda>c. if c = CHR ''.'' then CHR ''_'' else c) (map upperChar ''RELAYLY_'') = ''RELAYLY_''"
    by (simp add: upperChar_def)
  then show ?thesis by (simp add: envName_def loadView_def envVariable_def upperChar_dot)
qed

lemma applyDefaults_view:
  assumes "viper_contract L V env F D"
  shows "V (applyDefaults L v) = (V v)\<lparr>vw_defaults := vw_defaults (V v) ++ defaultSettings\<rparr>"
  using assms unfolding viper_contract_def
  by (auto simp: applyDefaults_def defaultSettings_def map_add_def fun_eq_iff intro!: viperView.equality)

text \<open>
  The value of a key after loading: the command line, the environment for a key that something
  else mentions, the local file, the main file, the default.
\<close>

definition loadedSetting :: "(string \<Rightarrow> string option) \<Rightarrow> flagSet option \<Rightarrow> settings \<Rightarrow> string \<Rightarrow> cfgVal option" where
  "loadedSetting env flags m key = viperFind env (loadView flags '''' '''' [] m) key"

lemma loadView_fields:
  "vw_flags (loadView flags name ty paths m) = givenFlags flags" "vw_auto (loadView flags name ty paths m) = True"
  "vw_defaults (loadView flags name ty paths m) = defaultSettings" "vw_config (loadView flags name ty paths m) = m"
  by (simp_all add: loadView_def)

lemma viperFind_load: "viperFind env (loadView flags name ty paths m) key = loadedSetting env flags m key"
  unfolding loadedSetting_def viperFind_def knownKey_def storedSetting_def envName_load loadView_fields by (rule refl)

lemma viper_laws:
  assumes "viper_contract L V env F D"
  shows "V (vNew L) = freshView"
    and "\<exists>v'. vBindPFlags L fs v = Some v' \<and> V v' = (V v)\<lparr>vw_flags := fs\<rparr>"
    and "V (vSetEnvPrefix L p v) = (V v)\<lparr>vw_prefix := p\<rparr>"
    and "V (vSetEnvKeyReplacer L a b v) = (V v)\<lparr>vw_replacer := Some (a, b)\<rparr>"
    and "V (vAutomaticEnv L v) = (V v)\<lparr>vw_auto := True\<rparr>"
    and "V (vSetConfigFile L f v) = (V v)\<lparr>vw_file := f\<rparr>"
    and "V (vSetConfigName L n v) = (V v)\<lparr>vw_name := n, vw_file := ''''\<rparr>"
    and "V (vSetConfigType L t v) = (V v)\<lparr>vw_type := t\<rparr>"
    and "V (vAddConfigPath L d v) = (V v)\<lparr>vw_paths := vw_paths (V v) @ [d]\<rparr>"
    and "\<exists>v'. vReadInConfig L v = (fst (readTarget F (V v)), v') \<and>
        V v' = (if fst (readTarget F (V v)) = ConfigRead then (V v)\<lparr>vw_config := snd (readTarget F (V v))\<rparr> else V v)"
    and "V (vMergeInConfig L v) =
        (if fst (readTarget F (V v)) = ConfigRead then (V v)\<lparr>vw_config := vw_config (V v) ++ snd (readTarget F (V v))\<rparr> else V v)"
    and "vUnmarshal L v = decodeConfig D (viperFind env (V v))"
proof -
  note l = assms [unfolded viper_contract_def]
  show "\<exists>v'. vBindPFlags L fs v = Some v' \<and> V v' = (V v)\<lparr>vw_flags := fs\<rparr>" by (rule l [THEN conjunct2, THEN conjunct1, rule_format])
  show "\<exists>v'. vReadInConfig L v = (fst (readTarget F (V v)), v') \<and>
        V v' = (if fst (readTarget F (V v)) = ConfigRead then (V v)\<lparr>vw_config := snd (readTarget F (V v))\<rparr> else V v)"
    by (rule l [THEN conjunct2, THEN conjunct2, THEN conjunct2, THEN conjunct2, THEN conjunct2, THEN conjunct2, THEN conjunct2, THEN conjunct2,
          THEN conjunct2, THEN conjunct2, THEN conjunct1, rule_format])
qed (use assms [unfolded viper_contract_def] in simp_all)

lemma Load_sources:
  assumes "viper_contract L V env F D" and "files_contract F"
  shows "Load L cfgFile flags =
    (let (rd, m) = fileSettings F cfgFile
     in if rd = ConfigReadError then Inl ReadingConfig
        else case decodeConfig D (loadedSetting env flags m) of None \<Rightarrow> Inl ParsingConfig | Some cfg \<Rightarrow> Inr (cfg, validate cfg))"
proof -
  note c = viper_laws [OF assms(1)]
  obtain v where v: "(case flags of None \<Rightarrow> Some (vNew L) | Some fs \<Rightarrow> vBindPFlags L fs (vNew L)) = Some v"
    "V v = freshView\<lparr>vw_flags := givenFlags flags\<rparr>"
  proof (cases flags)
    case None
    then show thesis using that [of "vNew L"] c(1) by (simp add: givenFlags_def freshView_def)
  next
    case (Some fs)
    obtain v' where "vBindPFlags L fs (vNew L) = Some v'" "V v' = (V (vNew L))\<lparr>vw_flags := fs\<rparr>" using c(2) by blast
    then show thesis using that [of v'] Some c(1) by (simp add: givenFlags_def)
  qed
  define v2 where "v2 = applyDefaults L (vAutomaticEnv L (vSetEnvKeyReplacer L (CHR ''.'') (CHR ''_'') (vSetEnvPrefix L ''RELAYLY'' v)))"
  have v2: "V v2 = (loadView flags ''config'' '''' [] (\<lambda>_. None))"
    using v(2) by (simp add: c(3-5) v2_def applyDefaults_view [OF assms(1)] loadView_def freshView_def)
  define v3 where "v3 = (if cfgFile \<noteq> '''' then vSetConfigFile L cfgFile v2
     else vAddConfigPath L ''.'' (vAddConfigPath L ''$HOME/.relayly'' (vAddConfigPath L ''./config''
       (vSetConfigType L ''yaml'' (vSetConfigName L ''relayly'' v2)))))"
  have v3: "V v3 = (if cfgFile \<noteq> '''' then (loadView flags ''config'' '''' [] (\<lambda>_. None))\<lparr>vw_file := cfgFile\<rparr>
     else loadView flags ''relayly'' ''yaml'' configPaths (\<lambda>_. None))"
    using v2 by (simp add: c(6-9) v3_def loadView_def configPaths_def)
  obtain v4 where v4: "vReadInConfig L v3 = (fst (readTarget F (V v3)), v4)"
    "V v4 = (if fst (readTarget F (V v3)) = ConfigRead then (V v3)\<lparr>vw_config := snd (readTarget F (V v3))\<rparr> else V v3)"
    using c(10) by blast
  let ?v5 = "vMergeInConfig L (vSetConfigName L ''relayly.local'' v4)"
  have nm: "V (vSetConfigName L ''relayly.local'' v4) = (V v4)\<lparr>vw_name := ''relayly.local'', vw_file := ''''\<rparr>"
    and mg: "V ?v5 = (let w = V (vSetConfigName L ''relayly.local'' v4); r = readTarget F w
      in if fst r = ConfigRead then w\<lparr>vw_config := vw_config w ++ snd r\<rparr> else w)"
    and un: "vUnmarshal L ?v5 = decodeConfig D (viperFind env (V ?v5))" by (simp_all add: c(7,11,12) Let_def)
  have rd: "fst (readTarget F (V v3)) = fst (fileSettings F cfgFile)"
    using v3 by (simp add: readTarget_def fileSettings_def loadView_def case_prod_beta Let_def)
  have "V ?v5 = loadView flags ''relayly.local'' (if cfgFile \<noteq> '''' then '''' else ''yaml'') (if cfgFile \<noteq> '''' then [] else configPaths)
      (snd (fileSettings F cfgFile))"
    using assms(2) unfolding mg nm v4(2) v3
    by (simp add: readTarget_def fileSettings_def loadView_def case_prod_beta files_contract_def Let_def)
  then have "viperFind env (V ?v5) = loadedSetting env flags (snd (fileSettings F cfgFile))"
    by (simp add: viperFind_load fun_eq_iff)
  then have un': "vUnmarshal L ?v5 = decodeConfig D (loadedSetting env flags (snd (fileSettings F cfgFile)))" using un by simp
  have "Load L cfgFile flags =
    (let (rd, v4) = vReadInConfig L v3
     in if rd = ConfigReadError then Inl ReadingConfig
        else case vUnmarshal L (vMergeInConfig L (vSetConfigName L ''relayly.local'' v4)) of
               None \<Rightarrow> Inl ParsingConfig | Some cfg \<Rightarrow> Inr (cfg, validate cfg))"
    unfolding Load_def v(1) v3_def v2_def by (simp only: option.case Let_def)
  then show ?thesis using v4(1) rd un' by (simp add: case_prod_beta Let_def)
qed

section \<open>An instance\<close>

text \<open>The library as it is documented, and decoders that read values of the right kind and a few texts.\<close>

definition docViper :: "(string \<Rightarrow> string option) \<Rightarrow> configFiles \<Rightarrow> decoders \<Rightarrow> viperView viperLib" where
  "docViper env F D =
     \<lparr>vNew = freshView, vBindPFlags = (\<lambda>fs v. Some (v\<lparr>vw_flags := fs\<rparr>)), vSetEnvPrefix = (\<lambda>p v. v\<lparr>vw_prefix := p\<rparr>),
      vSetEnvKeyReplacer = (\<lambda>a b v. v\<lparr>vw_replacer := Some (a, b)\<rparr>), vAutomaticEnv = (\<lambda>v. v\<lparr>vw_auto := True\<rparr>),
      vSetDefault = (\<lambda>k x v. v\<lparr>vw_defaults := (vw_defaults v)(k \<mapsto> x)\<rparr>), vSetConfigFile = (\<lambda>f v. v\<lparr>vw_file := f\<rparr>),
      vSetConfigName = (\<lambda>n v. v\<lparr>vw_name := n, vw_file := ''''\<rparr>), vSetConfigType = (\<lambda>t v. v\<lparr>vw_type := t\<rparr>),
      vAddConfigPath = (\<lambda>p v. v\<lparr>vw_paths := vw_paths v @ [p]\<rparr>),
      vReadInConfig = (\<lambda>v. (fst (readTarget F v), if fst (readTarget F v) = ConfigRead then v\<lparr>vw_config := snd (readTarget F v)\<rparr> else v)),
      vMergeInConfig = (\<lambda>v. if fst (readTarget F v) = ConfigRead then v\<lparr>vw_config := vw_config v ++ snd (readTarget F v)\<rparr> else v),
      vUnmarshal = (\<lambda>v. decodeConfig D (viperFind env v))\<rparr>"

lemma docViper_contract: "viper_contract (docViper env F D) id env F D"
  by (simp add: viper_contract_def docViper_def)

definition sampleDecoders :: decoders where
  "sampleDecoders =
     \<lparr>asString = (\<lambda>v. case v of VStr s \<Rightarrow> Some s | _ \<Rightarrow> None),
      asInt = (\<lambda>v. case v of VInt n \<Rightarrow> Some n | VStr s \<Rightarrow> (if s = ''9090'' then Some 9090 else None) | _ \<Rightarrow> None),
      asBool = (\<lambda>v. case v of VBool b \<Rightarrow> Some b | VStr s \<Rightarrow> (if s = ''true'' then Some True else None) | _ \<Rightarrow> None),
      asDur = (\<lambda>v. case v of VDur d \<Rightarrow> Some d | _ \<Rightarrow> None)\<rparr>"

definition noFiles :: configFiles where
  "noFiles = \<lparr>explicit = (\<lambda>_. (ConfigReadError, (\<lambda>_. None))), search = (\<lambda>_ _. (ConfigFileNotFound, (\<lambda>_. None)))\<rparr>"

lemma noFiles_contract: "files_contract noFiles"
  by (simp add: files_contract_def noFiles_def)

lemma env_names:
  "envVariable ''host'' = ''RELAYLY_HOST''" "envVariable ''port'' = ''RELAYLY_PORT''" "envVariable ''tls.enabled'' = ''RELAYLY_TLS_ENABLED''"
  "envVariable ''tls.cert'' = ''RELAYLY_TLS_CERT''" "envVariable ''tls.key'' = ''RELAYLY_TLS_KEY''" "envVariable ''db.path'' = ''RELAYLY_DB_PATH''"
  "envVariable ''admin.enabled'' = ''RELAYLY_ADMIN_ENABLED''" "envVariable ''admin.host'' = ''RELAYLY_ADMIN_HOST''"
  "envVariable ''admin.port'' = ''RELAYLY_ADMIN_PORT''" "envVariable ''log.level'' = ''RELAYLY_LOG_LEVEL''" "envVariable ''log.format'' = ''RELAYLY_LOG_FORMAT''"
  "envVariable ''websocket.max_message_bytes'' = ''RELAYLY_WEBSOCKET_MAX_MESSAGE_BYTES''"
  "envVariable ''websocket.ping_interval'' = ''RELAYLY_WEBSOCKET_PING_INTERVAL''" "envVariable ''websocket.deadline'' = ''RELAYLY_WEBSOCKET_DEADLINE''"
  by code_simp+

lemmas loaded_simps = loadedSetting_def viperFind_def envName_load knownKey_def storedSetting_def loadView_fields env_names

section \<open>Properties\<close>

definition decoders_contract :: "decoders \<Rightarrow> bool" where
  "decoders_contract D \<longleftrightarrow> (\<forall>s. asString D (VStr s) = Some s) \<and> (\<forall>n. asInt D (VInt n) = Some n) \<and> (\<forall>b. asBool D (VBool b) = Some b) \<and>
     (\<forall>d. asDur D (VDur d) = Some d)"

text \<open>The field of the configuration that belongs to a key has the value the decoder of its type reads.\<close>

definition reads :: "decoders \<Rightarrow> Config \<Rightarrow> string \<Rightarrow> cfgVal \<Rightarrow> bool" where
  "reads D cfg key val \<longleftrightarrow>
     (if key = ''host'' then asString D val = Some (Host cfg)
      else if key = ''port'' then asInt D val = Some (Port cfg)
      else if key = ''tls.enabled'' then asBool D val = Some (TLS_Enabled (TLS cfg))
      else if key = ''tls.cert'' then asString D val = Some (TLS_Cert (TLS cfg))
      else if key = ''tls.key'' then asString D val = Some (TLS_Key (TLS cfg))
      else if key = ''db.path'' then asString D val = Some (DB_Path (DB cfg))
      else if key = ''admin.enabled'' then asBool D val = Some (Admin_Enabled (Admin cfg))
      else if key = ''admin.host'' then asString D val = Some (Admin_Host (Admin cfg))
      else if key = ''admin.port'' then asInt D val = Some (Admin_Port (Admin cfg))
      else if key = ''log.level'' then asString D val = Some (Log_Level (Log cfg))
      else if key = ''log.format'' then asString D val = Some (Log_Format (Log cfg))
      else if key = ''websocket.max_message_bytes'' then asInt D val = Some (MaxMessageBytes (WebSocket cfg))
      else if key = ''websocket.ping_interval'' then asDur D val = Some (PingInterval (WebSocket cfg))
      else key = ''websocket.deadline'' \<and> asDur D val = Some (Deadline (WebSocket cfg)))"

lemma decodeConfig_fields:
  assumes "decodeConfig D look = Some cfg"
  shows "fieldOf (asString D) '''' (look ''tls.cert'') = Some (TLS_Cert (TLS cfg))"
    and "look key = Some val \<Longrightarrow> defaultSettings key \<noteq> None \<Longrightarrow> reads D cfg key val"
proof -
  note f = assms [unfolded decodeConfig_def]
  show "fieldOf (asString D) '''' (look ''tls.cert'') = Some (TLS_Cert (TLS cfg))"
    using f by (clarsimp simp: bind_eq_Some_conv)
  assume look: "look key = Some val" and "defaultSettings key \<noteq> None"
  then consider "key = ''host''" | "key = ''port''" | "key = ''tls.enabled''" | "key = ''db.path''" | "key = ''admin.enabled''" | "key = ''admin.host''"
    | "key = ''admin.port''" | "key = ''log.level''" | "key = ''log.format''" | "key = ''websocket.max_message_bytes''" | "key = ''websocket.ping_interval''"
    | "key = ''websocket.deadline''"
    by (auto simp: defaultSettings_def split: if_splits)
  then show "reads D cfg key val"
    using f look by cases (clarsimp simp: bind_eq_Some_conv reads_def fieldOf_def)+
qed

lemma Load_cfg:
  assumes "viper_contract L V env F D" and "files_contract F" and "Load L cfgFile flags = Inr (cfg, r)"
  shows "decodeConfig D (loadedSetting env flags (snd (fileSettings F cfgFile))) = Some cfg" and "r = validate cfg"
  using assms(3) unfolding Load_sources [OF assms(1,2)]
  by (auto simp: case_prod_beta Let_def split: if_splits option.splits)

text \<open>The value of a key that has the default \<open>d\<close>.\<close>

definition winner :: "(string \<Rightarrow> string option) \<Rightarrow> flagSet option \<Rightarrow> settings \<Rightarrow> cfgVal \<Rightarrow> string \<Rightarrow> cfgVal" where
  "winner env flags m d key =
     (case givenFlags flags key of
        Some (val, True) \<Rightarrow> val
      | _ \<Rightarrow>
          (case env (envVariable key) of
             Some (c # s) \<Rightarrow> VStr (c # s)
           | _ \<Rightarrow> (case m key of Some val \<Rightarrow> val | None \<Rightarrow> d)))"

lemma loadedSetting_winner:
  "defaultSettings key = Some d \<Longrightarrow> loadedSetting env flags m key = Some (winner env flags m d key)"
  by (auto simp: loadedSetting_def viperFind_def envName_load knownKey_def storedSetting_def loadView_fields winner_def
      split: option.splits prod.splits bool.splits list.splits)



text \<open>With nothing set anywhere, loading gives the defaults, and they are valid.\<close>

lemma load_defaults:
  assumes "viper_contract L V env F D" and "files_contract F" and "decoders_contract D"
    and "fileSettings F cfgFile = (rd, \<lambda>_. None)" and "rd \<noteq> ConfigReadError" and "\<And>x. env x = None" and "flags = None"
  shows "Load L cfgFile flags = Inr (setDefaults, None)"
  using assms(3-7) validate_defaults unfolding Load_sources [OF assms(1,2)]
  by (simp add: decodeConfig_def loaded_simps givenFlags_def defaultSettings_def fieldOf_def decoders_contract_def setDefaults_def)

text \<open>A file named on the command line: it has to be readable, and a local file next to it is not looked for.\<close>

lemma explicit_file:
  assumes "viper_contract L V env F D" and "files_contract F" and "cfgFile \<noteq> ''''"
  shows "fst (explicit F cfgFile) = ConfigReadError \<Longrightarrow> Load L cfgFile flags = Inl ReadingConfig"
    and "fst (explicit F cfgFile) = ConfigRead \<Longrightarrow> snd (fileSettings F cfgFile) = snd (explicit F cfgFile)"
  using assms(2,3) unfolding Load_sources [OF assms(1,2)]
  by (simp_all add: fileSettings_def files_contract_def case_prod_beta Let_def map_add_def fun_eq_iff)



end
