(* ===== verification/Sdk_Wire.thy ===== *)
theory Sdk_Wire
  imports Relayly_Prelude
begin

text \<open>
  The wire layer of the Go client library: E2E envelopes (\<^verbatim>\<open>sdk/go/noise.go\<close>), the mapping of
  the server's error codes (\<^verbatim>\<open>sdk/go/errors.go\<close>) and the options (\<^verbatim>\<open>sdk/go/options.go\<close>).
  The callbacks of the options are not part of the record: the model of the client reports
  the calls it makes.
\<close>

section \<open>Envelopes\<close>

definition envelopeHandshake :: "8 word" where
  "envelopeHandshake = 1"

definition envelopeTransport :: "8 word" where
  "envelopeTransport = 2"

definition encodeEnvelope :: "8 word \<Rightarrow> bytes \<Rightarrow> bytes" where
  "encodeEnvelope kind payload = kind # payload"

definition decodeEnvelope :: "bytes \<Rightarrow> 8 word \<times> bytes \<times> bool" where
  "decodeEnvelope frame =
     (case frame of [] \<Rightarrow> (0, [], False) | k # payload \<Rightarrow> (k, payload, True))"

section \<open>Errors\<close>

datatype sentinel =
    ErrInvalidCode | ErrCodeExpired | ErrAlreadyPairedSdk | ErrPeerOffline | ErrRateLimited
  | ErrMalformed | ErrInternal | ErrKeyMismatch | ErrNotReady | ErrPeerKeyMismatch | ErrOther string

text \<open>An error: a sentinel, or a wrapper with a message around another error.\<close>

datatype sdk_error = Sentinel sentinel | Wrapped sdk_error string

fun errorsIs :: "sdk_error \<Rightarrow> sentinel \<Rightarrow> bool" where
  "errorsIs (Sentinel s) t \<longleftrightarrow> s = t"
| "errorsIs (Wrapped e m) t \<longleftrightarrow> errorsIs e t"

definition errForCode :: "string \<Rightarrow> string \<Rightarrow> sdk_error" where
  "errForCode code message =
     (let base =
        (if code = ''invalid_code'' then ErrInvalidCode
         else if code = ''code_expired'' then ErrCodeExpired
         else if code = ''already_paired'' then ErrAlreadyPairedSdk
         else if code = ''peer_offline'' then ErrPeerOffline
         else if code = ''rate_limited'' then ErrRateLimited
         else if code = ''malformed'' then ErrMalformed
         else if code = ''key_mismatch'' then ErrKeyMismatch
         else ErrInternal)
      in if message = '''' then Sentinel base else Wrapped (Sentinel base) message)"

section \<open>Options\<close>

definition DefaultPingInterval :: duration where "DefaultPingInterval = 30 * Second"

definition DefaultReconnectDelay :: duration where "DefaultReconnectDelay = 1 * Second"

definition DefaultMaxReconnectDelay :: duration where "DefaultMaxReconnectDelay = 60 * Second"

definition DefaultPeerStorePath :: string where
  "DefaultPeerStorePath = ''~/.relayly/peers.json''"

record Options =
  opt_DeviceID :: device_id
  opt_DeviceToken :: string
  opt_PrivateKey :: bytes
  opt_PeerStorePath :: string
  opt_PingInterval :: duration
  opt_ReconnectDelay :: duration
  opt_MaxReconnectDelay :: duration

definition validateOptions :: "Options \<Rightarrow> string option" where
  "validateOptions opts =
     (if opt_DeviceID opts = '''' then Some ''DeviceID is required''
      else if opt_DeviceToken opts = '''' then Some ''DeviceToken is required''
      else None)"

definition peerStorePath :: "Options \<Rightarrow> string" where
  "peerStorePath opts = (if opt_PeerStorePath opts \<noteq> '''' then opt_PeerStorePath opts else DefaultPeerStorePath)"

section \<open>Lemmas\<close>

lemma envelope_roundtrip: "decodeEnvelope (encodeEnvelope k p) = (k, p, True)"
  by (simp add: encodeEnvelope_def decodeEnvelope_def)

lemma errorsIs_errForCode: "errorsIs (errForCode code message) = errorsIs (errForCode code '''')"
  by (auto simp: errForCode_def Let_def fun_eq_iff)

end
