(* ===== verification/Sdk_Crypto.thy ===== *)
theory Sdk_Crypto
  imports Sdk_Wire
begin

text \<open>
  Keys of the Go client library (\<^verbatim>\<open>sdk/go/crypto.go\<close>): base64, key files and their life cycle.
  The file system is a map from path to contents; the outcome of an I/O operation that can
  fail for other reasons is an argument. Scalar multiplication on Curve25519 is the parameter
  \<open>scalarBaseMult\<close>.
\<close>

section \<open>Base64\<close>

definition base64Alphabet :: string where
  "base64Alphabet = ''ABCDEFGHIJKLMNOPQRSTUVWXYZabcdefghijklmnopqrstuvwxyz0123456789+/''"

definition base64Char :: "nat \<Rightarrow> char" where
  "base64Char n = base64Alphabet ! n"

definition base64Value :: "char \<Rightarrow> nat option" where
  "base64Value c = List.find (\<lambda>n. base64Alphabet ! n = c) [0..<64]"

fun encodeBase64 :: "bytes \<Rightarrow> string" where
  "encodeBase64 [] = []"
| "encodeBase64 [a] =
     (let v = unat a * 16 in [base64Char (v div 64), base64Char (v mod 64), CHR ''='', CHR ''=''])"
| "encodeBase64 [a, b] =
     (let v = (unat a * 256 + unat b) * 4
      in [base64Char (v div 4096), base64Char (v div 64 mod 64), base64Char (v mod 64), CHR ''=''])"
| "encodeBase64 (a # b # c # rest) =
     (let v = unat a * 65536 + unat b * 256 + unat c
      in [base64Char (v div 262144), base64Char (v div 4096 mod 64), base64Char (v div 64 mod 64), base64Char (v mod 64)]
         @ encodeBase64 rest)"

text \<open>
  \<^verbatim>\<open>base64.StdEncoding.DecodeString\<close>: line breaks are skipped, the rest are groups of four
  characters, of which the last may be padded; unused bits of a padded group are ignored.
\<close>

fun decodeGroups :: "string \<Rightarrow> bytes option" where
  "decodeGroups [] = Some []"
| "decodeGroups (p # q # r # s # rest) =
     (case (base64Value p, base64Value q) of
        (Some x, Some y) \<Rightarrow>
          (if r = CHR ''='' \<and> s = CHR ''='' \<and> rest = [] then Some [of_nat ((x * 64 + y) div 16)]
           else case base64Value r of
             None \<Rightarrow> None
           | Some z \<Rightarrow>
               (if s = CHR ''='' \<and> rest = []
                then (let v = ((x * 64 + y) * 64 + z) div 4 in Some [of_nat (v div 256), of_nat (v mod 256)])
                else case base64Value s of
                  None \<Rightarrow> None
                | Some w \<Rightarrow>
                    (let v = ((x * 64 + y) * 64 + z) * 64 + w
                     in map_option (\<lambda>bs. of_nat (v div 65536) # of_nat (v div 256 mod 256) # of_nat (v mod 256) # bs)
                          (decodeGroups rest))))
      | _ \<Rightarrow> None)"
| "decodeGroups _ = None"

definition decodeBase64 :: "string \<Rightarrow> bytes option" where
  "decodeBase64 s = decodeGroups (filter (\<lambda>c. c \<noteq> CHR 0x0A \<and> c \<noteq> CHR 0x0D) s)"

section \<open>Keys\<close>

datatype key_error = KeyReadFailed | KeyNotExist | KeyInvalid | KeyLength nat | KeyGenerate | KeyWrite

definition GenerateKey :: "bytes option \<Rightarrow> key_error + bytes" where
  "GenerateKey rnd = (case rnd of None \<Rightarrow> Inl KeyGenerate | Some raw \<Rightarrow> Inr raw)"

definition PublicKeyOf :: "(bytes \<Rightarrow> bytes) \<Rightarrow> bytes \<Rightarrow> bytes" where
  "PublicKeyOf scalarBaseMult raw = scalarBaseMult raw"

definition PrivateKeyFromBase64 :: "string \<Rightarrow> key_error + bytes" where
  "PrivateKeyFromBase64 s =
     (case decodeBase64 s of
        None \<Rightarrow> Inl KeyInvalid
      | Some raw \<Rightarrow> if length raw \<noteq> 32 then Inl (KeyLength (length raw)) else Inr raw)"

definition publicKeyFromBase64 :: "string \<Rightarrow> key_error + bytes" where
  "publicKeyFromBase64 s =
     (case decodeBase64 s of
        None \<Rightarrow> Inl KeyInvalid
      | Some raw \<Rightarrow> if length raw \<noteq> 32 then Inl (KeyLength (length raw)) else Inr raw)"

text \<open>The loop that drops trailing line breaks and spaces.\<close>

definition isTrailing :: "char \<Rightarrow> bool" where
  "isTrailing c \<longleftrightarrow> c = CHR 0x0A \<or> c = CHR 0x0D \<or> c = CHR '' ''"

function trimTrailing :: "string \<Rightarrow> string" where
  "trimTrailing s = (if s \<noteq> [] \<and> isTrailing (last s) then trimTrailing (butlast s) else s)"
  by auto
termination
  by (relation "measure length") auto

declare trimTrailing.simps [simp del]

text \<open>\<^verbatim>\<open>filepath.Clean\<close> on a Unix path, for \<^verbatim>\<open>filepath.Join\<close>.\<close>

fun splitSlash :: "string \<Rightarrow> string list" where
  "splitSlash [] = [[]]"
| "splitSlash (c # cs) =
     (if c = CHR ''/'' then [] # splitSlash cs
      else case splitSlash cs of [] \<Rightarrow> [[c]] | p # ps \<Rightarrow> (c # p) # ps)"

fun cleanParts :: "bool \<Rightarrow> string list \<Rightarrow> string list \<Rightarrow> string list" where
  "cleanParts rooted stack [] = rev stack"
| "cleanParts rooted stack (p # ps) =
     (if p = [] \<or> p = ''.'' then cleanParts rooted stack ps
      else if p = ''..''
        then (case stack of
                q # qs \<Rightarrow> if q \<noteq> ''..'' then cleanParts rooted qs ps else cleanParts rooted (p # stack) ps
              | [] \<Rightarrow> if rooted then cleanParts rooted [] ps else cleanParts rooted [p] ps)
        else cleanParts rooted (p # stack) ps)"

fun joinSlash :: "string list \<Rightarrow> string" where
  "joinSlash [] = []"
| "joinSlash [p] = p"
| "joinSlash (p # ps) = p @ ''/'' @ joinSlash ps"

definition cleanPath :: "string \<Rightarrow> string" where
  "cleanPath p =
     (let rooted = (p \<noteq> [] \<and> hd p = CHR ''/'');
          out = (if rooted then ''/'' else []) @ joinSlash (cleanParts rooted [] (splitSlash p))
      in if out = [] then ''.'' else out)"

definition joinPath :: "string \<Rightarrow> string \<Rightarrow> string" where
  "joinPath a b =
     (if a = [] \<and> b = [] then [] else if a = [] then cleanPath b else if b = [] then cleanPath a
      else cleanPath (a @ ''/'' @ b))"

text \<open>\<open>home\<close> is the result of \<^verbatim>\<open>os.UserHomeDir\<close>.\<close>

definition expandHome :: "string option \<Rightarrow> string \<Rightarrow> string" where
  "expandHome home path =
     (if path \<noteq> [] \<and> hd path = CHR ''~''
      then (case home of Some h \<Rightarrow> joinPath h (tl path) | None \<Rightarrow> path)
      else path)"

type_synonym filesystem = "string \<Rightarrow> string option"

text \<open>
  The outcome of \<^verbatim>\<open>os.WriteFile\<close>: it succeeds, or it fails and leaves the file as it was
  or with only a part of the contents.
\<close>

datatype write_result = WriteOk | WriteFailed | WriteTorn nat

definition writeFile :: "write_result \<Rightarrow> string \<Rightarrow> string \<Rightarrow> filesystem \<Rightarrow> bool \<times> filesystem" where
  "writeFile res path contents fs =
     (case res of
        WriteOk \<Rightarrow> (True, fs(path \<mapsto> contents))
      | WriteFailed \<Rightarrow> (False, fs)
      | WriteTorn n \<Rightarrow> (False, fs(path \<mapsto> take n contents)))"

definition SaveToFile ::
  "string option \<Rightarrow> bool \<Rightarrow> write_result \<Rightarrow> string \<Rightarrow> bytes \<Rightarrow> filesystem \<Rightarrow> (key_error + unit) \<times> filesystem" where
  "SaveToFile home mkdirOk res path raw fs =
     (if \<not> mkdirOk then (Inl KeyWrite, fs)
      else let (ok, fs') = writeFile res (expandHome home path) (encodeBase64 raw @ [CHR 0x0A]) fs
        in (if ok then Inr () else Inl KeyWrite, fs'))"

definition LoadKeyFromFile :: "string option \<Rightarrow> bool \<Rightarrow> string \<Rightarrow> filesystem \<Rightarrow> key_error + bytes" where
  "LoadKeyFromFile home readOk path fs =
     (case fs (expandHome home path) of
        None \<Rightarrow> Inl KeyNotExist
      | Some contents \<Rightarrow>
          (if \<not> readOk then Inl KeyReadFailed
           else case decodeBase64 (trimTrailing contents) of
             None \<Rightarrow> Inl KeyInvalid
           | Some raw \<Rightarrow> if length raw \<noteq> 32 then Inl (KeyLength (length raw)) else Inr raw))"

definition LoadOrGenerateKey ::
  "string option \<Rightarrow> bool \<Rightarrow> bool \<Rightarrow> write_result \<Rightarrow> bytes option \<Rightarrow> string \<Rightarrow> filesystem \<Rightarrow>
    (key_error + bytes) \<times> filesystem" where
  "LoadOrGenerateKey home readOk mkdirOk res rnd path fs =
     (case LoadKeyFromFile home readOk path fs of
        Inr key \<Rightarrow> (Inr key, fs)
      | Inl e \<Rightarrow>
          (if e \<noteq> KeyNotExist then (Inl e, fs)
           else case GenerateKey rnd of
             Inl e' \<Rightarrow> (Inl e', fs)
           | Inr key \<Rightarrow>
               (case SaveToFile home mkdirOk res path key fs of
                  (Inl e', fs') \<Rightarrow> (Inl e', fs')
                | (Inr _, fs') \<Rightarrow> (Inr key, fs'))))"

section \<open>Lemmas\<close>

lemma base64Value_table: "list_all (\<lambda>n. base64Value (base64Char n) = Some n \<and> base64Char n \<noteq> CHR ''='' \<and>
    \<not> isTrailing (base64Char n)) [0..<64]"
  by code_simp

lemma base64Char [simp]:
  assumes "n < 64"
  shows "base64Value (base64Char n) = Some n" "base64Char n \<noteq> CHR ''=''" "\<not> isTrailing (base64Char n)"
  using base64Value_table assms by (auto simp: list_all_iff)

lemma base64_join: "v div (m * 64) * 64 + v div m mod 64 = v div m" for v m :: nat
  by (metis div_mult2_eq div_mult_mod_eq)

lemma byte_join: "c < 256 \<Longrightarrow> (x * 256 + c) div 256 = x" "c < 256 \<Longrightarrow> (x * 256 + c) mod 256 = c" for x c :: nat
  by simp_all

lemma encode_group3:
  fixes a b c :: nat
  assumes "a < 256" "b < 256" "c < 256" and v: "v = (a * 256 + b) * 256 + c"
  shows "v div 262144 < 64" and "((v div 262144 * 64 + v div 4096 mod 64) * 64 + v div 64 mod 64) * 64 + v mod 64 = v"
    and "v div 65536 = a" "v div 256 mod 256 = b" "v mod 256 = c"
proof -
  show "v div 262144 < 64" using assms by (intro less_mult_imp_div_less) simp
  show "((v div 262144 * 64 + v div 4096 mod 64) * 64 + v div 64 mod 64) * 64 + v mod 64 = v"
    using base64_join [of v 4096] base64_join [of v 64] div_mult_mod_eq [of v 64] by simp
  have "v div 256 = a * 256 + b" unfolding v by (rule byte_join(1)) fact
  moreover have "v div 65536 = v div 256 div 256" by (simp add: div_mult2_eq [symmetric])
  ultimately show "v div 65536 = a" "v div 256 mod 256 = b"
    using byte_join [OF assms(2)] by simp_all
  show "v mod 256 = c" unfolding v by (rule byte_join(2)) fact
qed

lemma encode_group2:
  fixes a b :: nat
  assumes "a < 256" "b < 256" and v: "v = (a * 256 + b) * 4"
  shows "v div 4096 < 64" and "(v div 4096 * 64 + v div 64 mod 64) * 64 + v mod 64 = v"
    and "v div 4 div 256 = a" "v div 4 mod 256 = b"
proof -
  show "v div 4096 < 64" using assms by (intro less_mult_imp_div_less) simp
  show "(v div 4096 * 64 + v div 64 mod 64) * 64 + v mod 64 = v"
    using base64_join [of v 64] div_mult_mod_eq [of v 64] by simp
  have "v div 4 = a * 256 + b" unfolding v by simp
  then show "v div 4 div 256 = a" "v div 4 mod 256 = b"
    using byte_join [OF assms(2)] by simp_all
qed

lemma encode_group1:
  fixes a :: nat
  assumes "a < 256" and v: "v = a * 16"
  shows "v div 64 < 64" and "v div 64 * 64 + v mod 64 = v" and "v div 16 = a"
  using assms by (linarith, simp only: div_mult_mod_eq, simp)

lemma decodeGroups_encode: "decodeGroups (encodeBase64 bs) = Some bs"
proof (induction bs rule: encodeBase64.induct)
  case (2 a)
  let ?v = "unat a * 16"
  note g = encode_group1 [OF unat_byte refl, of a]
  show ?case
    using g by (simp only: encodeBase64.simps Let_def decodeGroups.simps base64Char mod_less_divisor zero_less_numeral
        option.case prod.case simp_thms if_True unat_of_nat of_nat_unat) simp
next
  case (3 a b)
  note g = encode_group2 [OF unat_byte unat_byte refl, of a b]
  show ?case
    using g by (simp only: encodeBase64.simps Let_def decodeGroups.simps base64Char mod_less_divisor zero_less_numeral
        option.case prod.case simp_thms if_True if_False) simp
next
  case (4 a b c rest)
  note g = encode_group3 [OF unat_byte unat_byte unat_byte refl, of a b c]
  show ?case
    using g 4 by (simp add: Let_def algebra_simps)
qed simp

lemma base64_mod: "\<exists>n<64. base64Char (x mod 64) = base64Char n"
  by (rule exI [of _ "x mod 64"]) simp

lemma encodeBase64_chars: "c \<in> set (encodeBase64 bs) \<Longrightarrow> c = CHR ''='' \<or> (\<exists>n<64. c = base64Char n)"
proof (induction bs rule: encodeBase64.induct)
  case (2 a)
  then show ?case using encode_group1(1) [OF unat_byte refl, of a] base64_mod [of "unat a * 16"] by (auto simp: Let_def)
next
  case (3 a b)
  then show ?case using encode_group2(1) [OF unat_byte unat_byte refl, of a b]
    by (auto simp: Let_def) (metis mod_less_divisor zero_less_numeral)+
next
  case (4 a b c' rest)
  then show ?case
    using encode_group3(1) [OF unat_byte unat_byte unat_byte refl, of a b c']
    by (auto simp: Let_def algebra_simps) (metis mod_less_divisor zero_less_numeral)+
qed simp

lemma encodeBase64_not_trailing: "c \<in> set (encodeBase64 bs) \<Longrightarrow> \<not> isTrailing c"
  using encodeBase64_chars [of c bs] by (auto simp: isTrailing_def dest: base64Char(3))

lemma trimTrailing_encoded: "trimTrailing (encodeBase64 bs @ [CHR 0x0A]) = encodeBase64 bs"
proof -
  have "trimTrailing (encodeBase64 bs) = encodeBase64 bs"
    using encodeBase64_not_trailing [of "last (encodeBase64 bs)" bs] by (subst trimTrailing.simps) auto
  then show ?thesis by (subst trimTrailing.simps) (simp add: isTrailing_def)
qed

lemma decode_encode: "decodeBase64 (encodeBase64 bs) = Some bs"
proof -
  have "filter (\<lambda>c. c \<noteq> CHR 0x0A \<and> c \<noteq> CHR 0x0D) (encodeBase64 bs) = encodeBase64 bs"
    using encodeBase64_not_trailing by (auto simp: filter_id_conv isTrailing_def)
  then show ?thesis by (simp add: decodeBase64_def decodeGroups_encode)
qed

lemma load_saved:
  "SaveToFile home mkdirOk res path raw fs = (Inr u, fs') \<Longrightarrow> length raw = 32 \<Longrightarrow>
    LoadKeyFromFile home True path fs' = Inr raw"
  by (auto simp: SaveToFile_def writeFile_def LoadKeyFromFile_def trimTrailing_encoded decode_encode
      split: if_splits write_result.splits)

lemma saved_key_found:
  assumes "LoadOrGenerateKey home readOk mkdirOk res rnd path fs = (Inr key, fs')"
    and "\<And>raw. rnd = Some raw \<Longrightarrow> length raw = 32"
  shows "LoadOrGenerateKey home True mkdirOk' res' rnd' path fs' = (Inr key, fs')"
proof (cases "LoadKeyFromFile home readOk path fs")
  case (Inr k)
  then have "k = key" "fs' = fs" using assms(1) by (simp_all add: LoadOrGenerateKey_def)
  moreover have "LoadKeyFromFile home True path fs = Inr k"
    using Inr by (auto simp: LoadKeyFromFile_def split: option.splits if_splits)
  ultimately show ?thesis by (simp add: LoadOrGenerateKey_def)
next
  case (Inl e)
  then obtain raw where "rnd = Some raw" "raw = key" "SaveToFile home mkdirOk res path key fs = (Inr (), fs')"
    using assms(1)
    by (auto simp: LoadOrGenerateKey_def GenerateKey_def split: if_splits option.splits prod.splits sum.splits)
  then show ?thesis
    using load_saved assms(2) by (simp add: LoadOrGenerateKey_def)
qed

section \<open>Properties\<close>

text \<open>
  Base64 is lossless: decoding what \<^verbatim>\<open>encodeBase64\<close> produced gives the bytes back, for
  every length, and so two different keys never have the same text.
\<close>

theorem base64_roundtrip: "decodeBase64 (encodeBase64 bs) = Some bs \<and> inj encodeBase64"
proof
  show "decodeBase64 (encodeBase64 bs) = Some bs" by (rule decode_encode)
  show "inj encodeBase64" by (rule injI) (metis decode_encode option.inject)
qed

text \<open>
  A device keeps its identity. When \<^verbatim>\<open>LoadOrGenerateKey\<close> succeeds, every later call on
  the same path returns the same key and leaves the file alone, whatever randomness it is
  offered. The source of randomness delivers 32 bytes, as \<^verbatim>\<open>io.ReadFull\<close> on the key array does.
\<close>

theorem identity_is_stable:
  assumes "LoadOrGenerateKey home readOk mkdirOk res rnd path fs = (Inr key, fs')"
    and "\<And>raw. rnd = Some raw \<Longrightarrow> length raw = 32"
  shows "LoadOrGenerateKey home True mkdirOk' res' rnd' path fs' = (Inr key, fs')"
  using saved_key_found [OF assms] .

theorem identity_is_stable_witness:
  "LoadOrGenerateKey (Some ''/root'') True True WriteOk None ''~/k''
     (snd (LoadOrGenerateKey (Some ''/root'') True True WriteOk (Some (replicate 32 7)) ''~/k'' Map.empty))
   = (Inr (replicate 32 7),
      snd (LoadOrGenerateKey (Some ''/root'') True True WriteOk (Some (replicate 32 7)) ''~/k'' Map.empty))"
proof (rule identity_is_stable)
  show "LoadOrGenerateKey (Some ''/root'') True True WriteOk (Some (replicate 32 7)) ''~/k'' Map.empty =
    (Inr (replicate 32 7), snd (LoadOrGenerateKey (Some ''/root'') True True WriteOk (Some (replicate 32 7)) ''~/k'' Map.empty))"
    by (simp add: LoadOrGenerateKey_def LoadKeyFromFile_def GenerateKey_def SaveToFile_def writeFile_def)
qed simp

end
