(* ===== verification/Sdk_Noise.thy ===== *)
theory Sdk_Noise
  imports Sdk_Crypto
begin

text \<open>
  One Noise XX handshake and the transport that follows it (\<^verbatim>\<open>sdk/go/noise.go\<close>). The Noise
  library is a parameter: a record of the operations the code calls on a handshake state
  \<open>'h\<close> and a cipher state \<open>'c\<close>, \<open>None\<close> where a call returns an error. What the code relies on
  (the three messages of XX connect two parties, and paired cipher states transport in order
  up to their nonce budget) is the predicate \<open>noise_contract\<close>.
\<close>

section \<open>Definitions\<close>

record ('h, 'c) noiseLib =
  NewHandshakeState :: "bool \<Rightarrow> bytes \<Rightarrow> bytes \<Rightarrow> 'h option"
  WriteMessage :: "'h \<Rightarrow> (bytes \<times> ('c \<times> 'c) option \<times> 'h) option"
  ReadMessage :: "'h \<Rightarrow> bytes \<Rightarrow> (('c \<times> 'c) option \<times> 'h) option"
  PeerStatic :: "'h \<Rightarrow> bytes"
  Encrypt :: "'c \<Rightarrow> bytes \<Rightarrow> (bytes \<times> 'c) option"
  Decrypt :: "'c \<Rightarrow> bytes \<Rightarrow> (bytes \<times> 'c) option"

datatype sessionStatus = statusHandshaking | statusReady | statusFailed

record ('h, 'c) noiseSession =
  session_status :: sessionStatus
  session_err :: "sdk_error option"
  initiator :: bool
  hs :: 'h
  gotMsg1 :: bool
  cipherStates :: "('c \<times> 'c) option"
  peerStatic :: bytes
  readyClosed :: nat

definition noiseError :: "string \<Rightarrow> sdk_error" where
  "noiseError what = Wrapped (Sentinel (ErrOther ''noise'')) what"

text \<open>\<open>rnd\<close> is what the library draws from the random source.\<close>

definition newInitiatorSession ::
  "('h, 'c) noiseLib \<Rightarrow> bytes \<Rightarrow> bytes \<Rightarrow> sdk_error + ('h, 'c) noiseSession \<times> bytes" where
  "newInitiatorSession lib rnd priv =
     (case NewHandshakeState lib True priv rnd of
        None \<Rightarrow> Inl (noiseError ''starting noise handshake'')
      | Some h \<Rightarrow>
          (case WriteMessage lib h of
             None \<Rightarrow> Inl (noiseError ''writing noise msg1'')
           | Some (msg1, _, h') \<Rightarrow>
               Inr (\<lparr>session_status = statusHandshaking, session_err = None, initiator = True, hs = h',
                     gotMsg1 = False, cipherStates = None, peerStatic = [], readyClosed = 0\<rparr>, msg1)))"

definition newResponderSession :: "('h, 'c) noiseLib \<Rightarrow> bytes \<Rightarrow> bytes \<Rightarrow> sdk_error + ('h, 'c) noiseSession" where
  "newResponderSession lib rnd priv =
     (case NewHandshakeState lib False priv rnd of
        None \<Rightarrow> Inl (noiseError ''starting noise handshake'')
      | Some h \<Rightarrow>
          Inr \<lparr>session_status = statusHandshaking, session_err = None, initiator = False, hs = h,
               gotMsg1 = False, cipherStates = None, peerStatic = [], readyClosed = 0\<rparr>)"

text \<open>
  \<open>cipherStates\<close> holds the pair (send, receive). \<open>readyClosed\<close> counts how often the ready
  channel was closed: a second close would panic.
\<close>

definition finishLocked ::
  "('h, 'c) noiseLib \<Rightarrow> ('c \<times> 'c) option \<Rightarrow> ('h, 'c) noiseSession \<Rightarrow> ('h, 'c) noiseSession" where
  "finishLocked lib sendRecv s =
     s\<lparr>cipherStates := sendRecv, peerStatic := PeerStatic lib (hs s), session_status := statusReady,
       readyClosed := readyClosed s + 1\<rparr>"

definition failLocked :: "sdk_error \<Rightarrow> ('h, 'c) noiseSession \<Rightarrow> ('h, 'c) noiseSession" where
  "failLocked e s =
     (if session_status s = statusFailed then s
      else s\<lparr>session_status := statusFailed, session_err := Some e, readyClosed := readyClosed s + 1\<rparr>)"

definition swapPair :: "'c \<times> 'c \<Rightarrow> 'c \<times> 'c" where
  "swapPair p = (snd p, fst p)"

text \<open>The result: the reply, whether the handshake is done, and the error.\<close>

definition handleHandshakeMessage ::
  "('h, 'c) noiseLib \<Rightarrow> bytes \<Rightarrow> ('h, 'c) noiseSession \<Rightarrow>
    (bytes option \<times> bool \<times> sdk_error option) \<times> ('h, 'c) noiseSession" where
  "handleHandshakeMessage lib msg s =
     (if session_status s \<noteq> statusHandshaking
      then ((None, True, Some (Sentinel (ErrOther ''handshake message received after handshake finished''))), s)
      else if initiator s then
        (case ReadMessage lib (hs s) msg of
           None \<Rightarrow> (let s' = failLocked (noiseError ''reading noise msg2'') s in ((None, True, session_err s'), s'))
         | Some (_, h) \<Rightarrow>
             (case WriteMessage lib h of
                None \<Rightarrow> (let s' = failLocked (noiseError ''writing noise msg3'') (s\<lparr>hs := h\<rparr>)
                         in ((None, True, session_err s'), s'))
              | Some (reply, cs, h') \<Rightarrow> ((Some reply, True, None), finishLocked lib cs (s\<lparr>hs := h'\<rparr>))))
      else if \<not> gotMsg1 s then
        (case ReadMessage lib (hs s) msg of
           None \<Rightarrow> (let s' = failLocked (noiseError ''reading noise msg1'') s in ((None, True, session_err s'), s'))
         | Some (_, h) \<Rightarrow>
             (case WriteMessage lib h of
                None \<Rightarrow> (let s' = failLocked (noiseError ''writing noise msg2'') (s\<lparr>hs := h, gotMsg1 := True\<rparr>)
                         in ((None, True, session_err s'), s'))
              | Some (reply, _, h') \<Rightarrow> ((Some reply, False, None), s\<lparr>hs := h', gotMsg1 := True\<rparr>)))
      else
        (case ReadMessage lib (hs s) msg of
           None \<Rightarrow> (let s' = failLocked (noiseError ''reading noise msg3'') s in ((None, True, session_err s'), s'))
         | Some (cs, h) \<Rightarrow> ((None, True, None), finishLocked lib (map_option swapPair cs) (s\<lparr>hs := h\<rparr>))))"

definition ready :: "('h, 'c) noiseSession \<Rightarrow> bool" where
  "ready s \<longleftrightarrow> session_status s = statusReady"

text \<open>A ready session without cipher states would dereference a nil pointer.\<close>

definition nilCipher :: sdk_error where
  "nilCipher = Sentinel (ErrOther ''nil cipher state'')"

text \<open>
  \<^verbatim>\<open>waitReady\<close>: \<open>None\<close> while it blocks; \<open>viaCtx\<close> says which case the select takes when the
  context is done.
\<close>

definition waitReady :: "bool \<Rightarrow> ('h, 'c) noiseSession \<Rightarrow> sdk_error option option" where
  "waitReady viaCtx s =
     (if viaCtx then Some (Some (Sentinel (ErrOther ''context'')))
      else if readyClosed s > 0 then Some (session_err s)
      else None)"

definition encrypt :: "('h, 'c) noiseLib \<Rightarrow> bytes \<Rightarrow> ('h, 'c) noiseSession \<Rightarrow> (sdk_error + bytes) \<times> ('h, 'c) noiseSession" where
  "encrypt lib plaintext s =
     (if session_status s \<noteq> statusReady then (Inl (Sentinel ErrNotReady), s)
      else case cipherStates s of
        None \<Rightarrow> (Inl nilCipher, s)
      | Some (snd_cs, rcv_cs) \<Rightarrow>
          (case Encrypt lib snd_cs plaintext of
             None \<Rightarrow> (Inl (noiseError ''encrypt''), s)
           | Some (ct, cs') \<Rightarrow> (Inr ct, s\<lparr>cipherStates := Some (cs', rcv_cs)\<rparr>)))"

definition decrypt :: "('h, 'c) noiseLib \<Rightarrow> bytes \<Rightarrow> ('h, 'c) noiseSession \<Rightarrow> (sdk_error + bytes) \<times> ('h, 'c) noiseSession" where
  "decrypt lib ciphertext s =
     (if session_status s \<noteq> statusReady then (Inl (Sentinel ErrNotReady), s)
      else case cipherStates s of
        None \<Rightarrow> (Inl nilCipher, s)
      | Some (snd_cs, rcv_cs) \<Rightarrow>
          (case Decrypt lib rcv_cs ciphertext of
             None \<Rightarrow> (Inl (noiseError ''decrypt''), s)
           | Some (pt, cs') \<Rightarrow> (Inr pt, s\<lparr>cipherStates := Some (snd_cs, cs')\<rparr>)))"

section \<open>What the library promises\<close>

text \<open>
  \<open>pub\<close> gives the public key of a private one. \<open>paired n c d\<close>: what is encrypted with \<open>c\<close> is
  decrypted with \<open>d\<close>, for the next \<open>n\<close> messages in order. A handshake yields two such pairs,
  initiator to responder first, with the budget \<open>N\<close> of the nonce counter.
\<close>

definition noise_contract ::
  "('h, 'c) noiseLib \<Rightarrow> (bytes \<Rightarrow> bytes) \<Rightarrow> (nat \<Rightarrow> 'c \<Rightarrow> 'c \<Rightarrow> bool) \<Rightarrow> nat \<Rightarrow> bool" where
  "noise_contract lib pub paired N \<longleftrightarrow>
     (\<forall>p q r r'. length p = 32 \<longrightarrow> length q = 32 \<longrightarrow> length r = 32 \<longrightarrow> length r' = 32 \<longrightarrow>
       (\<exists>h0 g0 m1 h1 g1 m2 g2 h2 m3 c1 c2 h3 d1 d2 g3.
          NewHandshakeState lib True p r = Some h0 \<and> NewHandshakeState lib False q r' = Some g0 \<and>
          WriteMessage lib h0 = Some (m1, None, h1) \<and> ReadMessage lib g0 m1 = Some (None, g1) \<and>
          WriteMessage lib g1 = Some (m2, None, g2) \<and> ReadMessage lib h1 m2 = Some (None, h2) \<and>
          WriteMessage lib h2 = Some (m3, Some (c1, c2), h3) \<and> ReadMessage lib g2 m3 = Some (Some (d1, d2), g3) \<and>
          PeerStatic lib h3 = pub q \<and> PeerStatic lib g3 = pub p \<and> paired N c1 d1 \<and> paired N d2 c2)) \<and>
     (\<forall>n c d m. paired (Suc n) c d \<longrightarrow>
       (\<exists>ct c' d'. Encrypt lib c m = Some (ct, c') \<and> Decrypt lib d ct = Some (m, d') \<and> paired n c' d'))"

lemma noise_contractD:
  assumes "noise_contract lib pub paired N"
    and "length p = 32" and "length q = 32" and "length r = 32" and "length r' = 32"
  shows "\<exists>h0 g0 m1 h1 g1 m2 g2 h2 m3 c1 c2 h3 d1 d2 g3.
    NewHandshakeState lib True p r = Some h0 \<and> NewHandshakeState lib False q r' = Some g0 \<and>
    WriteMessage lib h0 = Some (m1, None, h1) \<and> ReadMessage lib g0 m1 = Some (None, g1) \<and>
    WriteMessage lib g1 = Some (m2, None, g2) \<and> ReadMessage lib h1 m2 = Some (None, h2) \<and>
    WriteMessage lib h2 = Some (m3, Some (c1, c2), h3) \<and> ReadMessage lib g2 m3 = Some (Some (d1, d2), g3) \<and>
    PeerStatic lib h3 = pub q \<and> PeerStatic lib g3 = pub p \<and> paired N c1 d1 \<and> paired N d2 c2"
  using conjunct1 [OF assms(1) [unfolded noise_contract_def]] assms(2-5) by (elim allE impE) assumption+

text \<open>Send messages from one session to the other and collect what arrives.\<close>

fun transport :: "('h, 'c) noiseLib \<Rightarrow> bytes list \<Rightarrow> ('h, 'c) noiseSession \<Rightarrow> ('h, 'c) noiseSession \<Rightarrow> bytes list" where
  "transport lib [] a b = []"
| "transport lib (m # ms) a b =
     (case encrypt lib m a of
        (Inl _, _) \<Rightarrow> []
      | (Inr ct, a') \<Rightarrow>
          (case decrypt lib ct b of
             (Inl _, _) \<Rightarrow> []
           | (Inr pt, b') \<Rightarrow> pt # transport lib ms a' b'))"

lemma transport_paired:
  assumes "noise_contract lib pub paired N"
    and "session_status a = statusReady" "session_status b = statusReady"
    and "cipherStates a = Some (c, x)" "cipherStates b = Some (y, d)" and "paired n c d" and "length ms \<le> n"
  shows "transport lib ms a b = ms"
  using assms(2-7)
proof (induction ms arbitrary: a b c d n)
  case (Cons m ms)
  then obtain k where k: "n = Suc k" by (cases n) auto
  obtain ct c' d' where step: "Encrypt lib c m = Some (ct, c')" "Decrypt lib d ct = Some (m, d')" "paired k c' d'"
    using assms(1) Cons.prems(5) k unfolding noise_contract_def by blast
  show ?case
    using Cons.prems step k Cons.IH [of "a\<lparr>cipherStates := Some (c', x)\<rparr>" "b\<lparr>cipherStates := Some (y, d')\<rparr>" c' d' k]
    by (simp add: encrypt_def decrypt_def)
qed simp

text \<open>The ready channel is open while the handshake runs and is closed exactly once.\<close>

definition session_ok :: "('h, 'c) noiseSession \<Rightarrow> bool" where
  "session_ok s \<longleftrightarrow> readyClosed s = (if session_status s = statusHandshaking then 0 else 1) \<and>
     (session_status s = statusFailed \<longrightarrow> session_err s \<noteq> None)"

lemma session_ok_handle:
  assumes "session_ok s"
  shows "session_ok (snd (handleHandshakeMessage lib msg s))"
  using assms
  by (auto simp: handleHandshakeMessage_def session_ok_def finishLocked_def failLocked_def Let_def
      split: option.split prod.split)

lemma session_ok_new:
  "newInitiatorSession lib rnd priv = Inr (s, m) \<Longrightarrow> session_ok s"
  "newResponderSession lib rnd priv = Inr s' \<Longrightarrow> session_ok s'"
  by (auto simp: newInitiatorSession_def newResponderSession_def session_ok_def split: option.splits prod.splits)

lemma session_ok_crypt:
  "session_ok s \<Longrightarrow> session_ok (snd (encrypt lib m s))" "session_ok s \<Longrightarrow> session_ok (snd (decrypt lib m s))"
  by (auto simp: encrypt_def decrypt_def session_ok_def split: option.split prod.split)

lemma waitReady_reports:
  assumes "session_ok s"
  shows "waitReady False s = (case session_status s of statusHandshaking \<Rightarrow> None | _ \<Rightarrow> Some (session_err s))"
  using assms by (simp add: waitReady_def session_ok_def split: sessionStatus.split)

text \<open>A handshake message only ever completes a session that was in progress.\<close>

lemma handle_finished:
  "session_status s \<noteq> statusHandshaking \<Longrightarrow> snd (handleHandshakeMessage lib msg s) = s"
  by (simp add: handleHandshakeMessage_def)

text \<open>The run of two sessions that pass each other's messages, with the cipher states they end up with.\<close>

lemma handshake_run:
  assumes "noise_contract lib pub paired N"
    and "length p = 32" and "length q = 32" and "length r = 32" and "length r' = 32"
  obtains a0 b0 b1 a1 b2 m1 m2 m3 c1 c2 d1 d2 where
    "newInitiatorSession lib r p = Inr (a0, m1)" and "newResponderSession lib r' q = Inr b0"
    and "handleHandshakeMessage lib m1 b0 = ((Some m2, False, None), b1)"
    and "handleHandshakeMessage lib m2 a0 = ((Some m3, True, None), a1)"
    and "handleHandshakeMessage lib m3 b1 = ((None, True, None), b2)"
    and "session_status b1 = statusHandshaking"
    and "ready a1" and "ready b2" and "peerStatic a1 = pub q" and "peerStatic b2 = pub p"
    and "cipherStates a1 = Some (c1, c2)" and "cipherStates b2 = Some (d2, d1)" and "paired N c1 d1" and "paired N d2 c2"
proof -
  obtain h0 g0 m1 h1 g1 m2 g2 h2 m3 c1 c2 h3 d1 d2 g3
    where xx: "NewHandshakeState lib True p r = Some h0" "NewHandshakeState lib False q r' = Some g0"
      "WriteMessage lib h0 = Some (m1, None, h1)" "ReadMessage lib g0 m1 = Some (None, g1)"
      "WriteMessage lib g1 = Some (m2, None, g2)" "ReadMessage lib h1 m2 = Some (None, h2)"
      "WriteMessage lib h2 = Some (m3, Some (c1, c2), h3)" "ReadMessage lib g2 m3 = Some (Some (d1, d2), g3)"
      "PeerStatic lib h3 = pub q" "PeerStatic lib g3 = pub p" "paired N c1 d1" "paired N d2 c2"
    using noise_contractD [OF assms] by (elim exE conjE) (rule that)
  let ?new = "\<lambda>i h g. \<lparr>session_status = statusHandshaking, session_err = None, initiator = i, hs = h,
      gotMsg1 = g, cipherStates = None, peerStatic = [], readyClosed = 0\<rparr>"
  show thesis
    by (rule that [of "?new True h1 False" m1 "?new False g0 False" m2 "?new False g2 True" m3
          "finishLocked lib (Some (c1, c2)) (?new True h3 False)" "finishLocked lib (Some (d2, d1)) (?new False g3 True)"
          c1 c2 d2 d1])
      (simp_all add: newInitiatorSession_def newResponderSession_def handleHandshakeMessage_def finishLocked_def ready_def
        swapPair_def xx)
qed

section \<open>Properties\<close>

text \<open>
  C8: two sessions that exchange their three messages agree. Given a Noise library that
  keeps its contract, an initiator and a responder that pass each other's messages both become
  ready, each with the other's authenticated static key, and then every sequence of messages
  within the nonce budget arrives unchanged and in order, in both directions.
\<close>

theorem handshake_agreement:
  assumes "noise_contract lib pub paired N"
    and "length p = 32" and "length q = 32" and "length r = 32" and "length r' = 32"
    and "length ms \<le> N" and "length ms' \<le> N"
  shows "\<exists>a0 b0 b1 a1 b2 m1 m2 m3. newInitiatorSession lib r p = Inr (a0, m1) \<and> newResponderSession lib r' q = Inr b0 \<and>
    handleHandshakeMessage lib m1 b0 = ((Some m2, False, None), b1) \<and>
    handleHandshakeMessage lib m2 a0 = ((Some m3, True, None), a1) \<and>
    handleHandshakeMessage lib m3 b1 = ((None, True, None), b2) \<and>
    ready a1 \<and> ready b2 \<and> peerStatic a1 = pub q \<and> peerStatic b2 = pub p \<and>
    transport lib ms a1 b2 = ms \<and> transport lib ms' b2 a1 = ms'"
proof -
  obtain a0 b0 b1 a1 b2 m1 m2 m3 c1 c2 d1 d2 where run: "newInitiatorSession lib r p = Inr (a0, m1)"
    "newResponderSession lib r' q = Inr b0" "handleHandshakeMessage lib m1 b0 = ((Some m2, False, None), b1)"
    "handleHandshakeMessage lib m2 a0 = ((Some m3, True, None), a1)"
    "handleHandshakeMessage lib m3 b1 = ((None, True, None), b2)"
    and fin: "ready a1" "ready b2" "peerStatic a1 = pub q" "peerStatic b2 = pub p"
    "cipherStates a1 = Some (c1, c2)" "cipherStates b2 = Some (d2, d1)" "paired N c1 d1" "paired N d2 c2"
    by (rule handshake_run [OF assms(1-5)])
  have "transport lib ms a1 b2 = ms" "transport lib ms' b2 a1 = ms'"
    using fin transport_paired [OF assms(1) _ _ fin(5,6,7) assms(6)] transport_paired [OF assms(1) _ _ fin(6,5,8) assms(7)]
    by (simp_all add: ready_def)
  with run fin show ?thesis by blast
qed

text \<open>A library without secrecy that keeps the contract: messages carry the static keys in the clear.\<close>

definition plainLib :: "(bool \<times> nat \<times> bytes \<times> bytes, nat) noiseLib" where
  "plainLib =
     \<lparr>NewHandshakeState = (\<lambda>i p r. Some (i, 0, p, [])),
      WriteMessage = (\<lambda>(i, n, p, k). Some (p, if i \<and> n = 2 then Some (0, 0) else None, (i, n + 1, p, k))),
      ReadMessage = (\<lambda>(i, n, p, k) m. Some (if \<not> i \<and> n = 2 then Some (0, 0) else None, (i, n + 1, p, m))),
      PeerStatic = (\<lambda>(i, n, p, k). k),
      Encrypt = (\<lambda>c m. Some (m, c + 1)),
      Decrypt = (\<lambda>c m. Some (m, c + 1))\<rparr>"

lemma plainLib_contract: "noise_contract plainLib id (\<lambda>n c d. c = d) N"
  by (auto simp: noise_contract_def plainLib_def)

theorem handshake_agreement_witness:
  "\<exists>a1 b2. peerStatic a1 = replicate 32 2 \<and> peerStatic b2 = replicate 32 1 \<and>
     transport plainLib [[1, 2], [3]] a1 b2 = [[1, 2], [3]]"
  using handshake_agreement [OF plainLib_contract, of "replicate 32 1" "replicate 32 2" "replicate 32 0" "replicate 32 0"
      "[[1, 2], [3]]" 2 "[]"]
  by (simp only: length_replicate id_apply) auto

text \<open>
  Another instance, whose ciphertexts carry the message counter of the cipher state, as those of
  the real library do: a message only decrypts under the counter it was encrypted with.
\<close>

definition counterLib :: "(bool \<times> nat \<times> bytes \<times> bytes, nat) noiseLib" where
  "counterLib = plainLib
     \<lparr>Encrypt := (\<lambda>c m. Some (replicate c 0 @ 1 # m, c + 1)),
      Decrypt := (\<lambda>c ct. if take (c + 1) ct = replicate c 0 @ [1] then Some (drop (c + 1) ct, c + 1) else None)\<rparr>"

lemma counterLib_contract: "noise_contract counterLib id (\<lambda>n c d. c = d) N"
  by (auto simp: noise_contract_def counterLib_def plainLib_def)

lemma counterLib_mismatch:
  assumes "d < c"
  shows "Decrypt counterLib d (replicate c 0 @ 1 # m) = None"
proof -
  have "take (d + 1) (replicate c 0 @ 1 # m) = replicate (d + 1) (0 :: 8 word)" using assms by (simp add: min_def)
  moreover have "replicate (d + 1) (0 :: 8 word) \<noteq> replicate d 0 @ [1]"
    by (simp add: replicate_append_same [symmetric])
  ultimately show ?thesis by (simp add: counterLib_def)
qed

end
