(* ===== verification/Ts_Noise.thy ===== *)
theory Ts_Noise
  imports Sdk_Noise
begin

text \<open>
  The Noise XX handshake as the TypeScript library implements it itself
  (\<^verbatim>\<open>sdk/ts/src/noise\<close>: \<^verbatim>\<open>primitives.ts\<close>, \<^verbatim>\<open>cipherState.ts\<close>, \<^verbatim>\<open>symmetricState.ts\<close>,
  \<^verbatim>\<open>handshakeState.ts\<close>, \<^verbatim>\<open>session.ts\<close>). The curve, the cipher and the hash come from the noble
  packages and are a record of functions; \<open>prims_contract\<close> says what is documented of them. From it
  follows that the implementation keeps the contract \<open>noise_contract\<close> under which the client
  library is verified, and that its session is the session of the Go library.
\<close>

section \<open>Primitives\<close>

text \<open>\<open>None\<close> is an exception, e.g. of a tag that does not verify.\<close>

record prims =
  getPublicKey :: "bytes \<Rightarrow> bytes"
  getSharedSecret :: "bytes \<Rightarrow> bytes \<Rightarrow> bytes option"
  blake2s :: "bytes \<Rightarrow> bytes"
  hkdfBlake2s :: "bytes \<Rightarrow> bytes \<Rightarrow> nat \<Rightarrow> bytes"
  chachaEncrypt :: "bytes \<Rightarrow> bytes \<Rightarrow> bytes \<Rightarrow> bytes \<Rightarrow> bytes option"
  chachaDecrypt :: "bytes \<Rightarrow> bytes \<Rightarrow> bytes \<Rightarrow> bytes \<Rightarrow> bytes option"

definition DHLEN :: nat where "DHLEN = 32"

definition HASHLEN :: nat where "HASHLEN = 32"

definition TAGLEN :: nat where "TAGLEN = 16"

record KeyPair =
  privateKey :: bytes
  publicKey :: bytes

text \<open>\<open>rnd\<close> is what the random source delivers for the \<open>DHLEN\<close> bytes it is asked for.\<close>

definition generateKeypair :: "prims \<Rightarrow> bytes \<Rightarrow> KeyPair" where
  "generateKeypair P rnd = \<lparr>privateKey = rnd, publicKey = getPublicKey P rnd\<rparr>"

definition publicKeyFromPrivate :: "prims \<Rightarrow> bytes \<Rightarrow> bytes" where
  "publicKeyFromPrivate P priv = getPublicKey P priv"

definition ts_dh :: "prims \<Rightarrow> bytes \<Rightarrow> bytes \<Rightarrow> bytes option" where
  "ts_dh P priv pub = getSharedSecret P priv pub"

definition ts_hash :: "prims \<Rightarrow> bytes \<Rightarrow> bytes" where
  "ts_hash P data = blake2s P data"

text \<open>\<^verbatim>\<open>slice\<close> of an array: it takes what there is.\<close>

definition sliceBytes :: "nat \<Rightarrow> nat \<Rightarrow> bytes \<Rightarrow> bytes" where
  "sliceBytes a b xs = take (b - a) (drop a xs)"

definition noiseHKDF :: "prims \<Rightarrow> bytes \<Rightarrow> bytes \<Rightarrow> bytes \<times> bytes" where
  "noiseHKDF P chainingKey inputKeyMaterial =
     (let okm = hkdfBlake2s P inputKeyMaterial chainingKey (HASHLEN * 2)
      in (sliceBytes 0 HASHLEN okm, sliceBytes HASHLEN (2 * HASHLEN) okm))"

text \<open>Four zero bytes and the counter in eight bytes, least significant first; \<^verbatim>\<open>setBigUint64\<close> keeps 64 bits.\<close>

definition encodeNonce :: "nat \<Rightarrow> bytes" where
  "encodeNonce n = replicate 4 0 @ map (\<lambda>i. word_of_nat (n mod 2 ^ 64 div 256 ^ i mod 256)) [0..<8]"

definition aeadEncrypt :: "prims \<Rightarrow> bytes \<Rightarrow> nat \<Rightarrow> bytes \<Rightarrow> bytes \<Rightarrow> bytes option" where
  "aeadEncrypt P key n ad plaintext = chachaEncrypt P key (encodeNonce n) ad plaintext"

definition aeadDecrypt :: "prims \<Rightarrow> bytes \<Rightarrow> nat \<Rightarrow> bytes \<Rightarrow> bytes \<Rightarrow> bytes option" where
  "aeadDecrypt P key n ad ciphertext = chachaDecrypt P key (encodeNonce n) ad ciphertext"

section \<open>Cipher state and symmetric state\<close>

record CipherState =
  cs_key :: "bytes option"
  cs_n :: nat

definition newCipherState :: CipherState where
  "newCipherState = \<lparr>cs_key = None, cs_n = 0\<rparr>"

definition initializeKey :: "bytes \<Rightarrow> CipherState \<Rightarrow> CipherState" where
  "initializeKey key c = c\<lparr>cs_key := Some key, cs_n := 0\<rparr>"

definition hasKey :: "CipherState \<Rightarrow> bool" where
  "hasKey c \<longleftrightarrow> cs_key c \<noteq> None"

definition encryptWithAd :: "prims \<Rightarrow> bytes \<Rightarrow> bytes \<Rightarrow> CipherState \<Rightarrow> (bytes \<times> CipherState) option" where
  "encryptWithAd P ad plaintext c =
     (case cs_key c of
        None \<Rightarrow> Some (plaintext, c)
      | Some key \<Rightarrow> map_option (\<lambda>ct. (ct, c\<lparr>cs_n := cs_n c + 1\<rparr>)) (aeadEncrypt P key (cs_n c) ad plaintext))"

definition decryptWithAd :: "prims \<Rightarrow> bytes \<Rightarrow> bytes \<Rightarrow> CipherState \<Rightarrow> (bytes \<times> CipherState) option" where
  "decryptWithAd P ad ciphertext c =
     (case cs_key c of
        None \<Rightarrow> Some (ciphertext, c)
      | Some key \<Rightarrow> map_option (\<lambda>pt. (pt, c\<lparr>cs_n := cs_n c + 1\<rparr>)) (aeadDecrypt P key (cs_n c) ad ciphertext))"

definition PROTOCOL_NAME :: bytes where
  "PROTOCOL_NAME = map of_char ''Noise_XX_25519_ChaChaPoly_BLAKE2s''"

record SymmetricState =
  ss_ck :: bytes
  ss_h :: bytes
  ss_cipher :: CipherState

definition newSymmetricState :: "prims \<Rightarrow> SymmetricState" where
  "newSymmetricState P =
     (let h = (if length PROTOCOL_NAME \<le> HASHLEN then PROTOCOL_NAME @ replicate (HASHLEN - length PROTOCOL_NAME) 0
               else ts_hash P PROTOCOL_NAME)
      in \<lparr>ss_ck = h, ss_h = h, ss_cipher = newCipherState\<rparr>)"

definition mixKey :: "prims \<Rightarrow> bytes \<Rightarrow> SymmetricState \<Rightarrow> SymmetricState" where
  "mixKey P ikm s =
     (let (ck, tempK) = noiseHKDF P (ss_ck s) ikm
      in s\<lparr>ss_ck := ck, ss_cipher := initializeKey tempK (ss_cipher s)\<rparr>)"

definition mixHash :: "prims \<Rightarrow> bytes \<Rightarrow> SymmetricState \<Rightarrow> SymmetricState" where
  "mixHash P d s = s\<lparr>ss_h := ts_hash P (ss_h s @ d)\<rparr>"

definition encryptAndHash :: "prims \<Rightarrow> bytes \<Rightarrow> SymmetricState \<Rightarrow> (bytes \<times> SymmetricState) option" where
  "encryptAndHash P plaintext s =
     (case encryptWithAd P (ss_h s) plaintext (ss_cipher s) of
        None \<Rightarrow> None
      | Some (ct, c) \<Rightarrow> Some (ct, mixHash P ct (s\<lparr>ss_cipher := c\<rparr>)))"

definition decryptAndHash :: "prims \<Rightarrow> bytes \<Rightarrow> SymmetricState \<Rightarrow> (bytes \<times> SymmetricState) option" where
  "decryptAndHash P ciphertext s =
     (case decryptWithAd P (ss_h s) ciphertext (ss_cipher s) of
        None \<Rightarrow> None
      | Some (pt, c) \<Rightarrow> Some (pt, mixHash P ciphertext (s\<lparr>ss_cipher := c\<rparr>)))"

definition ts_split :: "prims \<Rightarrow> SymmetricState \<Rightarrow> CipherState \<times> CipherState" where
  "ts_split P s =
     (let (k1, k2) = noiseHKDF P (ss_ck s) []
      in (initializeKey k1 newCipherState, initializeKey k2 newCipherState))"

section \<open>Handshake state\<close>

record HandshakeState =
  symmetric :: SymmetricState
  hs_s :: KeyPair
  hs_random :: bytes
  hs_e :: "KeyPair option"
  hs_rs :: "bytes option"
  hs_re :: "bytes option"
  writeCount :: nat
  readCount :: nat
  hs_initiator :: bool

definition newHandshakeState :: "prims \<Rightarrow> bool \<Rightarrow> KeyPair \<Rightarrow> bytes \<Rightarrow> HandshakeState" where
  "newHandshakeState P init kp rnd =
     \<lparr>symmetric = mixHash P [] (newSymmetricState P), hs_s = kp, hs_random = rnd, hs_e = None, hs_rs = None, hs_re = None,
      writeCount = 0, readCount = 0, hs_initiator = init\<rparr>"

definition peerStaticKey :: "HandshakeState \<Rightarrow> bytes option" where
  "peerStaticKey h = hs_rs h"

text \<open>\<^verbatim>\<open>mixKey(dh(k, re!))\<close>; a remote key that is not there yet makes the call fail.\<close>

definition mixDh :: "prims \<Rightarrow> bytes \<Rightarrow> bytes option \<Rightarrow> SymmetricState \<Rightarrow> SymmetricState option" where
  "mixDh P priv pub s = map_option (\<lambda>k. mixKey P k s) (Option.bind pub (ts_dh P priv))"

definition writeMsg1 :: "prims \<Rightarrow> HandshakeState \<Rightarrow> (bytes \<times> (CipherState \<times> CipherState) option \<times> HandshakeState) option" where
  "writeMsg1 P h =
     (let e = generateKeypair P (hs_random h);
          s = mixHash P (publicKey e) (symmetric h)
      in Option.bind (encryptAndHash P [] s) (\<lambda>(payload, s).
        Some (publicKey e @ payload, None, h\<lparr>hs_e := Some e, symmetric := s, writeCount := writeCount h + 1\<rparr>)))"

definition writeMsg2 :: "prims \<Rightarrow> HandshakeState \<Rightarrow> (bytes \<times> (CipherState \<times> CipherState) option \<times> HandshakeState) option" where
  "writeMsg2 P h =
     (let e = generateKeypair P (hs_random h);
          s = mixHash P (publicKey e) (symmetric h)
      in Option.bind (mixDh P (privateKey e) (hs_re h) s) (\<lambda>s.
         Option.bind (encryptAndHash P (publicKey (hs_s h)) s) (\<lambda>(encryptedS, s).
         Option.bind (mixDh P (privateKey (hs_s h)) (hs_re h) s) (\<lambda>s.
         Option.bind (encryptAndHash P [] s) (\<lambda>(payload, s).
           Some (publicKey e @ encryptedS @ payload, None, h\<lparr>hs_e := Some e, symmetric := s, writeCount := writeCount h + 1\<rparr>))))))"

definition writeMsg3 :: "prims \<Rightarrow> HandshakeState \<Rightarrow> (bytes \<times> (CipherState \<times> CipherState) option \<times> HandshakeState) option" where
  "writeMsg3 P h =
     Option.bind (encryptAndHash P (publicKey (hs_s h)) (symmetric h)) (\<lambda>(encryptedS, s).
     Option.bind (mixDh P (privateKey (hs_s h)) (hs_re h) s) (\<lambda>s.
     Option.bind (encryptAndHash P [] s) (\<lambda>(payload, s).
       Some (encryptedS @ payload, Some (ts_split P s), h\<lparr>symmetric := s, writeCount := writeCount h + 1\<rparr>))))"

definition ts_writeMessage :: "prims \<Rightarrow> HandshakeState \<Rightarrow> (bytes \<times> (CipherState \<times> CipherState) option \<times> HandshakeState) option" where
  "ts_writeMessage P h =
     (if hs_initiator h \<and> writeCount h = 0 then writeMsg1 P h
      else if \<not> hs_initiator h \<and> writeCount h = 0 then writeMsg2 P h
      else if hs_initiator h \<and> writeCount h = 1 then writeMsg3 P h
      else None)"

definition readMsg1 :: "prims \<Rightarrow> bytes \<Rightarrow> HandshakeState \<Rightarrow> ((CipherState \<times> CipherState) option \<times> HandshakeState) option" where
  "readMsg1 P msg h =
     (let re = sliceBytes 0 DHLEN msg; s = mixHash P re (symmetric h)
      in Option.bind (decryptAndHash P (drop DHLEN msg) s) (\<lambda>(_, s).
        Some (None, h\<lparr>hs_re := Some re, symmetric := s, readCount := readCount h + 1\<rparr>)))"

definition readMsg2 :: "prims \<Rightarrow> bytes \<Rightarrow> HandshakeState \<Rightarrow> ((CipherState \<times> CipherState) option \<times> HandshakeState) option" where
  "readMsg2 P msg h =
     (let re = sliceBytes 0 DHLEN msg; s = mixHash P re (symmetric h)
      in Option.bind (hs_e h) (\<lambda>e.
         Option.bind (mixDh P (privateKey e) (Some re) s) (\<lambda>s.
         Option.bind (decryptAndHash P (sliceBytes DHLEN (DHLEN + DHLEN + TAGLEN) msg) s) (\<lambda>(rs, s).
         Option.bind (mixDh P (privateKey e) (Some rs) s) (\<lambda>s.
         Option.bind (decryptAndHash P (drop (DHLEN + DHLEN + TAGLEN) msg) s) (\<lambda>(_, s).
           Some (None, h\<lparr>hs_re := Some re, hs_rs := Some rs, symmetric := s, readCount := readCount h + 1\<rparr>)))))))"

definition readMsg3 :: "prims \<Rightarrow> bytes \<Rightarrow> HandshakeState \<Rightarrow> ((CipherState \<times> CipherState) option \<times> HandshakeState) option" where
  "readMsg3 P msg h =
     Option.bind (decryptAndHash P (sliceBytes 0 (DHLEN + TAGLEN) msg) (symmetric h)) (\<lambda>(rs, s).
     Option.bind (hs_e h) (\<lambda>e.
     Option.bind (mixDh P (privateKey e) (Some rs) s) (\<lambda>s.
     Option.bind (decryptAndHash P (drop (DHLEN + TAGLEN) msg) s) (\<lambda>(_, s).
       Some (Some (ts_split P s), h\<lparr>hs_rs := Some rs, symmetric := s, readCount := readCount h + 1\<rparr>)))))"

definition ts_readMessage :: "prims \<Rightarrow> HandshakeState \<Rightarrow> bytes \<Rightarrow> ((CipherState \<times> CipherState) option \<times> HandshakeState) option" where
  "ts_readMessage P h msg =
     (if \<not> hs_initiator h \<and> readCount h = 0 then readMsg1 P msg h
      else if hs_initiator h \<and> readCount h = 0 then readMsg2 P msg h
      else if \<not> hs_initiator h \<and> readCount h = 1 then readMsg3 P msg h
      else None)"

section \<open>Session\<close>

datatype tsStatus = Handshaking | Ready | Failed

record NoiseSession =
  ts_status :: tsStatus
  ts_handshake :: HandshakeState
  gotFirstMessage :: bool
  sendCipher :: "CipherState option"
  recvCipher :: "CipherState option"
  ts_peerStatic :: "bytes option"
  ts_initiator :: bool

definition newNoiseSession :: "prims \<Rightarrow> bool \<Rightarrow> KeyPair \<Rightarrow> bytes \<Rightarrow> NoiseSession" where
  "newNoiseSession P init kp rnd =
     \<lparr>ts_status = Handshaking, ts_handshake = newHandshakeState P init kp rnd, gotFirstMessage = False, sendCipher = None,
      recvCipher = None, ts_peerStatic = None, ts_initiator = init\<rparr>"

definition ts_startAsInitiator :: "prims \<Rightarrow> KeyPair \<Rightarrow> bytes \<Rightarrow> (NoiseSession \<times> bytes) option" where
  "ts_startAsInitiator P kp rnd =
     (let session = newNoiseSession P True kp rnd
      in map_option (\<lambda>(message, _, h). (session\<lparr>ts_handshake := h\<rparr>, message)) (ts_writeMessage P (ts_handshake session)))"

definition ts_startAsResponder :: "prims \<Rightarrow> KeyPair \<Rightarrow> bytes \<Rightarrow> NoiseSession" where
  "ts_startAsResponder P kp rnd = newNoiseSession P False kp rnd"

definition ts_finish :: "CipherState \<Rightarrow> CipherState \<Rightarrow> NoiseSession \<Rightarrow> NoiseSession" where
  "ts_finish snd_c rcv_c s =
     s\<lparr>sendCipher := Some snd_c, recvCipher := Some rcv_c, ts_peerStatic := peerStaticKey (ts_handshake s), ts_status := Ready\<rparr>"

definition ts_fail :: "NoiseSession \<Rightarrow> NoiseSession" where
  "ts_fail s = (if ts_status s = Failed then s else s\<lparr>ts_status := Failed\<rparr>)"

text \<open>
  The outcome: \<open>None\<close> when the call throws, otherwise the reply, if any. An exception inside the
  handshake fails the session, whose handshake state is not used any more.
\<close>

definition ts_handle :: "prims \<Rightarrow> bytes \<Rightarrow> NoiseSession \<Rightarrow> bytes option option \<times> NoiseSession" where
  "ts_handle P d s =
     (if ts_status s \<noteq> Handshaking then (None, s)
      else if ts_initiator s then
        (case Option.bind (ts_readMessage P (ts_handshake s) d) (\<lambda>(_, h). ts_writeMessage P h) of
           None \<Rightarrow> (Some None, ts_fail s)
         | Some (message, result, h) \<Rightarrow>
             (let s1 = s\<lparr>ts_handshake := h\<rparr>
              in (Some (Some message), case result of None \<Rightarrow> s1 | Some (c1, c2) \<Rightarrow> ts_finish c1 c2 s1)))
      else if \<not> gotFirstMessage s then
        (let s0 = s\<lparr>gotFirstMessage := True\<rparr>
         in case Option.bind (ts_readMessage P (ts_handshake s) d) (\<lambda>(_, h). ts_writeMessage P h) of
              None \<Rightarrow> (Some None, ts_fail s0)
            | Some (message, _, h) \<Rightarrow> (Some (Some message), s0\<lparr>ts_handshake := h\<rparr>))
      else
        (case ts_readMessage P (ts_handshake s) d of
           None \<Rightarrow> (Some None, ts_fail s)
         | Some (result, h) \<Rightarrow>
             (let s1 = s\<lparr>ts_handshake := h\<rparr>
              in (Some None, case result of None \<Rightarrow> s1 | Some (c1, c2) \<Rightarrow> ts_finish c2 c1 s1))))"

definition ts_encrypt :: "prims \<Rightarrow> bytes \<Rightarrow> NoiseSession \<Rightarrow> bytes option \<times> NoiseSession" where
  "ts_encrypt P plaintext s =
     (case (ts_status s, sendCipher s) of
        (Ready, Some c) \<Rightarrow>
          (case encryptWithAd P [] plaintext c of None \<Rightarrow> (None, s) | Some (ct, c') \<Rightarrow> (Some ct, s\<lparr>sendCipher := Some c'\<rparr>))
      | _ \<Rightarrow> (None, s))"

definition ts_decrypt :: "prims \<Rightarrow> bytes \<Rightarrow> NoiseSession \<Rightarrow> bytes option \<times> NoiseSession" where
  "ts_decrypt P ciphertext s =
     (case (ts_status s, recvCipher s) of
        (Ready, Some c) \<Rightarrow>
          (case decryptWithAd P [] ciphertext c of None \<Rightarrow> (None, s) | Some (pt, c') \<Rightarrow> (Some pt, s\<lparr>recvCipher := Some c'\<rparr>))
      | _ \<Rightarrow> (None, s))"

section \<open>The contract\<close>

text \<open>
  What is documented of the primitives: the shared secret of X25519 does not depend on the side
  that computes it, an HKDF yields as many bytes as asked for, and ChaCha20-Poly1305 decrypts what
  it encrypted under the same key, nonce and associated data and adds a tag of 16 bytes.
\<close>

definition prims_contract :: "prims \<Rightarrow> bool" where
  "prims_contract P \<longleftrightarrow>
     (\<forall>a b. length a = 32 \<longrightarrow> length b = 32 \<longrightarrow>
       (\<exists>k. getSharedSecret P a (getPublicKey P b) = Some k \<and> getSharedSecret P b (getPublicKey P a) = Some k)) \<and>
     (\<forall>a. length a = 32 \<longrightarrow> length (getPublicKey P a) = 32) \<and>
     (\<forall>ikm salt. length (hkdfBlake2s P ikm salt 64) = 64) \<and>
     (\<forall>key nonce ad p. length key = 32 \<longrightarrow> length nonce = 12 \<longrightarrow>
       (\<exists>c. chachaEncrypt P key nonce ad p = Some c \<and> chachaDecrypt P key nonce ad c = Some p \<and> length c = length p + 16))"

lemma prims_dh:
  assumes "prims_contract P" and "length a = 32" and "length b = 32"
  obtains k where "ts_dh P a (getPublicKey P b) = Some k" and "ts_dh P b (getPublicKey P a) = Some k"
  using assms unfolding prims_contract_def ts_dh_def by blast

lemma prims_aead:
  assumes "prims_contract P" and "length key = 32"
  obtains c where "aeadEncrypt P key n ad p = Some c" and "aeadDecrypt P key n ad c = Some p" and "length c = length p + 16"
proof -
  have "length (encodeNonce n) = 12" by (simp add: encodeNonce_def)
  with assms that show thesis unfolding prims_contract_def aeadEncrypt_def aeadDecrypt_def by blast
qed

text \<open>A symmetric state with a proper key, and without one.\<close>

definition keyedCipher :: "CipherState \<Rightarrow> bool" where
  "keyedCipher c \<longleftrightarrow> (\<exists>k. cs_key c = Some k \<and> length k = 32)"

lemma keyed_mixKey: "prims_contract P \<Longrightarrow> keyedCipher (ss_cipher (mixKey P k s))"
  by (simp add: prims_contract_def keyedCipher_def mixKey_def noiseHKDF_def sliceBytes_def initializeKey_def HASHLEN_def Let_def)

lemma keyed_split: "prims_contract P \<Longrightarrow> ts_split P s = (c1, c2) \<Longrightarrow> keyedCipher c1 \<and> keyedCipher c2"
  by (auto simp: prims_contract_def keyedCipher_def ts_split_def noiseHKDF_def sliceBytes_def initializeKey_def HASHLEN_def Let_def)

lemma cipher_lockstep:
  assumes "prims_contract P" and "keyedCipher c"
  obtains ct c' where "encryptWithAd P ad pt c = Some (ct, c')" and "decryptWithAd P ad ct c = Some (pt, c')"
    and "length ct = length pt + 16" and "keyedCipher c'"
proof -
  obtain k where k: "cs_key c = Some k" "length k = 32" using assms(2) by (auto simp: keyedCipher_def)
  obtain ct where "aeadEncrypt P k (cs_n c) ad pt = Some ct" "aeadDecrypt P k (cs_n c) ad ct = Some pt" "length ct = length pt + 16"
    using prims_aead [OF assms(1) k(2)] .
  with k show thesis by (intro that [of ct "c\<lparr>cs_n := cs_n c + 1\<rparr>"]) (simp_all add: encryptWithAd_def decryptWithAd_def keyedCipher_def)
qed

text \<open>What one side encrypts from a state, the other side decrypts from the same state, and both move to the same state.\<close>

lemma hash_lockstep:
  assumes "prims_contract P" and "keyedCipher (ss_cipher s)"
  obtains ct s' where "encryptAndHash P pt s = Some (ct, s')" and "decryptAndHash P ct s = Some (pt, s')"
    and "length ct = length pt + 16" and "keyedCipher (ss_cipher s')"
proof -
  obtain ct c where "encryptWithAd P (ss_h s) pt (ss_cipher s) = Some (ct, c)" "decryptWithAd P (ss_h s) ct (ss_cipher s) = Some (pt, c)"
    "length ct = length pt + 16" "keyedCipher c"
    by (rule cipher_lockstep [OF assms])
  then show thesis
    by (intro that [of ct "mixHash P ct (s\<lparr>ss_cipher := c\<rparr>)"]) (simp_all add: encryptAndHash_def decryptAndHash_def mixHash_def)
qed

lemma dh_lockstep:
  assumes "prims_contract P" and "length a = 32" and "length b = 32"
  obtains s' where "mixDh P a (Some (getPublicKey P b)) s = Some s'" and "mixDh P b (Some (getPublicKey P a)) s = Some s'"
    and "keyedCipher (ss_cipher s')"
proof -
  obtain k where "ts_dh P a (getPublicKey P b) = Some k" "ts_dh P b (getPublicKey P a) = Some k"
    using prims_dh [OF assms] .
  then show thesis by (intro that [of "mixKey P k s"]) (simp_all add: mixDh_def keyed_mixKey [OF assms(1)])
qed

section \<open>Nonces\<close>

text \<open>The nonces of a key are different for the first \<open>2 ^ 64\<close> messages, and then they repeat: the counter is not checked.\<close>

lemma digits_determine:
  "(\<And>i. i < k \<Longrightarrow> n div 256 ^ i mod 256 = m div 256 ^ i mod 256) \<Longrightarrow> n mod 256 ^ k = m mod (256 :: nat) ^ k"
proof (induction k)
  case (Suc k)
  have "x mod 256 ^ Suc k = x mod 256 ^ k + 256 ^ k * (x div 256 ^ k mod 256)" for x :: nat
    by (simp only: power_Suc2 mod_mult2_eq add.commute)
  with Suc show ?case by simp
qed simp

lemma encodeNonce_inj:
  assumes "n < 2 ^ 64" and "m < 2 ^ 64" and "encodeNonce n = encodeNonce m"
  shows "n = m"
proof -
  have byte: "unat (word_of_nat (x mod 256) :: 8 word) = x mod 256" for x by (simp add: unat_of_nat)
  have "n div 256 ^ i mod 256 = m div 256 ^ i mod 256" if "i < 8" for i
  proof -
    have "(word_of_nat (n div 256 ^ i mod 256) :: 8 word) = word_of_nat (m div 256 ^ i mod 256)"
      using assms that unfolding encodeNonce_def by (auto dest!: map_eq_conv [THEN iffD1] bspec [of _ _ i])
    then show ?thesis using byte by metis
  qed
  then have "n mod 256 ^ 8 = m mod 256 ^ 8" by (rule digits_determine)
  with assms(1,2) show ?thesis by simp
qed

lemma encodeNonce_wraps: "encodeNonce (n + 2 ^ 64) = encodeNonce n"
  by (simp add: encodeNonce_def)

section \<open>The library\<close>

definition tsLib :: "prims \<Rightarrow> (HandshakeState, CipherState) noiseLib" where
  "tsLib P =
     \<lparr>NewHandshakeState = (\<lambda>init priv rnd.
        Some (newHandshakeState P init \<lparr>privateKey = priv, publicKey = publicKeyFromPrivate P priv\<rparr> rnd)),
      WriteMessage = ts_writeMessage P,
      ReadMessage = ts_readMessage P,
      PeerStatic = (\<lambda>h. case peerStaticKey h of None \<Rightarrow> [] | Some k \<Rightarrow> k),
      Encrypt = (\<lambda>c m. encryptWithAd P [] m c),
      Decrypt = (\<lambda>c ct. decryptWithAd P [] ct c)\<rparr>"

definition tsPaired :: "nat \<Rightarrow> CipherState \<Rightarrow> CipherState \<Rightarrow> bool" where
  "tsPaired n c d \<longleftrightarrow> c = d \<and> keyedCipher c"

section \<open>The handshake in lockstep\<close>

text \<open>The states of the two sides during a handshake with the ephemeral keys \<open>r\<close>, \<open>r'\<close> and the static keys \<open>p\<close>, \<open>q\<close>.\<close>

definition pairOf :: "prims \<Rightarrow> bytes \<Rightarrow> KeyPair" where
  "pairOf P priv = \<lparr>privateKey = priv, publicKey = getPublicKey P priv\<rparr>"

lemma generateKeypair_pairOf [simp]: "generateKeypair P rnd = pairOf P rnd"
  by (simp add: generateKeypair_def pairOf_def)

lemma pairOf_fields [simp]: "privateKey (pairOf P k) = k" "publicKey (pairOf P k) = getPublicKey P k"
  by (simp_all add: pairOf_def)

lemma msg1_lockstep:
  assumes "prims_contract P" and "length r = 32"
    and "h = newHandshakeState P True kp r" and "g = newHandshakeState P False kq r'"
  obtains m1 s where "ts_writeMessage P h = Some (m1, None, h\<lparr>hs_e := Some (pairOf P r), symmetric := s, writeCount := 1\<rparr>)"
    and "ts_readMessage P g m1 = Some (None, g\<lparr>hs_re := Some (getPublicKey P r), symmetric := s, readCount := 1\<rparr>)"
proof -
  let ?s = "mixHash P (getPublicKey P r) (mixHash P [] (newSymmetricState P))"
  have none: "cs_key (ss_cipher ?s) = None" by (simp add: mixHash_def newSymmetricState_def newCipherState_def Let_def)
  have len: "length (getPublicKey P r) = 32" using assms(1,2) by (simp add: prims_contract_def)
  show thesis
  proof (rule that)
    show "ts_writeMessage P h = Some (getPublicKey P r, None, h\<lparr>hs_e := Some (pairOf P r), symmetric := mixHash P [] ?s, writeCount := 1\<rparr>)"
      using none assms(3)
      by (simp add: ts_writeMessage_def writeMsg1_def newHandshakeState_def encryptAndHash_def encryptWithAd_def Let_def)
    show "ts_readMessage P g (getPublicKey P r) =
        Some (None, g\<lparr>hs_re := Some (getPublicKey P r), symmetric := mixHash P [] ?s, readCount := 1\<rparr>)"
      using none len assms(4)
      by (simp add: ts_readMessage_def readMsg1_def newHandshakeState_def decryptAndHash_def decryptWithAd_def sliceBytes_def DHLEN_def Let_def)
  qed
qed

lemma msg2_lockstep:
  assumes "prims_contract P" and "length r = 32" and "length r' = 32" and "length q = 32"
    and "\<not> hs_initiator g" and "writeCount g = 0" and "hs_re g = Some (getPublicKey P r)" and "hs_s g = pairOf P q" and "hs_random g = r'"
    and "hs_initiator h" and "readCount h = 0" and "hs_e h = Some (pairOf P r)" and "symmetric h = symmetric g"
  obtains m2 s where "ts_writeMessage P g = Some (m2, None, g\<lparr>hs_e := Some (pairOf P r'), symmetric := s, writeCount := 1\<rparr>)"
    and "ts_readMessage P h m2 = Some (None, h\<lparr>hs_re := Some (getPublicKey P r'), hs_rs := Some (getPublicKey P q), symmetric := s, readCount := 1\<rparr>)"
    and "keyedCipher (ss_cipher s)"
proof -
  let ?s0 = "mixHash P (getPublicKey P r') (symmetric g)"
  obtain s1 where s1: "mixDh P r' (Some (getPublicKey P r)) ?s0 = Some s1" "mixDh P r (Some (getPublicKey P r')) ?s0 = Some s1" "keyedCipher (ss_cipher s1)"
    by (rule dh_lockstep [OF assms(1,3,2)])
  obtain es s2 where s2: "encryptAndHash P (getPublicKey P q) s1 = Some (es, s2)" "decryptAndHash P es s1 = Some (getPublicKey P q, s2)"
    "length es = length (getPublicKey P q) + 16"
    by (rule hash_lockstep [OF assms(1) s1(3)])
  obtain s3 where s3: "mixDh P q (Some (getPublicKey P r)) s2 = Some s3" "mixDh P r (Some (getPublicKey P q)) s2 = Some s3" "keyedCipher (ss_cipher s3)"
    by (rule dh_lockstep [OF assms(1,4,2)])
  obtain pl s4 where s4: "encryptAndHash P [] s3 = Some (pl, s4)" "decryptAndHash P pl s3 = Some ([], s4)" "keyedCipher (ss_cipher s4)"
    by (rule hash_lockstep [OF assms(1) s3(3)])
  have len: "length (getPublicKey P r') = 32" "length es = 48" using assms(1,3,4) s2(3) by (simp_all add: prims_contract_def)
  show thesis
  proof (rule that [OF _ _ s4(3)])
    show "ts_writeMessage P g = Some (getPublicKey P r' @ es @ pl, None, g\<lparr>hs_e := Some (pairOf P r'), symmetric := s4, writeCount := 1\<rparr>)"
      using assms(5-9) s1(1) s2(1) s3(1) s4(1) by (simp add: ts_writeMessage_def writeMsg2_def Let_def)
    show "ts_readMessage P h (getPublicKey P r' @ es @ pl) =
        Some (None, h\<lparr>hs_re := Some (getPublicKey P r'), hs_rs := Some (getPublicKey P q), symmetric := s4, readCount := 1\<rparr>)"
      using assms(10-13) s1(2) s2(2) s3(2) s4(2) len
      by (simp add: ts_readMessage_def readMsg2_def sliceBytes_def DHLEN_def TAGLEN_def Let_def)
  qed
qed

lemma msg3_lockstep:
  assumes "prims_contract P" and "length r' = 32" and "length p = 32"
    and "hs_initiator h" and "writeCount h = 1" and "hs_re h = Some (getPublicKey P r')" and "hs_s h = pairOf P p"
    and "\<not> hs_initiator g" and "readCount g = 1" and "hs_e g = Some (pairOf P r')" and "symmetric h = symmetric g"
    and "keyedCipher (ss_cipher (symmetric g))"
  obtains m3 s where "ts_writeMessage P h = Some (m3, Some (ts_split P s), h\<lparr>symmetric := s, writeCount := 2\<rparr>)"
    and "ts_readMessage P g m3 = Some (Some (ts_split P s), g\<lparr>hs_rs := Some (getPublicKey P p), symmetric := s, readCount := 2\<rparr>)"
proof -
  obtain es s1 where s1: "encryptAndHash P (getPublicKey P p) (symmetric g) = Some (es, s1)"
    "decryptAndHash P es (symmetric g) = Some (getPublicKey P p, s1)" "length es = length (getPublicKey P p) + 16"
    by (rule hash_lockstep [OF assms(1,12)])
  obtain s2 where s2: "mixDh P p (Some (getPublicKey P r')) s1 = Some s2" "mixDh P r' (Some (getPublicKey P p)) s1 = Some s2" "keyedCipher (ss_cipher s2)"
    by (rule dh_lockstep [OF assms(1,3,2)])
  obtain pl s3 where s3: "encryptAndHash P [] s2 = Some (pl, s3)" "decryptAndHash P pl s2 = Some ([], s3)"
    by (rule hash_lockstep [OF assms(1) s2(3)])
  have len: "length es = 48" using assms(1,3) s1(3) by (simp add: prims_contract_def)
  show thesis
  proof (rule that)
    show "ts_writeMessage P h = Some (es @ pl, Some (ts_split P s3), h\<lparr>symmetric := s3, writeCount := 2\<rparr>)"
      using assms(4-7,11) s1(1) s2(1) s3(1) by (simp add: ts_writeMessage_def writeMsg3_def)
    show "ts_readMessage P g (es @ pl) = Some (Some (ts_split P s3), g\<lparr>hs_rs := Some (getPublicKey P p), symmetric := s3, readCount := 2\<rparr>)"
      using assms(8-10) s1(2) s2(2) s3(2) len
      by (simp add: ts_readMessage_def readMsg3_def sliceBytes_def DHLEN_def TAGLEN_def)
  qed
qed

section \<open>Two libraries, one session\<close>

text \<open>
  A session of the TypeScript library and a session of the Go library that runs on the same
  handshake implementation: they are in the same state as far as either can be observed.
\<close>

definition agrees :: "NoiseSession \<Rightarrow> (HandshakeState, CipherState) noiseSession \<Rightarrow> bool" where
  "agrees t s \<longleftrightarrow> initiator s = ts_initiator t \<and>
     (case ts_status t of
        Handshaking \<Rightarrow> session_status s = statusHandshaking \<and> hs s = ts_handshake t \<and> gotMsg1 s = gotFirstMessage t \<and>
          hs_initiator (hs s) = initiator s \<and>
          writeCount (hs s) = (if initiator s \<or> gotMsg1 s then 1 else 0) \<and> readCount (hs s) = (if gotMsg1 s then 1 else 0) \<and>
          (initiator s \<longrightarrow> \<not> gotMsg1 s)
      | Ready \<Rightarrow> session_status s = statusReady \<and> ts_peerStatic t = Some (peerStatic s) \<and>
          (\<exists>c d. sendCipher t = Some c \<and> recvCipher t = Some d \<and> cipherStates s = Some (c, d))
      | Failed \<Rightarrow> session_status s = statusFailed)"

lemma read_counts:
  assumes "ts_readMessage P h d = Some (r, h')"
  shows "hs_initiator h' = hs_initiator h" and "writeCount h' = writeCount h" and "readCount h' = readCount h + 1"
    and "r = None \<longleftrightarrow> readCount h = 0" and "readCount h = 1 \<or> hs_initiator h \<Longrightarrow> hs_rs h' \<noteq> None"
  using assms
  by (auto simp: ts_readMessage_def readMsg1_def readMsg2_def readMsg3_def Let_def bind_eq_Some_conv split: if_splits)

lemma write_counts:
  assumes "ts_writeMessage P h = Some (m, r, h')"
  shows "hs_initiator h' = hs_initiator h" and "writeCount h' = writeCount h + 1" and "readCount h' = readCount h"
    and "r = None \<longleftrightarrow> writeCount h = 0" and "hs_rs h' = hs_rs h"
  using assms
  by (auto simp: ts_writeMessage_def writeMsg1_def writeMsg2_def writeMsg3_def Let_def bind_eq_Some_conv split: if_splits)

lemma tsLib_simps [simp]:
  "WriteMessage (tsLib P) = ts_writeMessage P" "ReadMessage (tsLib P) = ts_readMessage P"
  "NewHandshakeState (tsLib P) i priv rnd = Some (newHandshakeState P i (pairOf P priv) rnd)"
  "PeerStatic (tsLib P) h = (case hs_rs h of None \<Rightarrow> [] | Some k \<Rightarrow> k)"
  "Encrypt (tsLib P) c m = encryptWithAd P [] m c" "Decrypt (tsLib P) c m = decryptWithAd P [] m c"
  by (simp_all add: tsLib_def pairOf_def publicKeyFromPrivate_def peerStaticKey_def)

lemma newHandshakeState_fields [simp]:
  "hs_initiator (newHandshakeState P i kp r) = i" "writeCount (newHandshakeState P i kp r) = 0" "readCount (newHandshakeState P i kp r) = 0"
  "hs_s (newHandshakeState P i kp r) = kp" "hs_random (newHandshakeState P i kp r) = r"
  by (simp_all add: newHandshakeState_def)

lemma agrees_initiator:
  assumes "ts_startAsInitiator P (pairOf P priv) rnd = Some (t, m)"
  shows "\<exists>s. newInitiatorSession (tsLib P) rnd priv = Inr (s, m) \<and> agrees t s"
proof -
  let ?h = "newHandshakeState P True (pairOf P priv) rnd"
  obtain r h' where w: "ts_writeMessage P ?h = Some (m, r, h')" and t: "t = (newNoiseSession P True (pairOf P priv) rnd)\<lparr>ts_handshake := h'\<rparr>"
    using assms by (auto simp: ts_startAsInitiator_def newNoiseSession_def Let_def)
  with write_counts [OF w] show ?thesis
    by (simp add: newInitiatorSession_def agrees_def newNoiseSession_def)
qed

lemma agrees_responder: "\<exists>s. newResponderSession (tsLib P) rnd priv = Inr s \<and> agrees (ts_startAsResponder P (pairOf P priv) rnd) s"
  by (simp add: newResponderSession_def agrees_def newNoiseSession_def ts_startAsResponder_def)

lemma agrees_handle_initiator:
  assumes "agrees t s" and "ts_status t = Handshaking" and "ts_initiator t"
    and "handleHandshakeMessage (tsLib P) d s = ((reply, fin, err), s')" and "ts_handle P d t = (r, t')"
  shows "agrees t' s' \<and> r = Some reply \<and> (fin \<longleftrightarrow> ts_status t' \<noteq> Handshaking) \<and> (err = None \<longleftrightarrow> ts_status t' \<noteq> Failed)"
proof -
  have s: "session_status s = statusHandshaking" "initiator s" "hs s = ts_handshake t" "hs_initiator (hs s)" "writeCount (hs s) = 1" "readCount (hs s) = 0"
    using assms(1-3) by (auto simp: agrees_def)
  show ?thesis
  proof (cases "ts_readMessage P (hs s) d")
    case None
    then show ?thesis
      using assms s by (auto simp: handleHandshakeMessage_def ts_handle_def failLocked_def ts_fail_def agrees_def Let_def)
  next
    case (Some a)
    then obtain x h where rd: "ts_readMessage P (hs s) d = Some (x, h)" by (cases a) simp
    note rc = read_counts [OF rd]
    show ?thesis
    proof (cases "ts_writeMessage P h")
      case None
      then show ?thesis
        using assms s rd by (auto simp: handleHandshakeMessage_def ts_handle_def failLocked_def ts_fail_def agrees_def Let_def)
    next
      case (Some b)
      then obtain m cs h' where wr: "ts_writeMessage P h = Some (m, cs, h')" by (metis prod_cases3)
      note wc = write_counts [OF wr]
      obtain c1 c2 where cs: "cs = Some (c1, c2)" using wc(4) rc(2) s(5) by (cases cs) auto
      obtain key where "hs_rs h' = Some key" using rc(5) wc(5) s(4) by auto
      then show ?thesis
        using assms s rd wr cs
        by (auto simp: handleHandshakeMessage_def ts_handle_def finishLocked_def ts_finish_def peerStaticKey_def agrees_def Let_def)
    qed
  qed
qed

lemma agrees_handle_responder:
  assumes "agrees t s" and "ts_status t = Handshaking" and "\<not> ts_initiator t"
    and "handleHandshakeMessage (tsLib P) d s = ((reply, fin, err), s')" and "ts_handle P d t = (r, t')"
  shows "agrees t' s' \<and> r = Some reply \<and> (fin \<longleftrightarrow> ts_status t' \<noteq> Handshaking) \<and> (err = None \<longleftrightarrow> ts_status t' \<noteq> Failed)"
proof -
  have s: "session_status s = statusHandshaking" "\<not> initiator s" "hs s = ts_handshake t" "gotMsg1 s = gotFirstMessage t" "\<not> hs_initiator (hs s)"
    "writeCount (hs s) = (if gotMsg1 s then 1 else 0)" "readCount (hs s) = (if gotMsg1 s then 1 else 0)"
    using assms(1-3) by (auto simp: agrees_def)
  show ?thesis
  proof (cases "ts_readMessage P (hs s) d")
    case None
    then show ?thesis
      using assms s by (auto simp: handleHandshakeMessage_def ts_handle_def failLocked_def ts_fail_def agrees_def Let_def)
  next
    case (Some a)
    then obtain x h where rd: "ts_readMessage P (hs s) d = Some (x, h)" by (cases a) simp
    note rc = read_counts [OF rd]
    show ?thesis
    proof (cases "gotMsg1 s")
      case True
      obtain c1 c2 where cs: "x = Some (c1, c2)" using rc(4) s(7) True by (cases x) auto
      obtain key where "hs_rs h = Some key" using rc(5) s(7) True by auto
      then show ?thesis
        using assms s rd cs True
        by (auto simp: handleHandshakeMessage_def ts_handle_def finishLocked_def ts_finish_def peerStaticKey_def swapPair_def agrees_def Let_def)
    next
      case False
      show ?thesis
      proof (cases "ts_writeMessage P h")
        case None
        then show ?thesis
          using assms s rd False by (auto simp: handleHandshakeMessage_def ts_handle_def failLocked_def ts_fail_def agrees_def Let_def)
      next
        case (Some b)
        then obtain m cs h' where wr: "ts_writeMessage P h = Some (m, cs, h')" by (metis prod_cases3)
        then show ?thesis
          using assms s rd False rc(1-3) write_counts [OF wr] by (auto simp: handleHandshakeMessage_def ts_handle_def agrees_def Let_def)
      qed
    qed
  qed
qed

lemma agrees_crypt:
  assumes "agrees t s"
  shows "fst (ts_encrypt P m t) = (case fst (encrypt (tsLib P) m s) of Inl _ \<Rightarrow> None | Inr ct \<Rightarrow> Some ct)"
    and "agrees (snd (ts_encrypt P m t)) (snd (encrypt (tsLib P) m s))"
    and "fst (ts_decrypt P m t) = (case fst (decrypt (tsLib P) m s) of Inl _ \<Rightarrow> None | Inr pt \<Rightarrow> Some pt)"
    and "agrees (snd (ts_decrypt P m t)) (snd (decrypt (tsLib P) m s))"
  using assms
  by (auto simp: agrees_def ts_encrypt_def encrypt_def ts_decrypt_def decrypt_def split: tsStatus.splits option.split)

lemma tsLib_contract:
  assumes "prims_contract P"
  shows "noise_contract (tsLib P) (getPublicKey P) tsPaired N"
  unfolding noise_contract_def
proof (intro conjI allI impI)
  fix p q r r' :: bytes
  assume len: "length p = 32" "length q = 32" "length r = 32" "length r' = 32"
  let ?h0 = "newHandshakeState P True (pairOf P p) r" and ?g0 = "newHandshakeState P False (pairOf P q) r'"
  obtain m1 s1 where m1: "ts_writeMessage P ?h0 = Some (m1, None, ?h0\<lparr>hs_e := Some (pairOf P r), symmetric := s1, writeCount := 1\<rparr>)"
    "ts_readMessage P ?g0 m1 = Some (None, ?g0\<lparr>hs_re := Some (getPublicKey P r), symmetric := s1, readCount := 1\<rparr>)"
    by (rule msg1_lockstep [OF assms len(3) refl refl])
  let ?h1 = "?h0\<lparr>hs_e := Some (pairOf P r), symmetric := s1, writeCount := 1\<rparr>"
    and ?g1 = "?g0\<lparr>hs_re := Some (getPublicKey P r), symmetric := s1, readCount := 1\<rparr>"
  obtain m2 s2 where m2: "ts_writeMessage P ?g1 = Some (m2, None, ?g1\<lparr>hs_e := Some (pairOf P r'), symmetric := s2, writeCount := 1\<rparr>)"
    "ts_readMessage P ?h1 m2 = Some (None, ?h1\<lparr>hs_re := Some (getPublicKey P r'), hs_rs := Some (getPublicKey P q), symmetric := s2, readCount := 1\<rparr>)"
    "keyedCipher (ss_cipher s2)"
    by (rule msg2_lockstep [OF assms len(3,4,2), of ?g1 ?h1]) simp_all
  let ?g2 = "?g1\<lparr>hs_e := Some (pairOf P r'), symmetric := s2, writeCount := 1\<rparr>"
    and ?h2 = "?h1\<lparr>hs_re := Some (getPublicKey P r'), hs_rs := Some (getPublicKey P q), symmetric := s2, readCount := 1\<rparr>"
  obtain m3 s3 where m3: "ts_writeMessage P ?h2 = Some (m3, Some (ts_split P s3), ?h2\<lparr>symmetric := s3, writeCount := 2\<rparr>)"
    "ts_readMessage P ?g2 m3 = Some (Some (ts_split P s3), ?g2\<lparr>hs_rs := Some (getPublicKey P p), symmetric := s3, readCount := 2\<rparr>)"
    by (rule msg3_lockstep [OF assms len(4,1), of ?h2 ?g2]) (use m2(3) in simp_all)
  obtain c1 c2 where sp: "ts_split P s3 = (c1, c2)" "keyedCipher c1" "keyedCipher c2"
    using keyed_split [OF assms, of s3] by (cases "ts_split P s3") auto
  show "\<exists>h0 g0 m1 h1 g1 m2 g2 h2 m3 c1 c2 h3 d1 d2 g3.
    NewHandshakeState (tsLib P) True p r = Some h0 \<and> NewHandshakeState (tsLib P) False q r' = Some g0 \<and>
    WriteMessage (tsLib P) h0 = Some (m1, None, h1) \<and> ReadMessage (tsLib P) g0 m1 = Some (None, g1) \<and>
    WriteMessage (tsLib P) g1 = Some (m2, None, g2) \<and> ReadMessage (tsLib P) h1 m2 = Some (None, h2) \<and>
    WriteMessage (tsLib P) h2 = Some (m3, Some (c1, c2), h3) \<and> ReadMessage (tsLib P) g2 m3 = Some (Some (d1, d2), g3) \<and>
    PeerStatic (tsLib P) h3 = getPublicKey P q \<and> PeerStatic (tsLib P) g3 = getPublicKey P p \<and> tsPaired N c1 d1 \<and> tsPaired N d2 c2"
    by (rule exI [of _ ?h0], rule exI [of _ ?g0], rule exI [of _ m1], rule exI [of _ ?h1], rule exI [of _ ?g1], rule exI [of _ m2],
        rule exI [of _ ?g2], rule exI [of _ ?h2], rule exI [of _ m3], rule exI [of _ c1], rule exI [of _ c2],
        rule exI [of _ "?h2\<lparr>symmetric := s3, writeCount := 2\<rparr>"], rule exI [of _ c1], rule exI [of _ c2],
        rule exI [of _ "?g2\<lparr>hs_rs := Some (getPublicKey P p), symmetric := s3, readCount := 2\<rparr>"])
      (use m1 m2 m3 sp in \<open>simp add: tsPaired_def\<close>)
next
  fix n c d m assume "tsPaired (Suc n) c d"
  then have "keyedCipher c" "d = c" by (auto simp: tsPaired_def)
  then show "\<exists>ct c' d'. Encrypt (tsLib P) c m = Some (ct, c') \<and> Decrypt (tsLib P) d ct = Some (m, d') \<and> tsPaired n c' d'"
    by (auto intro: cipher_lockstep [OF assms \<open>keyedCipher c\<close>, of "[]" m] simp: tsPaired_def)
qed

section \<open>Properties\<close>

text \<open>
  C9: the handshake of the TypeScript library is correct. Whatever X25519, BLAKE2s, HKDF and
  ChaCha20-Poly1305 compute, as long as they keep what is documented of them, two parties that
  pass each other the three messages of the implementation finish with the static key of the
  other side and with the same two transport keys, and everything encrypted with a key is
  decrypted with its counterpart, in order. This is the contract under which the clients are
  verified.
\<close>

theorem ts_noise_contract:
  assumes "prims_contract P"
  shows "noise_contract (tsLib P) (getPublicKey P) tsPaired N"
  by (rule tsLib_contract [OF assms])

text \<open>Primitives without security that keep what is assumed of them.\<close>

definition toyPrims :: prims where
  "toyPrims = \<lparr>getPublicKey = id, getSharedSecret = (\<lambda>a b. Some (map2 (+) a b)), blake2s = id,
     hkdfBlake2s = (\<lambda>ikm salt n. replicate n 0), chachaEncrypt = (\<lambda>key nonce ad p. Some (p @ replicate 16 0)),
     chachaDecrypt = (\<lambda>key nonce ad c. Some (take (length c - 16) c))\<rparr>"

lemma toyPrims_contract: "prims_contract toyPrims"
proof -
  have "map2 (+) a b = map2 (+) b a" for a b :: bytes
    by (induction a b rule: list_induct2') (simp_all add: add.commute)
  then show ?thesis by (simp add: prims_contract_def toyPrims_def)
qed

theorem ts_noise_contract_witness: "noise_contract (tsLib toyPrims) (getPublicKey toyPrims) tsPaired 7"
  using ts_noise_contract [OF toyPrims_contract] by simp

text \<open>
  The two libraries have the same session. A session of the TypeScript library and one of the
  Go library over the same handshake implementation that agree keep agreeing: a handshake message
  gets the same reply and leads to the same state, a message after the end is refused by both
  without effect, and encryption and decryption give the same results.
\<close>

theorem ts_go_sessions_agree:
  assumes "agrees t s" and "handleHandshakeMessage (tsLib P) d s = ((reply, fin, err), s')" and "ts_handle P d t = (r, t')"
  shows "agrees t' s' \<and> r = (if ts_status t = Handshaking then Some reply else None) \<and>
    (fin \<longleftrightarrow> ts_status t' \<noteq> Handshaking) \<and> (ts_status t = Handshaking \<longrightarrow> (err = None \<longleftrightarrow> ts_status t' \<noteq> Failed)) \<and>
    fst (ts_encrypt P m t) = (case fst (encrypt (tsLib P) m s) of Inl _ \<Rightarrow> None | Inr ct \<Rightarrow> Some ct) \<and>
    fst (ts_decrypt P m t) = (case fst (decrypt (tsLib P) m s) of Inl _ \<Rightarrow> None | Inr pt \<Rightarrow> Some pt) \<and>
    agrees (snd (ts_encrypt P m t)) (snd (encrypt (tsLib P) m s)) \<and> agrees (snd (ts_decrypt P m t)) (snd (decrypt (tsLib P) m s))"
proof (cases "ts_status t = Handshaking")
  case True
  then show ?thesis
    using agrees_handle_initiator [OF assms(1) True _ assms(2,3)] agrees_handle_responder [OF assms(1) True _ assms(2,3)]
      agrees_crypt [OF assms(1)] by (cases "ts_initiator t") simp_all
next
  case False
  then have "session_status s \<noteq> statusHandshaking" using assms(1) by (auto simp: agrees_def split: tsStatus.splits)
  then have "s' = s" "fin" using assms(2) by (auto simp: handleHandshakeMessage_def)
  moreover have "t' = t" "r = None" using assms(3) False by (auto simp: ts_handle_def)
  ultimately show ?thesis using False assms(1) agrees_crypt [OF assms(1)] by simp
qed

theorem ts_go_sessions_agree_witness:
  "\<exists>s reply fin err s' r t'. newResponderSession (tsLib toyPrims) [] (replicate 32 1) = Inr s \<and>
     handleHandshakeMessage (tsLib toyPrims) [9] s = ((reply, fin, err), s') \<and>
     ts_handle toyPrims [9] (ts_startAsResponder toyPrims (pairOf toyPrims (replicate 32 1)) []) = (r, t') \<and> r = Some reply \<and> agrees t' s'"
proof -
  let ?t = "ts_startAsResponder toyPrims (pairOf toyPrims (replicate 32 1)) []"
  obtain s where s: "newResponderSession (tsLib toyPrims) [] (replicate 32 1) = Inr s" "agrees ?t s"
    using agrees_responder by blast
  obtain reply fin err s' where h: "handleHandshakeMessage (tsLib toyPrims) [9] s = ((reply, fin, err), s')" by (metis prod_cases3 surj_pair)
  obtain r t' where t: "ts_handle toyPrims [9] ?t = (r, t')" by (meson surj_pair)
  have "ts_status ?t = Handshaking" by (simp add: ts_startAsResponder_def newNoiseSession_def)
  with ts_go_sessions_agree [OF s(2) h t, of "[]"] s(1) h t show ?thesis by auto
qed

end
