(* ===== verification/Interop_Harness.thy ===== *)
theory Interop_Harness
  imports Relayly_Prelude
begin

text \<open>
  The logic of the interoperability harness (\<^verbatim>\<open>interop/harness\<close>): waiting for events of a
  client process (\<^verbatim>\<open>instance.go\<close>), the man-in-the-middle proxy (\<^verbatim>\<open>proxy.go\<close>) and the matrix
  of runs (\<^verbatim>\<open>matrix.go\<close>). Starting processes, building binaries and sockets are outside; what a
  scenario returned is an argument.
\<close>

section \<open>Events of an instance\<close>

datatype jvalue = JStr string | JBool bool | JOther

type_synonym Event = "string \<rightharpoonup> jvalue"

definition Str :: "string \<Rightarrow> Event \<Rightarrow> string" where
  "Str key e = (case e key of Some (JStr s) \<Rightarrow> s | _ \<Rightarrow> '''')"

definition Bool :: "string \<Rightarrow> Event \<Rightarrow> bool" where
  "Bool key e = (case e key of Some (JBool b) \<Rightarrow> b | _ \<Rightarrow> False)"

definition EventType :: "Event \<Rightarrow> string" where
  "EventType e = Str ''event'' e"

text \<open>
  What the select of \<open>WaitFor\<close> meets, round by round: an event, the closed stream, or the
  deadline (also when the script ends).
\<close>

datatype 'e rawStep = Got 'e | StreamClosed | DeadlinePassed

datatype wait_error = TimedOut | StreamEnded

fun takeFirst :: "('e \<Rightarrow> bool) \<Rightarrow> 'e list \<Rightarrow> ('e \<times> 'e list) option" where
  "takeFirst p [] = None"
| "takeFirst p (x # xs) = (if p x then Some (x, xs) else map_option (\<lambda>(y, ys). (y, x # ys)) (takeFirst p xs))"

fun waitRaw :: "('e \<Rightarrow> bool) \<Rightarrow> 'e list \<Rightarrow> 'e rawStep list \<Rightarrow> (wait_error + 'e) \<times> 'e list \<times> 'e rawStep list" where
  "waitRaw p backlog [] = (Inl TimedOut, backlog, [])"
| "waitRaw p backlog (DeadlinePassed # rs) = (Inl TimedOut, backlog, rs)"
| "waitRaw p backlog (StreamClosed # rs) = (Inl StreamEnded, backlog, StreamClosed # rs)"
| "waitRaw p backlog (Got e # rs) = (if p e then (Inr e, backlog, rs) else waitRaw p (backlog @ [e]) rs)"

definition WaitFor :: "('e \<Rightarrow> bool) \<Rightarrow> 'e list \<Rightarrow> 'e rawStep list \<Rightarrow> (wait_error + 'e) \<times> 'e list \<times> 'e rawStep list" where
  "WaitFor p backlog rs =
     (case takeFirst p backlog of
        Some (e, rest) \<Rightarrow> (Inr e, rest, rs)
      | None \<Rightarrow> waitRaw p backlog rs)"

text \<open>The command line of a client process, and the outcome of starting it.\<close>

record SDKDef =
  sdk_Name :: string
  sdk_Command :: string
  sdk_Args :: "string list"

definition startArgs :: "SDKDef \<Rightarrow> string \<Rightarrow> device_id \<Rightarrow> string \<Rightarrow> string \<Rightarrow> string list" where
  "startArgs def serverURL deviceID token peerStorePath =
     sdk_Args def @ [''--server'', serverURL, ''--device-id'', deviceID, ''--device-token'', token] @
     (if peerStorePath \<noteq> '''' then [''--peer-store-path'', peerStorePath] else [])"

datatype start_failure = NotReady wait_error | ConnectError string

definition StartInstance :: "Event rawStep list \<Rightarrow> (start_failure + Event list) \<times> Event rawStep list" where
  "StartInstance rs =
     (case WaitFor (\<lambda>e. EventType e = ''ready'' \<or> EventType e = ''connect_error'') [] rs of
        (Inl err, backlog, rest) \<Rightarrow> (Inl (NotReady err), rest)
      | (Inr e, backlog, rest) \<Rightarrow>
          (if EventType e = ''connect_error'' then (Inl (ConnectError (Str ''message'' e)), rest)
           else (Inr backlog, rest)))"

section \<open>The proxy\<close>

text \<open>
  A frame is text that parses to a JSON object, other text, or binary. Connections have
  identities.
\<close>

datatype proxyFrame = ObjectText "string \<rightharpoonup> jvalue" | OtherText bytes | BinaryData bytes

type_synonym pconn = nat

record Proxy =
  proxy_rules :: "device_id \<rightharpoonup> string"
  proxy_conns :: "device_id \<rightharpoonup> pconn"
  proxy_closed :: "pconn list"

definition NewProxy :: Proxy where
  "NewProxy = \<lparr>proxy_rules = Map.empty, proxy_conns = Map.empty, proxy_closed = []\<rparr>"

definition wsOpened :: "device_id \<Rightarrow> pconn \<Rightarrow> Proxy \<Rightarrow> Proxy" where
  "wsOpened i pc p = p\<lparr>proxy_conns := (proxy_conns p)(i \<mapsto> pc)\<rparr>"

definition wsEnded :: "device_id \<Rightarrow> pconn \<Rightarrow> Proxy \<Rightarrow> Proxy" where
  "wsEnded i pc p = (if proxy_conns p i = Some pc then p\<lparr>proxy_conns := (proxy_conns p)(i := None)\<rparr> else p)"

definition maybeRewrite :: "device_id \<Rightarrow> proxyFrame \<Rightarrow> Proxy \<Rightarrow> proxyFrame \<times> Proxy" where
  "maybeRewrite i f p =
     (case f of
        ObjectText obj \<Rightarrow>
          (case proxy_rules p i of
             None \<Rightarrow> (f, p)
           | Some fake \<Rightarrow>
               (if obj ''type'' \<noteq> Some (JStr ''pair_complete'') then (f, p)
                else (ObjectText (obj(''peer_static_key'' \<mapsto> JStr fake)), p\<lparr>proxy_rules := (proxy_rules p)(i := None)\<rparr>)))
      | _ \<Rightarrow> (f, p))"

definition RewriteNextPairComplete :: "device_id \<Rightarrow> string \<Rightarrow> Proxy \<Rightarrow> Proxy" where
  "RewriteNextPairComplete i fake p = p\<lparr>proxy_rules := (proxy_rules p)(i \<mapsto> fake)\<rparr>"

definition SeverConnection :: "device_id \<Rightarrow> Proxy \<Rightarrow> Proxy" where
  "SeverConnection i p =
     (case proxy_conns p i of None \<Rightarrow> p | Some pc \<Rightarrow> p\<lparr>proxy_closed := pc # proxy_closed p\<rparr>)"

text \<open>The frames one direction of a connection copies; only those of the server are looked at.\<close>

fun pump :: "device_id \<Rightarrow> bool \<Rightarrow> proxyFrame list \<Rightarrow> Proxy \<Rightarrow> proxyFrame list \<times> Proxy" where
  "pump i fromUpstream [] p = ([], p)"
| "pump i fromUpstream (f # fs) p =
     (let (f', p1) = (if fromUpstream then maybeRewrite i f p else (f, p));
          (fs', p2) = pump i fromUpstream fs p1
      in (f' # fs', p2))"

section \<open>The matrix\<close>

definition sdkNames :: "string list" where
  "sdkNames = [''go'', ''ts'', ''py'', ''rust'', ''cpp'']"

fun unorderedPairs :: "'a list \<Rightarrow> ('a \<times> 'a) list" where
  "unorderedPairs [] = []"
| "unorderedPairs (a # as) = map (Pair a) (a # as) @ unorderedPairs as"

definition negScenarios :: "string list" where
  "negScenarios = [''wrong_pin'', ''key_rewrite'', ''rekey_safety'']"

definition negPartner :: "string \<Rightarrow> string" where
  "negPartner sdk = (if sdk = ''go'' then ''ts'' else ''go'')"

text \<open>
  \<open>positive a b\<close> and \<open>negative sc sdk partner\<close> give the error of a run, \<open>None\<close> when it passed
  (a working directory that cannot be made is such an error).
\<close>

definition runMatrix ::
  "(string \<Rightarrow> string \<Rightarrow> string option) \<Rightarrow> (string \<Rightarrow> string \<Rightarrow> string \<Rightarrow> string option) \<Rightarrow>
    ((string \<times> string) \<times> string option) list \<times> ((string \<times> string) \<times> string option) list \<times> bool" where
  "runMatrix positive negative =
     (let ps = map (\<lambda>(a, b). ((a, b), positive a b)) (unorderedPairs sdkNames);
          ns = concat (map (\<lambda>sdk. map (\<lambda>sc. ((sc, sdk), negative sc sdk (negPartner sdk))) negScenarios) sdkNames)
      in (ps, ns, list_all (\<lambda>(_, e). e = None) (ps @ ns)))"

section \<open>Lemmas\<close>

lemma takeFirst_Some:
  "takeFirst p xs = Some (x, rest) \<Longrightarrow> \<exists>us vs. xs = us @ x # vs \<and> rest = us @ vs \<and> p x \<and> (\<forall>x \<in> set us. \<not> p x)"
proof (induction xs arbitrary: rest)
  case (Cons y ys)
  show ?case
  proof (cases "p y")
    case True
    with Cons.prems have "y # ys = [] @ x # ys \<and> rest = [] @ ys \<and> p x" by simp
    then show ?thesis by fastforce
  next
    case False
    with Cons.prems obtain r where r: "takeFirst p ys = Some (x, r)" "rest = y # r" by (auto split: option.splits)
    from Cons.IH [OF r(1)] obtain us vs where "ys = us @ x # vs" "r = us @ vs" "p x" "(\<forall>x \<in> set us. \<not> p x)" by blast
    with r False have "y # ys = (y # us) @ x # vs \<and> rest = (y # us) @ vs \<and> p x \<and> (\<forall>x \<in> set (y # us). \<not> p x)" by simp
    then show ?thesis by blast
  qed
qed simp

lemma takeFirst_None: "takeFirst p xs = None \<longleftrightarrow> (\<forall>x \<in> set xs. \<not> p x)"
  by (induction xs) auto

text \<open>The events still to come.\<close>

fun coming :: "'e rawStep list \<Rightarrow> 'e list" where
  "coming (Got e # rs) = e # coming rs"
| "coming (DeadlinePassed # rs) = coming rs"
| "coming _ = []"

lemma waitRaw_events:
  assumes "\<forall>x \<in> set b. \<not> p x"
  shows "case waitRaw p b rs of
    (Inl _, b', rs') \<Rightarrow> b' @ coming rs' = b @ coming rs
  | (Inr e, b', rs') \<Rightarrow> \<exists>us vs. b @ coming rs = us @ e # vs \<and> b' @ coming rs' = us @ vs \<and> p e \<and> (\<forall>x \<in> set us. \<not> p x)"
  using assms
proof (induction p b rs rule: waitRaw.induct)
  case (4 p b e rs)
  show ?case
  proof (cases "p e")
    case True
    have "b @ coming (Got e # rs) = b @ e # coming rs" by simp
    with True 4(2) show ?thesis by (simp only: waitRaw.simps if_True prod.case sum.case) blast
  next
    case False
    have eq: "b @ coming (Got e # rs) = (b @ [e]) @ coming rs" by simp
    have "\<forall>x \<in> set (b @ [e]). \<not> p x" using False 4(2) by simp
    from 4(1) [OF False this] False show ?thesis unfolding eq by simp
  qed
qed simp_all

section \<open>Properties\<close>

text \<open>
  Waiting loses nothing: a successful \<open>WaitFor\<close> returns the first matching event
  among those buffered and those to come, and leaves all the others, in order, for later waits;
  an unsuccessful one leaves everything.
\<close>

lemma WaitFor_events:
  "case WaitFor p b rs of
    (Inl _, b', rs') \<Rightarrow> b' @ coming rs' = b @ coming rs
  | (Inr e, b', rs') \<Rightarrow> \<exists>us vs. b @ coming rs = us @ e # vs \<and> b' @ coming rs' = us @ vs \<and> p e \<and> (\<forall>x \<in> set us. \<not> p x)"
proof (cases "takeFirst p b")
  case None
  then have "WaitFor p b rs = waitRaw p b rs" and "\<forall>x \<in> set b. \<not> p x"
    by (simp_all add: WaitFor_def) (simp add: takeFirst_None [symmetric])
  with waitRaw_events [of b p rs] show ?thesis by simp
next
  case (Some a)
  obtain e rest where a: "a = (e, rest)" by (meson surj_pair)
  with Some takeFirst_Some [of p b e rest] obtain us vs where
    "b = us @ e # vs" "rest = us @ vs" "p e" "(\<forall>x \<in> set us. \<not> p x)" by auto
  then have "b @ coming rs = us @ e # (vs @ coming rs)" "rest @ coming rs = us @ (vs @ coming rs)" "p e" "\<forall>x \<in> set us. \<not> p x"
    by simp_all
  moreover have "WaitFor p b rs = (Inr e, rest, rs)" using Some a by (simp add: WaitFor_def)
  ultimately show ?thesis by (simp only: prod.case sum.case) blast
qed

text \<open>
  Without a rule for the device the proxy copies every frame as it is; with one, it changes the
  first \<open>pair_complete\<close> of the server and only that one, and only the key in it.
\<close>

lemma pump_transparent: "proxy_rules p i = None \<or> \<not> up \<Longrightarrow> pump i up fs p = (fs, p)"
  by (induction fs) (auto simp: maybeRewrite_def split: proxyFrame.split)

lemma pump_rewrites_once:
  assumes "list_all (\<lambda>f. case f of ObjectText obj \<Rightarrow> obj ''type'' \<noteq> Some (JStr ''pair_complete'') | _ \<Rightarrow> True) us"
    and "obj ''type'' = Some (JStr ''pair_complete'')"
  shows "fst (pump i True (us @ ObjectText obj # vs) (RewriteNextPairComplete i fake p)) =
    us @ ObjectText (obj(''peer_static_key'' \<mapsto> JStr fake)) # vs"
  using assms(1)
proof (induction us)
  case Nil
  have "pump i True vs (p\<lparr>proxy_rules := (proxy_rules p)(i := None)\<rparr>) = (vs, p\<lparr>proxy_rules := (proxy_rules p)(i := None)\<rparr>)"
    by (rule pump_transparent) simp
  then show ?case
    using assms(2) by (simp add: maybeRewrite_def RewriteNextPairComplete_def fun_upd_def [of obj])
next
  case (Cons f us)
  have "maybeRewrite i f (RewriteNextPairComplete i fake p) = (f, RewriteNextPairComplete i fake p)"
    using Cons.prems by (cases f) (simp_all add: maybeRewrite_def RewriteNextPairComplete_def)
  with Cons show ?case by (simp add: case_prod_beta)
qed

text \<open>A connection that ends late does not unregister its successor.\<close>

lemma wsEnded_keeps_new: "pc \<noteq> pc' \<Longrightarrow> proxy_conns (wsEnded i pc (wsOpened i pc' p)) i = Some pc'"
  by (simp add: wsEnded_def wsOpened_def)

text \<open>The verdict of the matrix is the conjunction of its runs: every pair, itself included, once.\<close>

lemma runMatrix_verdict:
  "snd (snd (runMatrix positive negative)) \<longleftrightarrow>
     (\<forall>(a, b) \<in> set (unorderedPairs sdkNames). positive a b = None) \<and>
     (\<forall>sdk \<in> set sdkNames. \<forall>sc \<in> set negScenarios. negative sc sdk (negPartner sdk) = None)"
  by (auto simp: runMatrix_def Let_def list_all_iff)

lemma runMatrix_pairs: "length (fst (runMatrix positive negative)) = 15" "negPartner sdk \<noteq> sdk"
  by (simp_all add: runMatrix_def sdkNames_def negPartner_def)

end
