(* ===== verification/Interop_Scenarios.thy ===== *)
theory Interop_Scenarios
  imports Interop_Harness Sdk_Crypto Pairing_Tokens "HOL-Library.Multiset"
begin

text \<open>
  The scripted scenarios of the interoperability harness (\<^verbatim>\<open>interop/harness/scenarios.go\<close>): the
  positive flow of a pair of client libraries and the three negative tests, each as a computation
  that stops at its first error. A client process is the script of what can be read from it and of
  how writes to it end; registering a device, files and the starting of a process are arguments.
\<close>

section \<open>The bench\<close>

datatype role = SideA | SideB

text \<open>\<open>in_writes\<close> holds the outcomes of the next writes to the process; when it is empty they succeed.\<close>

record instanceState =
  in_spawns :: bool
  in_args :: "string list"
  in_backlog :: "Event list"
  in_raw :: "Event rawStep list"
  in_writes :: "bool list"
  in_sent :: "Event list"

record pinFileEntry =
  pfe_StaticKey :: string
  pfe_PinnedAt :: string

type_synonym pinFile = "device_id \<Rightarrow> pinFileEntry option"

record bench =
  side :: "role \<Rightarrow> instanceState"
  bench_proxy :: Proxy
  bench_written :: "(string \<times> pinFile) list"

datatype scen_error =
    WaitError wait_error
  | StartError start_failure
  | Complaint string
  | InContext string scen_error

type_synonym 'a scen = "bench \<Rightarrow> (scen_error + 'a) \<times> bench"

definition sret :: "'a \<Rightarrow> 'a scen" where
  "sret x b = (Inr x, b)"

definition complain :: "string \<Rightarrow> 'a scen" where
  "complain msg b = (Inl (Complaint msg), b)"

definition sbind :: "'a scen \<Rightarrow> ('a \<Rightarrow> 'b scen) \<Rightarrow> 'b scen" where
  "sbind m f b = (case m b of (Inl e, b1) \<Rightarrow> (Inl e, b1) | (Inr x, b1) \<Rightarrow> f x b1)"

definition inContext :: "string \<Rightarrow> 'a scen \<Rightarrow> 'a scen" where
  "inContext txt m b = (case m b of (Inl e, b1) \<Rightarrow> (Inl (InContext txt e), b1) | (Inr x, b1) \<Rightarrow> (Inr x, b1))"

fun inOrder :: "unit scen list \<Rightarrow> unit scen" where
  "inOrder [] = sret ()"
| "inOrder (m # ms) = sbind m (\<lambda>_. inOrder ms)"

definition onSide :: "role \<Rightarrow> (instanceState \<Rightarrow> instanceState) \<Rightarrow> bench \<Rightarrow> bench" where
  "onSide r f b = b\<lparr>side := (side b)(r := f (side b r))\<rparr>"

definition InstanceSend :: "role \<Rightarrow> Event \<Rightarrow> unit scen" where
  "InstanceSend r cmd b =
     (case in_writes (side b r) of
        False # ws \<Rightarrow> (Inl (Complaint ''write''), onSide r (\<lambda>i. i\<lparr>in_writes := ws\<rparr>) b)
      | True # ws \<Rightarrow> (Inr (), onSide r (\<lambda>i. i\<lparr>in_writes := ws, in_sent := in_sent i @ [cmd]\<rparr>) b)
      | [] \<Rightarrow> (Inr (), onSide r (\<lambda>i. i\<lparr>in_sent := in_sent i @ [cmd]\<rparr>) b))"

definition await :: "role \<Rightarrow> (Event \<Rightarrow> bool) \<Rightarrow> Event scen" where
  "await r p b =
     (case WaitFor p (in_backlog (side b r)) (in_raw (side b r)) of
        (Inl e, bl, rs) \<Rightarrow> (Inl (WaitError e), onSide r (\<lambda>i. i\<lparr>in_backlog := bl, in_raw := rs\<rparr>) b)
      | (Inr ev, bl, rs) \<Rightarrow> (Inr ev, onSide r (\<lambda>i. i\<lparr>in_backlog := bl, in_raw := rs\<rparr>) b))"

definition awaitOnly :: "role \<Rightarrow> (Event \<Rightarrow> bool) \<Rightarrow> unit scen" where
  "awaitOnly r p = sbind (await r p) (\<lambda>_. sret ())"

definition InstanceClose :: "role \<Rightarrow> bench \<Rightarrow> bench" where
  "InstanceClose r b = snd (InstanceSend r [''cmd'' \<mapsto> JStr ''close''] b)"

text \<open>\<^verbatim>\<open>StartInstance\<close>, and the rest of the scenario with the deferred \<^verbatim>\<open>Close\<close>.\<close>

definition startSide :: "role \<Rightarrow> SDKDef \<Rightarrow> string \<Rightarrow> device_id \<Rightarrow> string \<Rightarrow> string \<Rightarrow> unit scen" where
  "startSide r def url deviceID token path b =
     (if \<not> in_spawns (side b r) then (Inl (Complaint ''start''), b)
      else case StartInstance (in_raw (side b r)) of
        (Inl e, rs) \<Rightarrow> (Inl (StartError e), onSide r (\<lambda>i. i\<lparr>in_raw := rs\<rparr>) b)
      | (Inr bl, rs) \<Rightarrow> (Inr (), onSide r (\<lambda>i. i\<lparr>in_backlog := bl, in_raw := rs, in_args := startArgs def url deviceID token path\<rparr>) b))"

definition deferClose :: "role \<Rightarrow> 'a scen \<Rightarrow> 'a scen" where
  "deferClose r m b = (let (x, b1) = m b in (x, InstanceClose r b1))"

definition onProxy :: "(Proxy \<Rightarrow> Proxy) \<Rightarrow> unit scen" where
  "onProxy f b = (Inr (), b\<lparr>bench_proxy := f (bench_proxy b)\<rparr>)"

section \<open>Payloads and pin files\<close>

definition interopMaxMessageBytes :: nat where
  "interopMaxMessageBytes = 65536"

definition noiseEnvelopeOverhead :: nat where
  "noiseEnvelopeOverhead = 1 + 16"

definition fillBytes :: "nat \<Rightarrow> bytes" where
  "fillBytes n = map word_of_nat [0..<n]"

text \<open>\<open>files path\<close> is what reading and decoding the file gives, \<open>None\<close> on an error of either.\<close>

definition readPinFile :: "(string \<Rightarrow> pinFile option) \<Rightarrow> string \<Rightarrow> pinFile scen" where
  "readPinFile files path = (case files path of None \<Rightarrow> complain ''read'' | Some m \<Rightarrow> sret m)"

definition assertPinMatches :: "(string \<Rightarrow> pinFile option) \<Rightarrow> string \<Rightarrow> device_id \<Rightarrow> string \<Rightarrow> unit scen" where
  "assertPinMatches files storePath peerID wantB64 =
     sbind (inContext ''reading peer store'' (readPinFile files storePath)) (\<lambda>m.
       case m peerID of
         None \<Rightarrow> complain ''no pin recorded for peer''
       | Some entry \<Rightarrow>
           (if pfe_StaticKey entry \<noteq> wantB64 then complain ''pinFileHas key does not match announced key'' else sret ()))"

definition isType :: "string \<Rightarrow> Event \<Rightarrow> bool" where
  "isType ty e \<longleftrightarrow> EventType e = ty"

definition isFor :: "string \<Rightarrow> device_id \<Rightarrow> Event \<Rightarrow> bool" where
  "isFor ty peer e \<longleftrightarrow> EventType e = ty \<and> Str ''peer_id'' e = peer"

text \<open>The byte-wise comparison at the end of \<^verbatim>\<open>roundtrip\<close>.\<close>

fun firstDifference :: "nat \<Rightarrow> bytes \<Rightarrow> bytes \<Rightarrow> nat option" where
  "firstDifference i (x # xs) (y # ys) = (if y \<noteq> x then Some i else firstDifference (i + 1) xs ys)"
| "firstDifference i xs ys = None"

definition roundtrip :: "role \<Rightarrow> role \<Rightarrow> device_id \<Rightarrow> device_id \<Rightarrow> nat \<Rightarrow> unit scen" where
  "roundtrip sender receiver senderID receiverID n =
     (let payload = fillBytes n in
      sbind (InstanceSend sender [''cmd'' \<mapsto> JStr ''send'', ''peer_id'' \<mapsto> JStr receiverID, ''payload_b64'' \<mapsto> JStr (encodeBase64 payload)]) (\<lambda>_.
      sbind (await receiver (\<lambda>e. EventType e = ''message'' \<and> Str ''from'' e = senderID)) (\<lambda>ev.
        case decodeBase64 (Str ''payload_b64'' ev) of
          None \<Rightarrow> complain ''decoding received payload''
        | Some got \<Rightarrow>
            (if length got \<noteq> length payload then complain ''payload length mismatch''
             else case firstDifference 0 payload got of
               Some i \<Rightarrow> complain (''payload mismatch at byte '' @ decimal i)
             | None \<Rightarrow> sret ()))))"

section \<open>The positive flow\<close>

record deviceCreds =
  cred_DeviceID :: device_id
  cred_DeviceToken :: string

text \<open>\<open>reg name\<close>: the outcome of registering a device under that name.\<close>

definition register :: "(string \<Rightarrow> string + deviceCreds) \<Rightarrow> string \<Rightarrow> deviceCreds scen" where
  "register reg name = (case reg name of Inl e \<Rightarrow> complain e | Inr d \<Rightarrow> sret d)"

definition askCode :: "role \<Rightarrow> unit scen" where
  "askCode r = InstanceSend r [''cmd'' \<mapsto> JStr ''request_pair_code'']"

definition readCode :: "role \<Rightarrow> string scen" where
  "readCode r = sbind (await r (isType ''pair_code'')) (\<lambda>ev. sret (Str ''code'' ev))"

definition acceptCode :: "role \<Rightarrow> string \<Rightarrow> unit scen" where
  "acceptCode r code = InstanceSend r [''cmd'' \<mapsto> JStr ''accept_pair'', ''code'' \<mapsto> JStr code]"

definition pairStep :: "(string \<Rightarrow> pinFile option) \<Rightarrow> string \<Rightarrow> string \<Rightarrow> device_id \<Rightarrow> device_id \<Rightarrow> unit scen" where
  "pairStep files aStore bStore idA idB =
     sbind (inContext ''A request_pair_code'' (askCode SideA)) (\<lambda>_.
     sbind (inContext ''A pair_code'' (readCode SideA)) (\<lambda>code.
     if length code \<noteq> 6 then complain ''A pair_code: expected 6-digit code'' else
     sbind (inContext ''B accept_pair'' (acceptCode SideB code)) (\<lambda>_.
     sbind (inContext ''B paired'' (await SideB (isType ''paired''))) (\<lambda>bPaired.
     sbind (inContext ''A paired'' (await SideA (isType ''paired''))) (\<lambda>aPaired.
     if Str ''peer_id'' aPaired \<noteq> idB then complain ''A paired with another device''
     else if Str ''peer_id'' bPaired \<noteq> idA then complain ''B paired with another device''
     else inOrder
       [inContext ''A pin check'' (assertPinMatches files aStore idB (Str ''peer_public_key_b64'' aPaired)),
        inContext ''B pin check'' (assertPinMatches files bStore idA (Str ''peer_public_key_b64'' bPaired)),
        inContext ''A did not see the initial ready_signal'' (awaitOnly SideA (isFor ''ready_signal'' idB)),
        inContext ''B did not see the initial ready_signal'' (awaitOnly SideB (isFor ''ready_signal'' idA))])))))"

text \<open>One message each way; the notes are the texts of the source's two error messages.\<close>

definition exchange :: "string \<Rightarrow> string \<Rightarrow> device_id \<Rightarrow> device_id \<Rightarrow> nat \<Rightarrow> unit scen" where
  "exchange there back idA idB n = inOrder
     [inContext there (roundtrip SideA SideB idA idB n), inContext back (roundtrip SideB SideA idB idA n)]"

definition sizedExchange :: "device_id \<Rightarrow> device_id \<Rightarrow> nat \<Rightarrow> unit scen" where
  "sizedExchange idA idB n =
     exchange (''A->B roundtrip ('' @ decimal n @ '' bytes)'') (''B->A roundtrip ('' @ decimal n @ '' bytes)'') idA idB n"

definition sizes :: "nat list" where
  "sizes = [1, 1024, interopMaxMessageBytes - noiseEnvelopeOverhead]"

definition statusOf :: "device_id \<Rightarrow> bool \<Rightarrow> Event \<Rightarrow> bool" where
  "statusOf i online e \<longleftrightarrow> isFor ''peer_status'' i e \<and> Bool ''online'' e = online"

definition reconnectStep :: "device_id \<Rightarrow> device_id \<Rightarrow> unit scen" where
  "reconnectStep idA idB = inOrder
     [onProxy (SeverConnection idB),
      inContext ''A did not see B go offline'' (awaitOnly SideA (statusOf idB False)),
      inContext ''A did not see B come back online'' (awaitOnly SideA (statusOf idB True)),
      inContext ''A did not see a post-reconnect ready_signal'' (awaitOnly SideA (isFor ''ready_signal'' idB)),
      inContext ''B did not see a post-reconnect ready_signal'' (awaitOnly SideB (isFor ''ready_signal'' idA)),
      exchange ''post-reconnect A->B roundtrip'' ''post-reconnect B->A roundtrip'' idA idB 64]"

definition withSides ::
  "SDKDef \<Rightarrow> SDKDef \<Rightarrow> string \<Rightarrow> deviceCreds \<Rightarrow> deviceCreds \<Rightarrow> string \<Rightarrow> string \<Rightarrow> unit scen \<Rightarrow> unit scen" where
  "withSides aDef bDef url devA devB aStore bStore m =
     sbind (inContext ''start A'' (startSide SideA aDef url (cred_DeviceID devA) (cred_DeviceToken devA) aStore)) (\<lambda>_.
     deferClose SideA (
     sbind (inContext ''start B'' (startSide SideB bDef url (cred_DeviceID devB) (cred_DeviceToken devB) bStore)) (\<lambda>_.
     deferClose SideB m)))"

definition runPositiveFlow ::
  "(string \<Rightarrow> string + deviceCreds) \<Rightarrow> (string \<Rightarrow> pinFile option) \<Rightarrow> string \<Rightarrow> SDKDef \<Rightarrow> SDKDef \<Rightarrow> string \<Rightarrow> unit scen" where
  "runPositiveFlow reg files url aDef bDef workDir =
     sbind (inContext ''register A'' (register reg (''a-'' @ sdk_Name aDef @ ''-'' @ sdk_Name bDef))) (\<lambda>devA.
     sbind (inContext ''register B'' (register reg (''b-'' @ sdk_Name aDef @ ''-'' @ sdk_Name bDef))) (\<lambda>devB.
     let aStore = joinPath workDir ''a-peers.json''; bStore = joinPath workDir ''b-peers.json'';
         idA = cred_DeviceID devA; idB = cred_DeviceID devB
     in withSides aDef bDef url devA devB aStore bStore (inOrder
          [pairStep files aStore bStore idA idB, inOrder (map (sizedExchange idA idB) sizes), reconnectStep idA idB])))"

section \<open>The negative tests\<close>

text \<open>\<open>wrote\<close>: whether writing the seeded pin file succeeded.\<close>

definition writePinFile :: "bool \<Rightarrow> string \<Rightarrow> pinFile \<Rightarrow> unit scen" where
  "writePinFile wrote path m b =
     (if wrote then (Inr (), b\<lparr>bench_written := bench_written b @ [(path, m)]\<rparr>) else (Inl (Complaint ''write''), b))"

definition pairErrorStep :: "unit scen" where
  "pairErrorStep =
sbind (askCode SideA) (\<lambda>_.
     sbind (readCode SideA) (\<lambda>code.
     sbind (acceptCode SideB code) (\<lambda>_.
       inContext ''expected B to reject'' (awaitOnly SideB (isType ''pair_error'')))))"

definition runWrongPinTest ::
  "(string \<Rightarrow> string + deviceCreds) \<Rightarrow> bool \<Rightarrow> (string \<Rightarrow> pinFile option) \<Rightarrow> string \<Rightarrow> SDKDef \<Rightarrow> SDKDef \<Rightarrow> string \<Rightarrow> unit scen" where
  "runWrongPinTest reg wrote files url victimDef partnerDef workDir =
     sbind (register reg (''wrongpin-a-'' @ sdk_Name partnerDef)) (\<lambda>devA.
     sbind (register reg (''wrongpin-b-'' @ sdk_Name victimDef)) (\<lambda>devB.
     let bStore = joinPath workDir ''b-peers.json''; wrongKey = encodeBase64 (fillBytes 32); aStore = joinPath workDir ''a-peers.json''
in sbind (writePinFile wrote bStore [cred_DeviceID devA \<mapsto> \<lparr>pfe_StaticKey = wrongKey, pfe_PinnedAt = ''2020-01-01T00:00:00Z''\<rparr>]) (\<lambda>_.
        withSides partnerDef victimDef url devA devB aStore bStore (
          sbind pairErrorStep (\<lambda>_.
          sbind (inContext ''reading the peer store of B after failed handshake'' (readPinFile files bStore)) (\<lambda>m.
            if (case m (cred_DeviceID devA) of None \<Rightarrow> '''' | Some entry \<Rightarrow> pfe_StaticKey entry) \<noteq> wrongKey
            then complain ''pin was overwritten'' else sret ()))))))"

definition runKeyRewriteTest ::
  "(string \<Rightarrow> string + deviceCreds) \<Rightarrow> string \<Rightarrow> SDKDef \<Rightarrow> SDKDef \<Rightarrow> string \<Rightarrow> unit scen" where
  "runKeyRewriteTest reg url victimDef partnerDef workDir =
     sbind (register reg (''rewrite-a-'' @ sdk_Name partnerDef)) (\<lambda>devA.
     sbind (register reg (''rewrite-b-'' @ sdk_Name victimDef)) (\<lambda>devB.
     withSides partnerDef victimDef url devA devB (joinPath workDir ''a-peers.json'') (joinPath workDir ''b-peers.json'') (
       sbind (onProxy (RewriteNextPairComplete (cred_DeviceID devB) (encodeBase64 (fillBytes 32)))) (\<lambda>_. pairErrorStep))))"

text \<open>
  The loop that registers devices until the partner has the smaller identifier. The attempts count
  from 0, so that the last one allowed is the one whose number is \<open>maxAttempts - 1\<close>.
\<close>

definition maxAttempts :: nat where
  "maxAttempts = 10"

function orderedDevices ::
  "(string \<Rightarrow> string + deviceCreds) \<Rightarrow> string \<Rightarrow> string \<Rightarrow> nat \<Rightarrow> (deviceCreds \<times> deviceCreds) scen" where
  "orderedDevices reg victim partner attempt =
     sbind (register reg (''rekey-victim-'' @ victim @ ''-'' @ decimal attempt)) (\<lambda>v.
     sbind (register reg (''rekey-partner-'' @ partner @ ''-'' @ decimal attempt)) (\<lambda>p.
       if cred_DeviceID p < cred_DeviceID v then sret (v, p)
       else if attempt \<ge> maxAttempts - 1 then complain ''could not obtain a smaller partner device_id''
       else orderedDevices reg victim partner (attempt + 1)))"
  by auto
termination
  by (relation "measure (\<lambda>(reg, victim, partner, attempt). maxAttempts - attempt)") (simp_all add: maxAttempts_def)

declare orderedDevices.simps [simp del]

text \<open>Here the victim is side A, the partner side B.\<close>

definition runRekeySafetyTest ::
  "(string \<Rightarrow> string + deviceCreds) \<Rightarrow> string \<Rightarrow> SDKDef \<Rightarrow> SDKDef \<Rightarrow> string \<Rightarrow> unit scen" where
  "runRekeySafetyTest reg url victimDef partnerDef workDir =
     sbind (orderedDevices reg (sdk_Name victimDef) (sdk_Name partnerDef) 0) (\<lambda>(victim, partner).
     let v = cred_DeviceID victim; p = cred_DeviceID partner
     in withSides victimDef partnerDef url victim partner (joinPath workDir ''victim-peers.json'') (joinPath workDir ''partner-peers.json'') (
       sbind (askCode SideA) (\<lambda>_. sbind (readCode SideA) (\<lambda>code. inOrder
         [acceptCode SideB code,
          awaitOnly SideB (isType ''paired''),
          awaitOnly SideA (isType ''paired''),
          inContext ''victim did not see the initial ready_signal'' (awaitOnly SideA (isFor ''ready_signal'' p)),
          inContext ''partner did not see the initial ready_signal'' (awaitOnly SideB (isFor ''ready_signal'' v)),
          onProxy (SeverConnection v),
          inContext ''partner never saw the victim come back online'' (awaitOnly SideB (statusOf v True)),
          inContext ''victim never saw a ready_signal for the completed rekey'' (awaitOnly SideA (isFor ''ready_signal'' p)),
          inContext ''partner never saw a ready_signal for the completed rekey'' (awaitOnly SideB (isFor ''ready_signal'' v)),
          inContext ''post-rekey A->B roundtrip failed'' (roundtrip SideA SideB v p 32),
          inContext ''post-rekey B->A roundtrip failed'' (roundtrip SideB SideA p v 32)]))))"

section \<open>What a passing step has done\<close>

definition events :: "bench \<Rightarrow> role \<Rightarrow> Event multiset" where
  "events b r = mset (in_backlog (side b r) @ coming (in_raw (side b r)))"

text \<open>
  \<open>did ps cs f b b'\<close>: from \<open>b\<close> to \<open>b'\<close> each side \<open>r\<close> was sent the commands \<open>cs r\<close> in this order,
  and gave one event for each of the predicates \<open>ps r\<close>; \<open>f\<close> happened to the proxy.
\<close>

definition did :: "(role \<Rightarrow> (Event \<Rightarrow> bool) list) \<Rightarrow> (role \<Rightarrow> Event list) \<Rightarrow> (Proxy \<Rightarrow> Proxy) \<Rightarrow> bench \<Rightarrow> bench \<Rightarrow> bool" where
  "did ps cs f b b' \<longleftrightarrow> bench_proxy b' = f (bench_proxy b) \<and>
     (\<forall>r. in_sent (side b' r) = in_sent (side b r) @ cs r \<and>
       (\<exists>evs. list_all2 (\<lambda>p e. p e) (ps r) evs \<and> events b r = mset evs + events b' r))"

definition nothing :: "role \<Rightarrow> 'a list" where
  "nothing r = []"

definition only :: "role \<Rightarrow> 'a \<Rightarrow> role \<Rightarrow> 'a list" where
  "only r x s = (if s = r then [x] else [])"

definition andThen :: "(role \<Rightarrow> 'a list) \<Rightarrow> (role \<Rightarrow> 'a list) \<Rightarrow> role \<Rightarrow> 'a list" where
  "andThen xs ys r = xs r @ ys r"

definition achieves :: "'a scen \<Rightarrow> (role \<Rightarrow> (Event \<Rightarrow> bool) list) \<Rightarrow> (role \<Rightarrow> Event list) \<Rightarrow> (Proxy \<Rightarrow> Proxy) \<Rightarrow> bool" where
  "achieves m ps cs f \<longleftrightarrow> (\<forall>b x b'. m b = (Inr x, b') \<longrightarrow> did ps cs f b b')"

lemma did_refl: "did nothing nothing (\<lambda>x. x) b b"
  by (simp add: did_def nothing_def)

lemma did_trans:
  assumes "did ps cs f b b1" and "did qs ds g b1 b2"
  shows "did (andThen ps qs) (andThen cs ds) (\<lambda>x. g (f x)) b b2"
proof -
  have "\<exists>evs. list_all2 (\<lambda>p e. p e) (andThen ps qs r) evs \<and> events b r = mset evs + events b2 r" for r
  proof -
    from assms obtain us vs where "list_all2 (\<lambda>p e. p e) (ps r) us" "events b r = mset us + events b1 r"
      "list_all2 (\<lambda>p e. p e) (qs r) vs" "events b1 r = mset vs + events b2 r" unfolding did_def by metis
    then show ?thesis
      by (intro exI [of _ "us @ vs"]) (simp add: andThen_def list_all2_appendI)
  qed
  with assms show ?thesis by (simp add: did_def andThen_def)
qed

lemma InstanceSend_sends:
  assumes "InstanceSend r cmd b = (Inr x, b')"
  shows "did nothing (only r cmd) (\<lambda>x. x) b b'"
  using assms
  by (auto simp: InstanceSend_def did_def events_def nothing_def only_def onSide_def split: list.splits bool.splits)

lemma await_takes:
  assumes "await r p b = (Inr e, b')"
  shows "p e" and "did (only r (\<lambda>e'. e' = e)) nothing (\<lambda>x. x) b b'"
proof -
  obtain bl rs where w: "WaitFor p (in_backlog (side b r)) (in_raw (side b r)) = (Inr e, bl, rs)"
    and b': "b' = onSide r (\<lambda>i. i\<lparr>in_backlog := bl, in_raw := rs\<rparr>) b"
    using assms by (auto simp: await_def split: prod.splits sum.splits)
  from WaitFor_events [where p = p and b = "in_backlog (side b r)" and rs = "in_raw (side b r)"] w obtain us vs where
    e: "in_backlog (side b r) @ coming (in_raw (side b r)) = us @ e # vs" "bl @ coming rs = us @ vs" "p e" by auto
  have old: "events b r = mset (us @ e # vs)" unfolding events_def e(1) ..
  have new: "events b' r = mset (us @ vs)" unfolding events_def e(2) [symmetric] b' by (simp add: onSide_def)
  have "events b r = {#e#} + events b' r" using old new by simp
  moreover have "events b' s = events b s" if "s \<noteq> r" for s using that by (simp add: b' events_def onSide_def)
  ultimately show "did (only r (\<lambda>e'. e' = e)) nothing (\<lambda>x. x) b b'"
    by (auto simp: did_def only_def nothing_def b' onSide_def list_all2_Cons1)
  show "p e" by (rule e(3))
qed


lemma nothing_neutral [simp]: "andThen nothing xs = xs" "andThen xs nothing = xs"
  by (simp_all add: andThen_def nothing_def fun_eq_iff)

lemma sbind_InrE:
  assumes "sbind m f b = (Inr y, b')"
  obtains x b1 where "m b = (Inr x, b1)" and "f x b1 = (Inr y, b')"
  using assms by (auto simp: sbind_def split: prod.splits sum.splits)

lemma inContext_Inr: "inContext txt m b = (Inr x, b') \<longleftrightarrow> m b = (Inr x, b')"
  by (auto simp: inContext_def split: prod.splits sum.splits)

lemma achievesD: "achieves m ps cs f \<Longrightarrow> m b = (Inr x, b') \<Longrightarrow> did ps cs f b b'"
  by (auto simp: achieves_def)

lemma achieves_send: "achieves (InstanceSend r cmd) nothing (only r cmd) (\<lambda>x. x)"
  using InstanceSend_sends by (auto simp: achieves_def)

lemma achieves_inContext: "achieves (inContext txt m) ps cs f \<longleftrightarrow> achieves m ps cs f"
  by (simp add: achieves_def inContext_Inr)

lemma achieves_onProxy: "achieves (onProxy f) nothing nothing f"
  by (auto simp: achieves_def onProxy_def did_def nothing_def events_def)

lemma achieves_Nil: "achieves (inOrder []) nothing nothing (\<lambda>x. x)"
  by (auto simp: achieves_def sret_def did_refl)

lemma achieves_Cons:
  "achieves m ps cs f \<Longrightarrow> achieves (inOrder ms) qs ds g \<Longrightarrow> achieves (inOrder (m # ms)) (andThen ps qs) (andThen cs ds) (\<lambda>x. g (f x))"
  unfolding achieves_def [of "inOrder (m # ms)"]
  by (auto elim!: sbind_InrE intro: did_trans [where f = f and g = g] dest: achievesD)

lemma did_weaken:
  assumes "did ps cs f b b'" and "\<And>r. list_all2 (\<lambda>p q. \<forall>e. p e \<longrightarrow> q e) (ps r) (qs r)"
  shows "did qs cs f b b'"
proof -
  have "\<exists>evs. list_all2 (\<lambda>p e. p e) (qs r) evs \<and> events b r = mset evs + events b' r" for r
  proof -
    from assms(1) obtain evs where "list_all2 (\<lambda>p e. p e) (ps r) evs" "events b r = mset evs + events b' r" unfolding did_def by metis
    with assms(2) [of r] show ?thesis by (auto simp: list_all2_conv_all_nth)
  qed
  with assms(1) show ?thesis by (simp add: did_def)
qed

lemma await_did:
  assumes "await r p b = (Inr e, b')" and "q e"
  shows "did (only r q) nothing (\<lambda>x. x) b b'"
  by (rule did_weaken [OF await_takes(2) [OF assms(1)]]) (simp add: only_def assms(2))

lemma achieves_awaitOnly: "achieves (awaitOnly r p) (only r p) nothing (\<lambda>x. x)"
  unfolding achieves_def awaitOnly_def
  by (auto elim!: sbind_InrE simp: sret_def) (metis await_did await_takes(1))

subsection \<open>The round trip\<close>

lemma firstDifference_None: "length xs = length ys \<Longrightarrow> firstDifference i xs ys = None \<longleftrightarrow> xs = ys"
  by (induction i xs ys rule: firstDifference.induct) auto

definition carries :: "device_id \<Rightarrow> bytes \<Rightarrow> Event \<Rightarrow> bool" where
  "carries i payload e \<longleftrightarrow> EventType e = ''message'' \<and> Str ''from'' e = i \<and> decodeBase64 (Str ''payload_b64'' e) = Some payload"

definition sendCommand :: "device_id \<Rightarrow> bytes \<Rightarrow> Event" where
  "sendCommand i payload = [''cmd'' \<mapsto> JStr ''send'', ''peer_id'' \<mapsto> JStr i, ''payload_b64'' \<mapsto> JStr (encodeBase64 payload)]"

lemma achieves_roundtrip:
  "achieves (roundtrip s r idS idR n) (only r (carries idS (fillBytes n))) (only s (sendCommand idR (fillBytes n))) (\<lambda>x. x)"
  unfolding achieves_def
proof (intro allI impI)
  fix b x b'
  assume "roundtrip s r idS idR n b = (Inr x, b')"
  then obtain b1 e b2 where snd: "InstanceSend s (sendCommand idR (fillBytes n)) b = (Inr (), b1)"
    and wait: "await r (\<lambda>e. EventType e = ''message'' \<and> Str ''from'' e = idS) b1 = (Inr e, b2)"
    and rest: "(case decodeBase64 (Str ''payload_b64'' e) of None \<Rightarrow> complain ''decoding received payload''
        | Some got \<Rightarrow> (if length got \<noteq> length (fillBytes n) then complain ''payload length mismatch''
             else case firstDifference 0 (fillBytes n) got of
               Some i \<Rightarrow> complain (''payload mismatch at byte '' @ decimal i) | None \<Rightarrow> sret ())) b2 = (Inr x, b')"
    unfolding roundtrip_def Let_def sendCommand_def by (elim sbind_InrE) auto
  from rest have "decodeBase64 (Str ''payload_b64'' e) = Some (fillBytes n)" and b': "b' = b2"
    by (auto simp: complain_def sret_def firstDifference_None split: option.splits if_splits)
  with await_takes(1) [OF wait] have "carries idS (fillBytes n) e" by (simp add: carries_def)
  from did_trans [OF InstanceSend_sends [OF snd] await_did [where q = "carries idS (fillBytes n)", OF wait this]]
  have "did (andThen nothing (only r (carries idS (fillBytes n)))) (andThen (only s (sendCommand idR (fillBytes n))) nothing) (\<lambda>x. x) b b2" .
  then show "did (only r (carries idS (fillBytes n))) (only s (sendCommand idR (fillBytes n))) (\<lambda>x. x) b b'"
    by (simp add: b')
qed


subsection \<open>The parts of the positive flow\<close>

definition both :: "'a list \<Rightarrow> 'a list \<Rightarrow> role \<Rightarrow> 'a list" where
  "both xs ys r = (case r of SideA \<Rightarrow> xs | SideB \<Rightarrow> ys)"

lemma on_both:
  "only SideA x = both [x] []" "only SideB x = both [] [x]" "nothing = both [] []"
  "andThen (both xs ys) (both us vs) = both (xs @ us) (ys @ vs)"
  by (auto simp: only_def nothing_def andThen_def both_def fun_eq_iff split: role.splits)

definition pinFileHas :: "(string \<Rightarrow> pinFile option) \<Rightarrow> string \<Rightarrow> device_id \<Rightarrow> string \<Rightarrow> bool" where
  "pinFileHas files path i key \<longleftrightarrow> (\<exists>m entry. files path = Some m \<and> m i = Some entry \<and> pfe_StaticKey entry = key)"

lemma assertPinMatches_Inr:
  "assertPinMatches files path i key b = (Inr x, b') \<longleftrightarrow> b' = b \<and> pinFileHas files path i key"
  by (auto simp: assertPinMatches_def readPinFile_def sbind_def inContext_def complain_def sret_def pinFileHas_def
      split: prod.splits sum.splits option.splits if_splits)

definition codeIs :: "string \<Rightarrow> Event \<Rightarrow> bool" where
  "codeIs code e \<longleftrightarrow> EventType e = ''pair_code'' \<and> Str ''code'' e = code"

definition pairedTo :: "device_id \<Rightarrow> string \<Rightarrow> Event \<Rightarrow> bool" where
  "pairedTo i key e \<longleftrightarrow> EventType e = ''paired'' \<and> Str ''peer_id'' e = i \<and> Str ''peer_public_key_b64'' e = key"

definition requestCommand :: Event where
  "requestCommand = [''cmd'' \<mapsto> JStr ''request_pair_code'']"

definition acceptCommand :: "string \<Rightarrow> Event" where
  "acceptCommand code = [''cmd'' \<mapsto> JStr ''accept_pair'', ''code'' \<mapsto> JStr code]"

lemma askCode_did: "askCode SideA b = (Inr x, b') \<Longrightarrow> did nothing (both [requestCommand] []) (\<lambda>x. x) b b'"
  using InstanceSend_sends [of SideA requestCommand b x b'] by (simp add: askCode_def requestCommand_def on_both)

lemma readCode_did: "readCode SideA b = (Inr code, b') \<Longrightarrow> did (both [codeIs code] []) nothing (\<lambda>x. x) b b'"
proof -
  assume "readCode SideA b = (Inr code, b')"
  then obtain e where w: "await SideA (isType ''pair_code'') b = (Inr e, b')" and "code = Str ''code'' e"
    unfolding readCode_def by (elim sbind_InrE) (auto simp: sret_def)
  then have "codeIs code e" using await_takes(1) [OF w] by (simp add: codeIs_def isType_def)
  from await_did [where q = "codeIs code", OF w this] show ?thesis by (simp add: on_both)
qed

lemma acceptCode_did: "acceptCode SideB code b = (Inr x, b') \<Longrightarrow> did nothing (both [] [acceptCommand code]) (\<lambda>x. x) b b'"
  using InstanceSend_sends [of SideB "acceptCommand code" b x b'] by (simp add: acceptCode_def acceptCommand_def on_both)

lemma pairStep_did:
  assumes "pairStep files aStore bStore idA idB b = (Inr x, b')"
  obtains code keyA keyB where "length code = 6" and "pinFileHas files aStore idB keyB" and "pinFileHas files bStore idA keyA"
    and "did (both [codeIs code, pairedTo idB keyB, isFor ''ready_signal'' idB] [pairedTo idA keyA, isFor ''ready_signal'' idA])
             (both [requestCommand] [acceptCommand code]) (\<lambda>x. x) b b'"
proof -
  obtain code eA eB b1 b2 b3 b4 b5 b6 b7 where steps: "askCode SideA b = (Inr (), b1)" "readCode SideA b1 = (Inr code, b2)"
      "acceptCode SideB code b2 = (Inr (), b3)"
    and wB: "await SideB (isType ''paired'') b3 = (Inr eB, b4)" and wA: "await SideA (isType ''paired'') b4 = (Inr eA, b5)"
    and eqs: "length code = 6" "Str ''peer_id'' eA = idB" "Str ''peer_id'' eB = idA" "b6 = b5" "b7 = b5"
      "pinFileHas files aStore idB (Str ''peer_public_key_b64'' eA)" "pinFileHas files bStore idA (Str ''peer_public_key_b64'' eB)"
    and fin: "inOrder [awaitOnly SideA (isFor ''ready_signal'' idB), awaitOnly SideB (isFor ''ready_signal'' idA)] b5 = (Inr (), b')"
    using assms unfolding pairStep_def
    by (elim sbind_InrE) (auto simp: inContext_Inr complain_def assertPinMatches_Inr sbind_def inContext_def
        split: if_splits prod.splits sum.splits)
  let ?kA = "Str ''peer_public_key_b64'' eB" and ?kB = "Str ''peer_public_key_b64'' eA"
  have "pairedTo idA ?kA eB" "pairedTo idB ?kB eA"
    using await_takes(1) [OF wB] await_takes(1) [OF wA] eqs by (simp_all add: pairedTo_def isType_def)
  then have "did (only SideB (pairedTo idA ?kA)) nothing (\<lambda>x. x) b3 b4" "did (only SideA (pairedTo idB ?kB)) nothing (\<lambda>x. x) b4 b5"
    using await_did [OF wB] await_did [OF wA] by simp_all
  note mid = did_trans [OF this]
  note start = did_trans [OF did_trans [OF askCode_did [OF steps(1)] readCode_did [OF steps(2)]] acceptCode_did [OF steps(3)]]
  note last = achievesD [OF achieves_Cons [OF achieves_awaitOnly achieves_Cons [OF achieves_awaitOnly achieves_Nil]] fin]
  from did_trans [OF did_trans [OF start mid] last] show thesis
    by (intro that [of code ?kB ?kA]) (simp_all add: on_both eqs)
qed


lemma achieves_exchange:
  "achieves (exchange there back idA idB n) (both [carries idB (fillBytes n)] [carries idA (fillBytes n)])
     (both [sendCommand idB (fillBytes n)] [sendCommand idA (fillBytes n)]) (\<lambda>x. x)"
proof -
  have "achieves (inContext there (roundtrip SideA SideB idA idB n)) (only SideB (carries idA (fillBytes n))) (only SideA (sendCommand idB (fillBytes n))) (\<lambda>x. x)"
    "achieves (inContext back (roundtrip SideB SideA idB idA n)) (only SideA (carries idB (fillBytes n))) (only SideB (sendCommand idA (fillBytes n))) (\<lambda>x. x)"
    by (simp_all add: achieves_inContext achieves_roundtrip)
  from achieves_Cons [OF this(1) achieves_Cons [OF this(2) achieves_Nil]] show ?thesis
    by (simp add: exchange_def on_both)
qed

lemma achieves_exchanges:
  "achieves (inOrder (map (sizedExchange idA idB) ns))
     (both (map (\<lambda>n. carries idB (fillBytes n)) ns) (map (\<lambda>n. carries idA (fillBytes n)) ns))
     (both (map (\<lambda>n. sendCommand idB (fillBytes n)) ns) (map (\<lambda>n. sendCommand idA (fillBytes n)) ns)) (\<lambda>x. x)"
proof (induction ns)
  case Nil
  show ?case using achieves_Nil by (simp add: on_both)
next
  case (Cons n ns)
  have "achieves (sizedExchange idA idB n) (both [carries idB (fillBytes n)] [carries idA (fillBytes n)])
     (both [sendCommand idB (fillBytes n)] [sendCommand idA (fillBytes n)]) (\<lambda>x. x)"
    unfolding sizedExchange_def by (rule achieves_exchange)
  from achieves_Cons [OF this Cons.IH] show ?case by (simp add: on_both)
qed

lemma achieves_await: "achieves (inContext txt (awaitOnly r p)) (only r p) nothing (\<lambda>x. x)"
  by (simp add: achieves_inContext achieves_awaitOnly)

lemma achieves_reconnect:
  "achieves (reconnectStep idA idB)
     (both [statusOf idB False, statusOf idB True, isFor ''ready_signal'' idB, carries idB (fillBytes 64)]
           [isFor ''ready_signal'' idA, carries idA (fillBytes 64)])
     (both [sendCommand idB (fillBytes 64)] [sendCommand idA (fillBytes 64)]) (SeverConnection idB)"
proof -
  note tail = achieves_Cons [OF achieves_exchange achieves_Nil, of "''post-reconnect A->B roundtrip''" "''post-reconnect B->A roundtrip''"]
  note waits = achieves_Cons [OF achieves_await achieves_Cons [OF achieves_await achieves_Cons [OF achieves_await achieves_Cons [OF achieves_await tail]]]]
  show ?thesis
    using achieves_Cons [OF achieves_onProxy waits, of "SeverConnection idB" "''A did not see B go offline''" SideA "statusOf idB False"
        "''A did not see B come back online''" SideA "statusOf idB True" "''A did not see a post-reconnect ready_signal''" SideA "isFor ''ready_signal'' idB"
        "''B did not see a post-reconnect ready_signal''" SideB "isFor ''ready_signal'' idA" idA idB 64]
    by (simp add: reconnectStep_def on_both)
qed

subsection \<open>Starting the two processes\<close>

definition isReady :: "Event \<Rightarrow> bool" where
  "isReady e \<longleftrightarrow> EventType e = ''ready''"

lemma startSide_did:
  assumes "startSide r def url i token path b = (Inr x, b')" and "in_backlog (side b r) = []"
  shows "did (only r isReady) nothing (\<lambda>x. x) b b'" and "in_args (side b' r) = startArgs def url i token path"
    and "s \<noteq> r \<Longrightarrow> side b' s = side b s"
proof -
  let ?p = "\<lambda>e. EventType e = ''ready'' \<or> EventType e = ''connect_error''"
  obtain bl e rs where w: "WaitFor ?p [] (in_raw (side b r)) = (Inr e, bl, rs)" and e: "EventType e \<noteq> ''connect_error''"
    and b': "b' = onSide r (\<lambda>i'. i'\<lparr>in_backlog := bl, in_raw := rs, in_args := startArgs def url i token path\<rparr>) b"
    using assms(1) by (auto simp: startSide_def StartInstance_def split: if_splits prod.splits sum.splits)
  from WaitFor_events [where p = ?p and b = "[]" and rs = "in_raw (side b r)"] w obtain us vs where
    eq: "coming (in_raw (side b r)) = us @ e # vs" "bl @ coming rs = us @ vs" "?p e" by auto
  have old: "events b r = mset (us @ e # vs)" unfolding events_def assms(2) using eq(1) by simp
  have new: "events b' r = mset (us @ vs)" unfolding events_def eq(2) [symmetric] b' by (simp add: onSide_def)
  have "events b r = {#e#} + events b' r" using old new by simp
  moreover have "events b' s = events b s" if "s \<noteq> r" for s using that by (simp add: b' events_def onSide_def)
  moreover have "isReady e" using eq(3) e by (auto simp: isReady_def)
  ultimately show "did (only r isReady) nothing (\<lambda>x. x) b b'"
    by (auto simp: did_def only_def nothing_def b' onSide_def list_all2_Cons1)
  show "in_args (side b' r) = startArgs def url i token path" "s \<noteq> r \<Longrightarrow> side b' s = side b s"
    by (simp_all add: b' onSide_def)
qed

lemma withSides_did:
  assumes "withSides aDef bDef url devA devB aStore bStore m b = (Inr x, b')"
    and "in_backlog (side b SideA) = []" and "in_backlog (side b SideB) = []"
  obtains b1 b2 where "did (both [isReady] [isReady]) nothing (\<lambda>x. x) b b1" and "m b1 = (Inr x, b2)"
    and "b' = InstanceClose SideA (InstanceClose SideB b2)"
    and "in_args (side b1 SideA) = startArgs aDef url (cred_DeviceID devA) (cred_DeviceToken devA) aStore"
    and "in_args (side b1 SideB) = startArgs bDef url (cred_DeviceID devB) (cred_DeviceToken devB) bStore"
proof -
  obtain b0 b1 b2 where stA: "startSide SideA aDef url (cred_DeviceID devA) (cred_DeviceToken devA) aStore b = (Inr (), b0)"
    and stB: "startSide SideB bDef url (cred_DeviceID devB) (cred_DeviceToken devB) bStore b0 = (Inr (), b1)"
    and m: "m b1 = (Inr x, b2)" and b': "b' = InstanceClose SideA (InstanceClose SideB b2)"
    using assms(1) unfolding withSides_def
    by (elim sbind_InrE) (auto simp: inContext_Inr deferClose_def Let_def split: prod.splits elim!: sbind_InrE)
  have freshB: "in_backlog (side b0 SideB) = []" using startSide_did(3) [OF stA assms(2), of SideB] assms(3) by simp
  from did_trans [OF startSide_did(1) [OF stA assms(2)] startSide_did(1) [OF stB freshB]]
  have dd: "did (both [isReady] [isReady]) nothing (\<lambda>x. x) b b1" by (simp add: on_both)
  show thesis
    by (rule that [OF dd m b']) (use startSide_did(2) [OF stA assms(2)] startSide_did(2,3) [OF stB freshB] in simp_all)
qed


lemma inOrder_ConsE:
  assumes "inOrder (m # ms) b = (Inr x, b')"
  obtains b1 where "m b = (Inr (), b1)" and "inOrder ms b1 = (Inr x, b')"
  using assms by (auto elim: sbind_InrE)

section \<open>Properties\<close>

text \<open>The identities the rekeying test goes on with are ordered as it needs, and it gives up after ten attempts.\<close>

lemma orderedDevices_ordered:
  "orderedDevices reg victim partner attempt b = (Inr (v, p), b') \<Longrightarrow>
     cred_DeviceID p < cred_DeviceID v \<and> b' = b \<and> (\<exists>n \<ge> attempt. reg (''rekey-victim-'' @ victim @ ''-'' @ decimal n) = Inr v \<and> reg (''rekey-partner-'' @ partner @ ''-'' @ decimal n) = Inr p)"
proof (induction reg victim partner attempt arbitrary: b rule: orderedDevices.induct)
  case (1 reg victim partner attempt)
  from "1.prems" obtain v0 p0 where r: "reg (''rekey-victim-'' @ victim @ ''-'' @ decimal attempt) = Inr v0"
      "reg (''rekey-partner-'' @ partner @ ''-'' @ decimal attempt) = Inr p0"
    and k: "(if cred_DeviceID p0 < cred_DeviceID v0 then sret (v0, p0)
       else if attempt \<ge> maxAttempts - 1 then complain ''could not obtain a smaller partner device_id''
       else orderedDevices reg victim partner (attempt + 1)) b = (Inr (v, p), b')"
    by (subst (asm) orderedDevices.simps) (auto simp: register_def sret_def complain_def elim!: sbind_InrE split: sum.splits)
  show ?case
  proof (cases "cred_DeviceID p0 < cred_DeviceID v0")
    case True
    with r k show ?thesis by (auto simp: sret_def)
  next
    case False
    with k have n: "\<not> attempt \<ge> maxAttempts - 1" and rec: "orderedDevices reg victim partner (attempt + 1) b = (Inr (v, p), b')"
      by (auto simp: complain_def split: if_splits)
    from "1.IH" [OF False n rec] show ?thesis by (meson le_add1 order_trans)
  qed
qed

lemma orderedDevices_gives_up:
  assumes "\<And>i j v p. reg (''rekey-victim-'' @ i) = Inr v \<Longrightarrow> reg (''rekey-partner-'' @ j) = Inr p \<Longrightarrow> \<not> cred_DeviceID p < cred_DeviceID v"
  shows "\<exists>e. orderedDevices reg victim partner attempt b = (Inl e, b)"
  using assms
proof (induction reg victim partner attempt rule: orderedDevices.induct)
  case (1 reg victim partner attempt)
  consider (none) e where "reg (''rekey-victim-'' @ victim @ ''-'' @ decimal attempt) = Inl e"
    | (some) v e where "reg (''rekey-victim-'' @ victim @ ''-'' @ decimal attempt) = Inr v" "reg (''rekey-partner-'' @ partner @ ''-'' @ decimal attempt) = Inl e"
    | (two) v p where "reg (''rekey-victim-'' @ victim @ ''-'' @ decimal attempt) = Inr v" "reg (''rekey-partner-'' @ partner @ ''-'' @ decimal attempt) = Inr p"
    by (metis sum.exhaust)
  then show ?case
  proof cases
    case two
    with "1.prems" have "\<not> cred_DeviceID p < cred_DeviceID v" by blast
    with two "1.IH" [OF this _ "1.prems"] show ?thesis
      by (subst orderedDevices.simps) (auto simp: sbind_def register_def sret_def complain_def)
  qed (subst orderedDevices.simps, simp add: sbind_def register_def complain_def sret_def)+
qed

text \<open>
  The verdict of the rewriting test depends on the type of one event: whatever reason the client
  gives with its \<open>pair_error\<close>, the test passes.
\<close>

lemma pairErrorStep_any_reason:
  assumes "askCode SideA b = (Inr (), b1)" and "readCode SideA b1 = (Inr code, b2)" and "acceptCode SideB code b2 = (Inr (), b3)"
    and "in_backlog (side b3 SideB) = []" and "in_raw (side b3 SideB) = Got e # rs" and "EventType e = ''pair_error''"
  shows "fst (pairErrorStep b) = Inr ()"
  using assms by (simp add: pairErrorStep_def sbind_def inContext_def awaitOnly_def await_def WaitFor_def isType_def sret_def)

text \<open>C33: A run of the positive flow passes only if both clients did everything it is about. Each
  was started with its own credentials and reported ready; A was asked for a code and gave one of
  six digits, which B was told to accept; both reported to be paired with the other, and the peer
  store of each holds exactly the key it announced; both became ready; then A and B each got the
  payloads of 1, 1024 and 65519 bytes of the other unchanged; after the connection of B was cut, A
  saw B go and come back, both became ready again, and a last payload got through each way. The
  commands the two processes were given are exactly these, in this order.\<close>

theorem positive_flow_sound:
  assumes "runPositiveFlow reg files url aDef bDef workDir b = (Inr x, b')"
    and "in_backlog (side b SideA) = []" and "in_backlog (side b SideB) = []"
  shows "\<exists>devA devB code keyA keyB b2.
    reg (''a-'' @ sdk_Name aDef @ ''-'' @ sdk_Name bDef) = Inr devA \<and> reg (''b-'' @ sdk_Name aDef @ ''-'' @ sdk_Name bDef) = Inr devB \<and>
    length code = 6 \<and>
    pinFileHas files (joinPath workDir ''a-peers.json'') (cred_DeviceID devB) keyB \<and> pinFileHas files (joinPath workDir ''b-peers.json'') (cred_DeviceID devA) keyA \<and>
    did (both ([isReady, codeIs code, pairedTo (cred_DeviceID devB) keyB, isFor ''ready_signal'' (cred_DeviceID devB)] @
               map (\<lambda>n. carries (cred_DeviceID devB) (fillBytes n)) [1, 1024, 65519] @
               [statusOf (cred_DeviceID devB) False, statusOf (cred_DeviceID devB) True, isFor ''ready_signal'' (cred_DeviceID devB), carries (cred_DeviceID devB) (fillBytes 64)])
              ([isReady, pairedTo (cred_DeviceID devA) keyA, isFor ''ready_signal'' (cred_DeviceID devA)] @
               map (\<lambda>n. carries (cred_DeviceID devA) (fillBytes n)) [1, 1024, 65519] @
               [isFor ''ready_signal'' (cred_DeviceID devA), carries (cred_DeviceID devA) (fillBytes 64)]))
        (both ([requestCommand] @ map (\<lambda>n. sendCommand (cred_DeviceID devB) (fillBytes n)) [1, 1024, 65519, 64])
              ([acceptCommand code] @ map (\<lambda>n. sendCommand (cred_DeviceID devA) (fillBytes n)) [1, 1024, 65519, 64]))
        (SeverConnection (cred_DeviceID devB)) b b2 \<and>
    b' = InstanceClose SideA (InstanceClose SideB b2)"
proof -
  let ?aS = "joinPath workDir ''a-peers.json''" and ?bS = "joinPath workDir ''b-peers.json''"
  obtain devA devB where r: "reg (''a-'' @ sdk_Name aDef @ ''-'' @ sdk_Name bDef) = Inr devA" "reg (''b-'' @ sdk_Name aDef @ ''-'' @ sdk_Name bDef) = Inr devB"
    and w: "withSides aDef bDef url devA devB ?aS ?bS (inOrder [pairStep files ?aS ?bS (cred_DeviceID devA) (cred_DeviceID devB),
       inOrder (map (sizedExchange (cred_DeviceID devA) (cred_DeviceID devB)) sizes), reconnectStep (cred_DeviceID devA) (cred_DeviceID devB)]) b = (Inr x, b')"
    using assms(1) unfolding runPositiveFlow_def Let_def
    by (elim sbind_InrE) (auto simp: inContext_Inr register_def complain_def sret_def split: sum.splits)
  from withSides_did [OF w assms(2,3)] obtain b1 b2 where d1: "did (both [isReady] [isReady]) nothing (\<lambda>x. x) b b1"
    and m: "inOrder [pairStep files ?aS ?bS (cred_DeviceID devA) (cred_DeviceID devB),
       inOrder (map (sizedExchange (cred_DeviceID devA) (cred_DeviceID devB)) sizes), reconnectStep (cred_DeviceID devA) (cred_DeviceID devB)] b1 = (Inr x, b2)"
    and b': "b' = InstanceClose SideA (InstanceClose SideB b2)" by blast
  from m obtain b3 where p: "pairStep files ?aS ?bS (cred_DeviceID devA) (cred_DeviceID devB) b1 = (Inr (), b3)"
    and rest: "inOrder [inOrder (map (sizedExchange (cred_DeviceID devA) (cred_DeviceID devB)) sizes), reconnectStep (cred_DeviceID devA) (cred_DeviceID devB)] b3 = (Inr x, b2)"
    by (rule inOrder_ConsE)
  from pairStep_did [OF p] obtain code keyA keyB where c: "length code = 6" "pinFileHas files ?aS (cred_DeviceID devB) keyB" "pinFileHas files ?bS (cred_DeviceID devA) keyA"
    and d2: "did (both [codeIs code, pairedTo (cred_DeviceID devB) keyB, isFor ''ready_signal'' (cred_DeviceID devB)]
        [pairedTo (cred_DeviceID devA) keyA, isFor ''ready_signal'' (cred_DeviceID devA)]) (both [requestCommand] [acceptCommand code]) (\<lambda>x. x) b1 b3" by blast
  note d3 = achievesD [OF achieves_Cons [OF achieves_exchanges achieves_Cons [OF achieves_reconnect achieves_Nil]] rest]
  from did_trans [OF did_trans [OF d1 d2] d3] r c b' show ?thesis
    by (intro exI [of _ devA] exI [of _ devB] exI [of _ code] exI [of _ keyA] exI [of _ keyB] exI [of _ b2])
      (simp add: on_both sizes_def interopMaxMessageBytes_def noiseEnvelopeOverhead_def)
qed

text \<open>Two clients that do it: registered as \<open>a\<close> and \<open>b\<close>, with their events in a workable order.\<close>

lemma firstDifference_same [simp]: "firstDifference i xs xs = None"
  by (simp add: firstDifference_None)

lemma roundtrip_passes:
  assumes "in_writes (side b s) = []" and "s \<noteq> r" and "in_backlog (side b r) = []" and "in_raw (side b r) = Got e # rs"
    and "carries idS (fillBytes n) e"
  shows "roundtrip s r idS idR n b = (Inr (), onSide r (\<lambda>i. i\<lparr>in_backlog := [], in_raw := rs\<rparr>) (onSide s (\<lambda>i. i\<lparr>in_sent := in_sent i @ [sendCommand idR (fillBytes n)]\<rparr>) b))"
  using assms by (auto simp: roundtrip_def Let_def sbind_def InstanceSend_def await_def WaitFor_def onSide_def carries_def sendCommand_def sret_def)

definition sample_message :: "device_id \<Rightarrow> nat \<Rightarrow> Event" where
  "sample_message i n = [''event'' \<mapsto> JStr ''message'', ''from'' \<mapsto> JStr i, ''payload_b64'' \<mapsto> JStr (encodeBase64 (fillBytes n))]"

definition sample_event :: "string \<Rightarrow> device_id \<Rightarrow> Event" where
  "sample_event ty i = [''event'' \<mapsto> JStr ty, ''peer_id'' \<mapsto> JStr i, ''code'' \<mapsto> JStr ''123456'', ''peer_public_key_b64'' \<mapsto> JStr ''key'', ''online'' \<mapsto> JBool True]"

definition sample_script :: "device_id \<Rightarrow> Event list \<Rightarrow> Event list \<Rightarrow> Event rawStep list" where
  "sample_script i before between = map Got (sample_event ''ready'' '''' # before @
     [sample_event ''paired'' i, sample_event ''ready_signal'' i, sample_message i 1, sample_message i 1024, sample_message i 65519] @
     between @ [sample_event ''ready_signal'' i, sample_message i 64])"

definition sample_instance :: "Event rawStep list \<Rightarrow> instanceState" where
  "sample_instance rs = \<lparr>in_spawns = True, in_args = [], in_backlog = [], in_raw = rs, in_writes = [], in_sent = []\<rparr>"

definition sample_bench :: bench where
  "sample_bench = \<lparr>side = (\<lambda>r. case r of
       SideA \<Rightarrow> sample_instance (sample_script ''b'' [sample_event ''pair_code'' ''''] [(sample_event ''peer_status'' ''b'')(''online'' \<mapsto> JBool False), sample_event ''peer_status'' ''b''])
     | SideB \<Rightarrow> sample_instance (sample_script ''a'' [] [])), bench_proxy = NewProxy, bench_written = []\<rparr>"

definition sample_reg :: "string \<Rightarrow> string + deviceCreds" where
  "sample_reg name = Inr \<lparr>cred_DeviceID = take 1 name, cred_DeviceToken = ''t''\<rparr>"

definition sample_pins :: "string \<Rightarrow> pinFile option" where
  "sample_pins path = Some (\<lambda>i. Some \<lparr>pfe_StaticKey = ''key'', pfe_PinnedAt = ''''\<rparr>)"

definition sample_def :: SDKDef where
  "sample_def = \<lparr>sdk_Name = ''go'', sdk_Command = ''go'', sdk_Args = []\<rparr>"

lemma sample_event_fields [simp]:
  "EventType (sample_event ty i) = ty" "Str ''peer_id'' (sample_event ty i) = i" "Str ''code'' (sample_event ty i) = ''123456''"
  "Str ''peer_public_key_b64'' (sample_event ty i) = ''key''" "Bool ''online'' (sample_event ty i)"
  by (simp_all add: sample_event_def EventType_def Str_def Bool_def)

lemma sample_offline_fields [simp]:
  "EventType ((sample_event ty i)(''online'' \<mapsto> JBool False)) = ty" "Str ''peer_id'' ((sample_event ty i)(''online'' \<mapsto> JBool False)) = i"
  "\<not> Bool ''online'' ((sample_event ty i)(''online'' \<mapsto> JBool False))"
  by (simp_all add: sample_event_def EventType_def Str_def Bool_def)

lemma sample_message_carries [simp]: "carries i (fillBytes n) (sample_message i n)"
  by (simp add: carries_def sample_message_def EventType_def Str_def decode_encode)

lemma sample_flow_passes: "fst (runPositiveFlow sample_reg sample_pins ''ws://p'' sample_def sample_def ''w'' sample_bench) = Inr ()"
  by (simp add: runPositiveFlow_def Let_def register_def sample_reg_def sample_def_def withSides_def deferClose_def startSide_def StartInstance_def
      WaitFor_def await_def awaitOnly_def onSide_def onProxy_def sbind_def inContext_def sret_def pairStep_def askCode_def readCode_def acceptCode_def
      InstanceSend_def assertPinMatches_def readPinFile_def sample_pins_def isType_def isFor_def statusOf_def exchange_def sizedExchange_def
      roundtrip_passes sizes_def interopMaxMessageBytes_def noiseEnvelopeOverhead_def reconnectStep_def sample_bench_def sample_instance_def sample_script_def)

theorem positive_flow_sound_witness:
  "\<exists>code b2. length code = 6 \<and> did (both ([isReady, codeIs code, pairedTo ''b'' ''key'', isFor ''ready_signal'' ''b''] @
               map (\<lambda>n. carries ''b'' (fillBytes n)) [1, 1024, 65519] @
               [statusOf ''b'' False, statusOf ''b'' True, isFor ''ready_signal'' ''b'', carries ''b'' (fillBytes 64)])
              ([isReady, pairedTo ''a'' ''key'', isFor ''ready_signal'' ''a''] @
               map (\<lambda>n. carries ''a'' (fillBytes n)) [1, 1024, 65519] @ [isFor ''ready_signal'' ''a'', carries ''a'' (fillBytes 64)]))
        (both ([requestCommand] @ map (\<lambda>n. sendCommand ''b'' (fillBytes n)) [1, 1024, 65519, 64])
              ([acceptCommand code] @ map (\<lambda>n. sendCommand ''a'' (fillBytes n)) [1, 1024, 65519, 64]))
        (SeverConnection ''b'') sample_bench b2"
proof -
  obtain b' where run: "runPositiveFlow sample_reg sample_pins ''ws://p'' sample_def sample_def ''w'' sample_bench = (Inr (), b')"
    using sample_flow_passes by (metis prod.collapse)
  have "in_backlog (side sample_bench SideA) = []" "in_backlog (side sample_bench SideB) = []"
    by (simp_all add: sample_bench_def sample_instance_def)
  from positive_flow_sound [OF run this] show ?thesis
    by (auto simp: sample_reg_def pinFileHas_def sample_pins_def)
qed


end
