(* ===== verification/Interop_Run.thy ===== *)
theory Interop_Run
  imports Interop_Scenarios Server_Config Rate_Limit
begin

text \<open>
  The frame of the interoperability harness (\<^verbatim>\<open>interop/harness/main.go\<close>, \<^verbatim>\<open>server.go\<close> and the rest
  of \<^verbatim>\<open>matrix.go\<close>): finding the repository, building the server and the five client programs, starting
  the server, registering devices, running the matrix and printing its summary. The tools the
  harness calls are an argument; what it does with them is a list of actions.
\<close>

section \<open>The tools\<close>

text \<open>
  Every field but \<open>callerFile\<close>, \<open>exists\<close> and \<open>probes\<close> is the error of an operation (\<open>None\<close> or
  \<open>Inr\<close> when it succeeds). \<open>probes\<close> is what the rounds of the health check meet before the deadline:
  the status of the response, \<open>None\<close> when there was none.
\<close>

record tools =
  callerFile :: "string option"
  exists :: "string \<Rightarrow> bool"
  mkdirTemp :: "string + string"
  mkdirAll :: "string \<Rightarrow> string option"
  runCmd :: "string \<Rightarrow> string list \<Rightarrow> string option"
  listenPort :: "string + nat"
  startCmd :: "string list \<Rightarrow> string list \<Rightarrow> string option"
  probes :: "nat option list"
  listenProxy :: "string option"

datatype action =
    Ran string "string list"
  | Started "string list" "string list"
  | Killed
  | Waited
  | ProxyClosed
  | Removed string
  | Printed string

type_synonym 'a outcome = "(string + 'a) \<times> action list"

section \<open>Finding and building\<close>

definition dirPath :: "string \<Rightarrow> string" where
  "dirPath p = cleanPath (rev (dropWhile (\<lambda>c. c \<noteq> CHR ''/'') (rev p)))"

definition joinPaths :: "string list \<Rightarrow> string" where
  "joinPaths ps = foldl joinPath '''' ps"

definition repoRoot :: "tools \<Rightarrow> string + string" where
  "repoRoot T =
     (case callerFile T of
        None \<Rightarrow> Inl ''could not determine source file location''
      | Some thisFile \<Rightarrow>
          (let root = dirPath (dirPath (dirPath thisFile))
           in if \<not> exists T (joinPath root ''go.mod'') then Inl (''could not locate repository root from '' @ thisFile) else Inr root))"

definition runIn :: "tools \<Rightarrow> string \<Rightarrow> string list \<Rightarrow> unit outcome" where
  "runIn T dir argv = (case runCmd T dir argv of None \<Rightarrow> Inr () | Some e \<Rightarrow> Inl e, [Ran dir argv])"

definition obind :: "'a outcome \<Rightarrow> ('a \<Rightarrow> 'b outcome) \<Rightarrow> 'b outcome" where
  "obind m f = (case m of (Inl e, as) \<Rightarrow> (Inl e, as) | (Inr x, as) \<Rightarrow> (let (y, bs) = f x in (y, as @ bs)))"

definition oreturn :: "'a \<Rightarrow> 'a outcome" where
  "oreturn x = (Inr x, [])"

definition ofail :: "string \<Rightarrow> 'a outcome" where
  "ofail e = (Inl e, [])"

definition noting :: "string \<Rightarrow> 'a outcome \<Rightarrow> 'a outcome" where
  "noting txt m = (case m of (Inl e, as) \<Rightarrow> (Inl (txt @ '': '' @ e), as) | (Inr x, as) \<Rightarrow> (Inr x, as))"

definition deferring :: "action list \<Rightarrow> 'a outcome \<Rightarrow> 'a outcome" where
  "deferring ds m = (fst m, snd m @ ds)"

definition tell :: "action \<Rightarrow> unit outcome" where
  "tell a = (Inr (), [a])"

definition check :: "string option \<Rightarrow> unit outcome" where
  "check r = (case r of None \<Rightarrow> oreturn () | Some e \<Rightarrow> ofail e)"

definition buildServerBinary :: "tools \<Rightarrow> string \<Rightarrow> string \<Rightarrow> string outcome" where
  "buildServerBinary T root outDir =
     (let binPath = joinPath outDir ''relayly-server''
      in obind (noting ''building server'' (runIn T root [''go'', ''build'', ''-o'', binPath, ''./cmd/relayly''])) (\<lambda>_. oreturn binPath))"

definition prepareSDKs :: "tools \<Rightarrow> string \<Rightarrow> string \<Rightarrow> (string \<rightharpoonup> SDKDef) outcome" where
  "prepareSDKs T root buildDir =
     (let goBin = joinPath buildDir ''go-shim'';
          goShimDir = joinPaths [root, ''interop'', ''clients'', ''go''];
          rustDir = joinPaths [root, ''interop'', ''clients'', ''rust''];
          tsDir = joinPaths [root, ''interop'', ''clients'', ''ts''];
          tsxBin = joinPaths [tsDir, ''node_modules'', ''.bin'', ''tsx''];
          pyShim = joinPaths [root, ''interop'', ''clients'', ''py'', ''shim.py''];
          cppDir = joinPaths [root, ''interop'', ''clients'', ''cpp''];
          cppBuildDir = joinPath buildDir ''cpp-build''
      in obind (noting ''building go shim'' (runIn T goShimDir [''go'', ''build'', ''-o'', goBin, ''.''])) (\<lambda>_.
         obind (noting ''building rust shim'' (runIn T rustDir [''cargo'', ''build''])) (\<lambda>_.
         obind (if \<not> exists T tsxBin then ofail ''ts shim not ready'' else oreturn ()) (\<lambda>_.
         obind (case runIn T '''' [''python3'', ''-c'', ''import relayly''] of (Inl _, as) \<Rightarrow> (Inl ''py shim not ready'', as) | (Inr u, as) \<Rightarrow> (Inr u, as)) (\<lambda>_.
         obind (noting ''configuring cpp shim'' (runIn T cppDir [''cmake'', ''-S'', ''.'', ''-B'', cppBuildDir, ''-DCMAKE_BUILD_TYPE=Release''])) (\<lambda>_.
         obind (noting ''building cpp shim'' (runIn T cppDir [''cmake'', ''--build'', cppBuildDir, ''-j'', ''4''])) (\<lambda>_.
         oreturn
           [''go'' \<mapsto> \<lparr>sdk_Name = ''go'', sdk_Command = goBin, sdk_Args = []\<rparr>,
            ''rust'' \<mapsto> \<lparr>sdk_Name = ''rust'', sdk_Command = joinPaths [rustDir, ''target'', ''debug'', ''interop-shim-rust''], sdk_Args = []\<rparr>,
            ''ts'' \<mapsto> \<lparr>sdk_Name = ''ts'', sdk_Command = tsxBin, sdk_Args = [joinPath tsDir ''shim.ts'']\<rparr>,
            ''py'' \<mapsto> \<lparr>sdk_Name = ''py'', sdk_Command = ''python3'', sdk_Args = [pyShim]\<rparr>,
            ''cpp'' \<mapsto> \<lparr>sdk_Name = ''cpp'', sdk_Command = joinPath cppBuildDir ''relayly-interop-shim-cpp'', sdk_Args = []\<rparr>])))))))"

section \<open>The proxy's connections\<close>

text \<open>
  A connection through the proxy, from the upgrade to the end of both copying loops; \<open>upgraded\<close> and
  \<open>dialled\<close> are the outcomes of the two handshakes. The results are what each side received.
\<close>

definition proxyURL :: "string \<Rightarrow> string" where
  "proxyURL addr = ''ws://'' @ addr @ ''/ws''"

definition handleWS ::
  "bool \<Rightarrow> bool \<Rightarrow> device_id \<Rightarrow> pconn \<Rightarrow> proxyFrame list \<Rightarrow> proxyFrame list \<Rightarrow> Proxy \<Rightarrow> (proxyFrame list \<times> proxyFrame list) option \<times> Proxy" where
  "handleWS upgraded dialled i pc fromServer fromClient p =
     (if \<not> upgraded \<or> \<not> dialled then (None, p)
      else let p1 = wsOpened i pc p;
               (toClient, p2) = pump i True fromServer p1;
               (toServer, p3) = pump i False fromClient p2
        in (Some (toClient, toServer), wsEnded i pc p3))"

section \<open>The server\<close>

record RunningServer =
  BaseURL :: string
  WSURL :: string

fun waitForHealth :: "nat option list \<Rightarrow> string option" where
  "waitForHealth [] = Some ''server did not become healthy''"
| "waitForHealth (r # rs) = (if r = Some 200 then None else waitForHealth rs)"

definition serverArgs :: "string \<Rightarrow> nat \<Rightarrow> string \<Rightarrow> string list" where
  "serverArgs binPath port dbPath = [binPath, ''start'', ''--host'', ''127.0.0.1'', ''--port'', decimal port, ''--db.path'', dbPath]"

definition serverEnv :: "string list" where
  "serverEnv = [''RELAYLY_WS_RATE_LIMIT_MAX=1000'', ''RELAYLY_WS_RATE_LIMIT_WINDOW_SECONDS=60'']"

definition startServer :: "tools \<Rightarrow> string \<Rightarrow> string \<Rightarrow> RunningServer outcome" where
  "startServer T binPath dbDir =
     (case listenPort T of
        Inl e \<Rightarrow> ofail e
      | Inr port \<Rightarrow>
          (let argv = serverArgs binPath port (joinPath dbDir ''relayly.db'') in
           case startCmd T argv serverEnv of
             Some e \<Rightarrow> ofail (''starting server: '' @ e)
           | None \<Rightarrow>
               (case waitForHealth (probes T) of
                  Some e \<Rightarrow> (Inl e, [Started argv serverEnv, Killed])
                | None \<Rightarrow> (Inr \<lparr>BaseURL = ''http://127.0.0.1:'' @ decimal port, WSURL = ''ws://127.0.0.1:'' @ decimal port @ ''/ws''\<rparr>, [Started argv serverEnv]))))"

definition stopServer :: "action list" where
  "stopServer = [Killed, Waited]"

text \<open>\<open>post\<close>: the response to a POST, status and decoded credentials (\<open>None\<close> when the body does not decode).\<close>

definition registerDevice ::
  "(string \<Rightarrow> string \<Rightarrow> string + nat \<times> deviceCreds option) \<Rightarrow> string \<Rightarrow> string \<Rightarrow> string + deviceCreds" where
  "registerDevice post baseURL name =
     (case post (baseURL @ ''/api/v1/devices'') name of
        Inl e \<Rightarrow> Inl e
      | Inr (status, body) \<Rightarrow>
          (if status \<noteq> 200 then Inl (''registering device '' @ name @ '': status '' @ decimal status)
           else case body of None \<Rightarrow> Inl ''decode'' | Some creds \<Rightarrow> Inr creds))"

section \<open>The summary and the run\<close>

definition pad :: "nat \<Rightarrow> string \<Rightarrow> string" where
  "pad n s = s @ replicate (n - length s) CHR '' ''"

definition errString :: "string option \<Rightarrow> string" where
  "errString err = (case err of None \<Rightarrow> '''' | Some e \<Rightarrow> e)"

definition verdict :: "string option \<Rightarrow> string" where
  "verdict err = (if err = None then ''PASS'' else ''FAIL'')"

definition printSummary :: "((string \<times> string) \<times> string option) list \<Rightarrow> ((string \<times> string) \<times> string option) list \<Rightarrow> string list" where
  "printSummary pairResults negResults =
     [''''] @ [''=== Positive flow (register, pair, roundtrip, reconnect+rekey) ===''] @
     concat (map (\<lambda>((a, b), err). (''  '' @ pad 4 a @ '' x '' @ pad 4 b @ ''  '' @ verdict err) #
       (if err \<noteq> None then [''           '' @ errString err] else [])) pairResults) @
     [''''] @ [''=== Negative scenarios (each SDK once, in the victim role) ===''] @
     concat (map (\<lambda>((sc, sdk), err). (''  '' @ pad 14 sc @ '' '' @ pad 4 sdk @ ''  '' @ verdict err) #
       (if err \<noteq> None then [''                       '' @ errString err] else [])) negResults) @
     ['''']"

text \<open>\<open>positive\<close> and \<open>negative\<close> run a scenario with the server, the client programs and a directory.\<close>

type_synonym positives = "RunningServer \<Rightarrow> (string \<rightharpoonup> SDKDef) \<Rightarrow> string \<Rightarrow> string \<Rightarrow> string \<Rightarrow> string option"
type_synonym negatives = "RunningServer \<Rightarrow> (string \<rightharpoonup> SDKDef) \<Rightarrow> string \<Rightarrow> string \<Rightarrow> string \<Rightarrow> string \<Rightarrow> string option"

definition runHarness :: "tools \<Rightarrow> positives \<Rightarrow> negatives \<Rightarrow> unit outcome" where
  "runHarness T positive negative =
     (case repoRoot T of Inl e \<Rightarrow> ofail e | Inr root \<Rightarrow>
     (case mkdirTemp T of Inl e \<Rightarrow> ofail e | Inr tmpRoot \<Rightarrow>
     deferring [Removed tmpRoot] (
     let buildDir = tmpRoot @ ''/build''; dbDir = tmpRoot @ ''/db'' in
     obind (check (mkdirAll T buildDir)) (\<lambda>_.
     obind (tell (Printed ''Building server...'')) (\<lambda>_.
     obind (buildServerBinary T root buildDir) (\<lambda>serverBin.
     obind (tell (Printed ''Preparing SDK shims...'')) (\<lambda>_.
     obind (prepareSDKs T root buildDir) (\<lambda>sdks.
     obind (tell (Printed ''Starting server...'')) (\<lambda>_.
     obind (check (mkdirAll T dbDir)) (\<lambda>_.
     obind (startServer T serverBin dbDir) (\<lambda>server.
     deferring stopServer (
     obind (check (listenProxy T)) (\<lambda>_.
     deferring [ProxyClosed] (
     obind (tell (Printed ''Running interop matrix...'')) (\<lambda>_.
     let (pairResults, negResults, allOK) = runMatrix (positive server sdks tmpRoot) (negative server sdks tmpRoot)
     in (if allOK then Inr () else Inl ''one or more interop scenarios failed'',
         map Printed (printSummary pairResults negResults) @ (if allOK then [Printed ''All interop scenarios passed.''] else [])))))))))))))))))"

definition harness_main :: "unit outcome \<Rightarrow> nat" where
  "harness_main r = (case fst r of Inl e \<Rightarrow> 1 | Inr _ \<Rightarrow> 0)"

section \<open>Lemmas\<close>

lemma obind_Inr: "fst (obind m f) = Inr y \<longleftrightarrow> (\<exists>x. fst m = Inr x \<and> fst (f x) = Inr y)"
  by (cases m; cases "fst m") (auto simp: obind_def split: prod.splits)

lemma obind_snd: "snd (obind m f) = snd m @ (case fst m of Inl _ \<Rightarrow> [] | Inr x \<Rightarrow> snd (f x))"
  by (cases m; cases "fst m") (auto simp: obind_def split: prod.splits)

lemma noting_Inr: "fst (noting txt m) = Inr x \<longleftrightarrow> fst m = Inr x" "snd (noting txt m) = snd m"
  by (cases m; cases "fst m"; auto simp: noting_def)+

lemma deferring_parts: "fst (deferring ds m) = fst m" "snd (deferring ds m) = snd m @ ds"
  by (simp_all add: deferring_def)

lemma simple_parts:
  "fst (oreturn x) = Inr x" "snd (oreturn x) = []" "fst (ofail e) = Inl e" "snd (ofail e) = []" "fst (tell a) = Inr ()" "snd (tell a) = [a]"
  "fst (check r) = Inr u \<longleftrightarrow> r = None" "snd (check r) = []"
  by (auto simp: oreturn_def ofail_def tell_def check_def split: option.splits)

lemmas outcome_simps = obind_Inr obind_snd noting_Inr deferring_parts simple_parts

text \<open>How many servers were started and not killed.\<close>

fun running :: "action list \<Rightarrow> int" where
  "running [] = 0"
| "running (a # as) = (case a of Started _ _ \<Rightarrow> 1 | Killed \<Rightarrow> - 1 | _ \<Rightarrow> 0) + running as"

lemma running_append [simp]: "running (as @ bs) = running as + running bs"
  by (induction as) simp_all

lemma running_build: "running (snd (runIn T dir argv)) = 0" "running (snd (buildServerBinary T root out)) = 0"
  by (simp_all add: runIn_def buildServerBinary_def Let_def outcome_simps split: sum.split)

lemma running_prepare: "running (snd (prepareSDKs T root out)) = 0"
  by (simp add: prepareSDKs_def Let_def outcome_simps runIn_def split: sum.split option.split)

lemma running_start: "running (snd (startServer T bin dir)) = (case fst (startServer T bin dir) of Inl _ \<Rightarrow> 0 | Inr _ \<Rightarrow> 1)"
  by (simp add: startServer_def Let_def outcome_simps split: sum.split option.split)

lemma running_printed [simp]: "running (map Printed xs) = 0"
  by (induction xs) simp_all

section \<open>Properties\<close>

text \<open>
  Whatever fails, the harness leaves nothing behind: every server it started is killed, and the last
  thing it does once its directory exists is to remove it.
\<close>

lemma harness_cleans_up:
  "running (snd (runHarness T positive negative)) = 0"
  "repoRoot T = Inr root \<Longrightarrow> mkdirTemp T = Inr tmp \<Longrightarrow> \<exists>as. snd (runHarness T positive negative) = as @ [Removed tmp]"
  by (simp_all add: runHarness_def Let_def outcome_simps running_build running_prepare running_start stopServer_def split: sum.split prod.split)

text \<open>Without a rule a connection through the proxy is transparent and leaves no trace.\<close>

lemma handleWS_transparent:
  assumes "proxy_rules p i = None" and "proxy_conns p i = None"
  shows "handleWS True True i pc down up p = (Some (down, up), p)"
proof -
  have "proxy_rules (wsOpened i pc p) i = None" using assms(1) by (simp add: wsOpened_def)
  then have "pump i True down (wsOpened i pc p) = (down, wsOpened i pc p)" by (simp add: pump_transparent)
  moreover have "pump i False up (wsOpened i pc p) = (up, wsOpened i pc p)" by (simp add: pump_transparent)
  moreover have "(proxy_conns p)(i := None) = proxy_conns p" using assms(2) by (auto simp: fun_eq_iff)
  ultimately show ?thesis by (simp add: handleWS_def Let_def wsEnded_def) (simp add: wsOpened_def)
qed

text \<open>The five programs the matrix names are prepared, each under its own name.\<close>

lemma prepareSDKs_names:
  assumes "fst (prepareSDKs T root out) = Inr sdks" and "n \<in> set sdkNames"
  shows "\<exists>d. sdks n = Some d \<and> sdk_Name d = n"
  using assms by (auto simp: prepareSDKs_def Let_def outcome_simps sdkNames_def)

text \<open>
  The harness succeeds only if the server answered a health check and every run of the matrix
  passed: the positive flow of all 15 pairs and the three negative tests of each client.
\<close>

lemma harness_success:
  assumes "fst (runHarness T positive negative) = Inr ()"
  obtains root tmp server sdks where "repoRoot T = Inr root" and "mkdirTemp T = Inr tmp" and "Some 200 \<in> set (probes T)"
    and "\<forall>(a, b) \<in> set (unorderedPairs sdkNames). positive server sdks tmp a b = None"
    and "\<forall>sdk \<in> set sdkNames. \<forall>sc \<in> set negScenarios. negative server sdks tmp sc sdk (negPartner sdk) = None"
    and "\<forall>n \<in> set sdkNames. \<exists>d. sdks n = Some d \<and> sdk_Name d = n"
proof -
  from assms obtain root tmp where r: "repoRoot T = Inr root" "mkdirTemp T = Inr tmp"
    by (auto simp: runHarness_def outcome_simps split: sum.splits)
  with assms obtain bin sdks server where p: "fst (prepareSDKs T root (tmp @ ''/build'')) = Inr sdks"
    and s: "fst (startServer T bin (tmp @ ''/db'')) = Inr server"
    and v: "snd (snd (runMatrix (positive server sdks tmp) (negative server sdks tmp)))"
    by (auto simp: runHarness_def Let_def outcome_simps case_prod_beta split: if_splits)
  have "waitForHealth ps = None \<Longrightarrow> Some 200 \<in> set ps" for ps by (induction ps) (auto split: if_splits)
  with s have h: "Some 200 \<in> set (probes T)" by (auto simp: startServer_def Let_def outcome_simps split: sum.splits option.splits)
  show thesis using that [OF r h _ _, of server sdks] v prepareSDKs_names [OF p] by (simp add: runMatrix_verdict)
qed

text \<open>The largest payload of the positive flow fills a frame of the default limit to the byte.\<close>

lemma largest_payload_fits:
  assumes "length ct = length (fillBytes (last sizes)) + 16"
  shows "int (1 + length ct) = MaxMessageBytes (WebSocket setDefaults)"
  using assms by (simp add: sizes_def fillBytes_def interopMaxMessageBytes_def noiseEnvelopeOverhead_def setDefaults_def)

text \<open>The variables the harness sets lift the quota of the server it starts to 1000 upgrades a minute.\<close>

lemma serverEnv_quota:
  "serverEnv = [''RELAYLY_WS_RATE_LIMIT_MAX='' @ m, ''RELAYLY_WS_RATE_LIMIT_WINDOW_SECONDS='' @ w] \<Longrightarrow>
     envRateLimitMax m = 1000 \<and> envRateLimitWindow w = 60 * Second"
proof -
  assume "serverEnv = [''RELAYLY_WS_RATE_LIMIT_MAX='' @ m, ''RELAYLY_WS_RATE_LIMIT_WINDOW_SECONDS='' @ w]"
  then have "m = ''1000''" "w = ''60''" by (simp_all add: serverEnv_def)
  moreover have "envRateLimitMax ''1000'' = 1000" "envRateLimitWindow ''60'' = 60 * Second" by code_simp+
  ultimately show ?thesis by simp
qed


end
