(* ===== verification/Sdk_Peer.thy ===== *)
theory Sdk_Peer
  imports Sdk_Noise
begin

text \<open>
  The connection to one peer (\<^verbatim>\<open>sdk/go/peer.go\<close>): which Noise session is active, which is a
  pending replacement, and the throttling of unsolicited handshakes. Sessions are objects
  compared by identity, so they live in a heap and a peer holds their addresses; the address
  of a new session, the clock and the randomness are arguments.
\<close>

section \<open>Definitions\<close>

type_synonym sid = nat
type_synonym chan = nat
type_synonym ('h, 'c) sessions = "sid \<Rightarrow> ('h, 'c) noiseSession option"

definition unsolicitedMsg1MinInterval :: duration where
  "unsolicitedMsg1MinInterval = 2 * Second"

text \<open>\<open>lastUnsolicitedMsg1\<close> is \<open>None\<close> for the zero time, which lies arbitrarily far back.\<close>

record peerConn =
  pc_id :: device_id
  announcedStaticKey :: string
  active :: "sid option"
  pending :: "sid option"
  firstPairWaiter :: "chan option"
  lastUnsolicitedMsg1 :: "time option"

definition newPeerConn :: "device_id \<Rightarrow> string \<Rightarrow> peerConn" where
  "newPeerConn i key = \<lparr>pc_id = i, announcedStaticKey = key, active = None, pending = None,
     firstPairWaiter = None, lastUnsolicitedMsg1 = None\<rparr>"

definition setFirstPairWaiter :: "chan \<Rightarrow> peerConn \<Rightarrow> peerConn" where
  "setFirstPairWaiter ch p = p\<lparr>firstPairWaiter := Some ch\<rparr>"

definition takeFirstPairWaiter :: "peerConn \<Rightarrow> chan option \<times> peerConn" where
  "takeFirstPairWaiter p = (firstPairWaiter p, p\<lparr>firstPairWaiter := None\<rparr>)"

definition startAsInitiator ::
  "('h, 'c) noiseLib \<Rightarrow> bytes \<Rightarrow> sid \<Rightarrow> bytes \<Rightarrow> peerConn \<times> ('h, 'c) sessions \<Rightarrow>
    (sdk_error + bytes) \<times> peerConn \<times> ('h, 'c) sessions" where
  "startAsInitiator lib rnd n priv st =
     (let (p, H) = st in
      case newInitiatorSession lib rnd priv of
        Inl e \<Rightarrow> (Inl e, p, H)
      | Inr (s, msg1) \<Rightarrow> (Inr msg1, p\<lparr>active := Some n\<rparr>, H(n \<mapsto> s)))"

definition startRekeyAsInitiator ::
  "('h, 'c) noiseLib \<Rightarrow> bytes \<Rightarrow> sid \<Rightarrow> bytes \<Rightarrow> peerConn \<times> ('h, 'c) sessions \<Rightarrow>
    (sdk_error + bytes) \<times> peerConn \<times> ('h, 'c) sessions" where
  "startRekeyAsInitiator lib rnd n priv st =
     (let (p, H) = st in
      case newInitiatorSession lib rnd priv of
        Inl e \<Rightarrow> (Inl e, p, H)
      | Inr (s, msg1) \<Rightarrow> (Inr msg1, p\<lparr>pending := Some n\<rparr>, H(n \<mapsto> s)))"

text \<open>Is there a session at the address, and is it ready?\<close>

definition readyAt :: "('h, 'c) sessions \<Rightarrow> sid \<Rightarrow> bool" where
  "readyAt H i \<longleftrightarrow> (case H i of None \<Rightarrow> False | Some s \<Rightarrow> ready s)"

text \<open>
  The choice of the session for an incoming handshake message: the address and whether it is
  a replacement, \<open>Inr None\<close> when the message is dropped by the throttle.
\<close>

definition chooseSession ::
  "('h, 'c) noiseLib \<Rightarrow> bytes \<Rightarrow> time \<Rightarrow> sid \<Rightarrow> bytes \<Rightarrow> peerConn \<times> ('h, 'c) sessions \<Rightarrow>
    (sdk_error + (sid \<times> bool) option) \<times> peerConn \<times> ('h, 'c) sessions" where
  "chooseSession lib rnd now n priv st =
     (let (p, H) = st in
      case pending p of
        Some k \<Rightarrow> (Inr (Some (k, True)), p, H)
      | None \<Rightarrow>
          (case active p of
             Some a \<Rightarrow>
               (if \<not> readyAt H a then (Inr (Some (a, False)), p, H)
                else if (case lastUnsolicitedMsg1 p of None \<Rightarrow> False | Some l \<Rightarrow> now - l < unsolicitedMsg1MinInterval)
                then (Inr None, p, H)
                else let p1 = p\<lparr>lastUnsolicitedMsg1 := Some now\<rparr>
                  in case newResponderSession lib rnd priv of
                       Inl e \<Rightarrow> (Inl e, p1, H)
                     | Inr s \<Rightarrow> (Inr (Some (n, True)), p1\<lparr>pending := Some n\<rparr>, H(n \<mapsto> s)))
           | None \<Rightarrow>
               (case newResponderSession lib rnd priv of
                  Inl e \<Rightarrow> (Inl e, p, H)
                | Inr s \<Rightarrow> (Inr (Some (n, False)), p\<lparr>active := Some n\<rparr>, H(n \<mapsto> s)))))"

text \<open>The result: reply, the session that completed, whether it was a replacement, and the error.\<close>

definition peerHandleHandshake ::
  "('h, 'c) noiseLib \<Rightarrow> bytes \<Rightarrow> time \<Rightarrow> sid \<Rightarrow> bytes \<Rightarrow> bytes \<Rightarrow> peerConn \<times> ('h, 'c) sessions \<Rightarrow>
    (bytes option \<times> sid option \<times> bool \<times> sdk_error option) \<times> peerConn \<times> ('h, 'c) sessions" where
  "peerHandleHandshake lib rnd now n priv msg st =
     (case chooseSession lib rnd now n priv st of
        (Inl e, p, H) \<Rightarrow> ((None, None, False, Some e), p, H)
      | (Inr None, p, H) \<Rightarrow> ((None, None, False, None), p, H)
      | (Inr (Some (k, wasPending)), p, H) \<Rightarrow>
          (case H k of
             None \<Rightarrow> ((None, None, wasPending, None), p, H)
           | Some s \<Rightarrow>
               (case handleHandshakeMessage lib msg s of
                  ((reply, done, err), s') \<Rightarrow>
                    ((reply, if done then Some k else None, wasPending, err), p, H(k \<mapsto> s')))))"

definition promote :: "sid \<Rightarrow> peerConn \<Rightarrow> peerConn" where
  "promote k p = (if pending p = Some k then p\<lparr>active := Some k, pending := None\<rparr> else p)"

definition abandon :: "sid \<Rightarrow> peerConn \<Rightarrow> peerConn" where
  "abandon k p = (if pending p = Some k then p\<lparr>pending := None\<rparr> else p)"

definition peerSend ::
  "('h, 'c) noiseLib \<Rightarrow> bytes \<Rightarrow> peerConn \<times> ('h, 'c) sessions \<Rightarrow> (sdk_error + bytes) \<times> ('h, 'c) sessions" where
  "peerSend lib payload st =
     (let (p, H) = st in
      case Option.bind (active p) H of
        None \<Rightarrow> (Inl (Sentinel ErrNotReady), H)
      | Some s \<Rightarrow> (case encrypt lib payload s of (r, s') \<Rightarrow> (r, H(the (active p) \<mapsto> s'))))"

definition peerRecv ::
  "('h, 'c) noiseLib \<Rightarrow> bytes \<Rightarrow> peerConn \<times> ('h, 'c) sessions \<Rightarrow> (sdk_error + bytes) \<times> ('h, 'c) sessions" where
  "peerRecv lib ciphertext st =
     (let (p, H) = st in
      case Option.bind (active p) H of
        None \<Rightarrow> (Inl (Sentinel ErrNotReady), H)
      | Some s \<Rightarrow> (case decrypt lib ciphertext s of (r, s') \<Rightarrow> (r, H(the (active p) \<mapsto> s'))))"

section \<open>Lemmas\<close>

text \<open>
  A handshake message of any contents leaves a ready active session alone: the peer keeps its
  address, and the object itself is unchanged.
\<close>

lemma peerHandleHandshake_keeps_active:
  assumes "active p = Some a" and "H a = Some s" and "ready s" and "pending p \<noteq> Some a" and "n \<noteq> a"
    and "peerHandleHandshake lib rnd now n priv msg (p, H) = (r, p', H')"
  shows "active p' = Some a \<and> H' a = Some s \<and> pending p' \<noteq> Some a"
  using assms
  by (auto simp: peerHandleHandshake_def chooseSession_def readyAt_def Let_def
      split: option.splits sum.splits prod.splits if_splits)

lemma abandon_keeps_active [simp]: "active (abandon k p) = active p"
  by (simp add: abandon_def)

section \<open>Properties\<close>

text \<open>
  C16: make before break. While a peer has a ready session, no handshake message, whatever
  its contents and whether it starts, continues or breaks a replacement, and no abandoned
  replacement changes what \<^verbatim>\<open>send\<close> and \<^verbatim>\<open>recv\<close> do: they give the same results as before.
\<close>

theorem make_before_break:
  assumes "active p = Some a" and "H a = Some s" and "ready s" and "pending p \<noteq> Some a" and "n \<noteq> a"
    and "peerHandleHandshake lib rnd now n priv msg (p, H) = (r, p', H')"
  shows "fst (peerSend lib m (p', H')) = fst (peerSend lib m (p, H)) \<and>
    fst (peerRecv lib m (p', H')) = fst (peerRecv lib m (p, H)) \<and>
    fst (peerSend lib m (abandon k p', H')) = fst (peerSend lib m (p, H)) \<and>
    fst (peerRecv lib m (abandon k p', H')) = fst (peerRecv lib m (p, H))"
proof -
  have "active p' = Some a" "H' a = Some s"
    using peerHandleHandshake_keeps_active [OF assms] by simp_all
  with assms(1,2) show ?thesis
    by (simp add: peerSend_def peerRecv_def case_prod_beta)
qed

text \<open>A peer with a ready session over the sample library.\<close>

definition samplePeer :: "peerConn \<times> (bool \<times> nat \<times> bytes \<times> bytes, nat) sessions" where
  "samplePeer = ((newPeerConn ''b'' '''')\<lparr>active := Some 0\<rparr>,
     [0 \<mapsto> \<lparr>session_status = statusReady, session_err = None, initiator = True, hs = (True, 3, [], []),
            gotMsg1 = False, cipherStates = Some (0, 0), peerStatic = [], readyClosed = 1\<rparr>])"

theorem make_before_break_witness:
  "fst (peerSend plainLib [9] (snd (peerHandleHandshake plainLib [] 0 1 [] [7] samplePeer))) = Inr [9]"
proof -
  obtain p H where pH: "samplePeer = (p, H)" by fastforce
  obtain s where s: "active p = Some 0" "H 0 = Some s" "ready s" "pending p \<noteq> Some 0"
    using pH by (auto simp: samplePeer_def newPeerConn_def ready_def)
  obtain r p' H' where run: "peerHandleHandshake plainLib [] 0 1 [] [7] (p, H) = (r, p', H')"
    by (metis prod_cases3)
  have "fst (peerSend plainLib [9] samplePeer) = Inr [9]"
    by (simp add: samplePeer_def newPeerConn_def peerSend_def encrypt_def plainLib_def)
  with make_before_break [OF s _ run, of "[9]"] run pH show ?thesis by simp
qed

text \<open>
  An interrupted replacement swallows the next one. When the other device restarts its
  handshake while this one still waits for the last message of the previous attempt, the new
  first message is taken for that last message: no reply is sent to it, so the new attempt
  cannot complete, whatever the Noise library makes of the message.
\<close>

theorem stale_replacement_swallows:
  assumes "pending p = Some k" and "H k = Some s" and "session_status s = statusHandshaking"
    and "\<not> initiator s" and "gotMsg1 s"
  shows "fst (fst (peerHandleHandshake lib rnd now n priv msg1 (p, H))) = None"
  using assms
  by (auto simp: peerHandleHandshake_def chooseSession_def handleHandshakeMessage_def Let_def split: option.split)

theorem stale_replacement_swallows_witness:
  "fst (fst (peerHandleHandshake plainLib [] 5 9 [] [1]
     (snd (peerHandleHandshake plainLib [] 0 1 [] [7] samplePeer)))) = None"
proof -
  let ?st = "snd (peerHandleHandshake plainLib [] 0 1 [] [7] samplePeer)"
  have "pending (fst ?st) = Some 1" "\<exists>s. snd ?st 1 = Some s \<and> session_status s = statusHandshaking \<and> \<not> initiator s \<and> gotMsg1 s"
    by (simp_all add: samplePeer_def newPeerConn_def peerHandleHandshake_def chooseSession_def readyAt_def ready_def
        newResponderSession_def handleHandshakeMessage_def plainLib_def)
  then show ?thesis
    using stale_replacement_swallows [of "fst ?st" 1 "snd ?st"] by auto
qed

text \<open>
  A failed first handshake is never retried by the answering side: while the failed session is
  the active one and there is no replacement, every handshake message of the peer is refused
  and nothing changes.
\<close>

lemma failed_first_handshake_is_permanent:
  assumes "active p = Some a" and "pending p = None" and "H a = Some s" and "session_status s = statusFailed"
  shows "\<exists>e. peerHandleHandshake lib rnd now n priv msg (p, H) = ((None, Some a, False, Some e), p, H)"
  using assms
  by (simp add: peerHandleHandshake_def chooseSession_def readyAt_def ready_def handleHandshakeMessage_def fun_upd_idem)

text \<open>
  A first session is the active one and ready as soon as its last message was handled, before
  the caller has compared the key.
\<close>

lemma usable_before_verification:
  assumes "peerHandleHandshake lib rnd now n priv msg (p, H) = ((reply, Some k, False, None), p', H')"
  shows "active p' = Some k \<and> readyAt H' k"
  using assms
  by (auto simp: peerHandleHandshake_def chooseSession_def handleHandshakeMessage_def finishLocked_def readyAt_def ready_def
      failLocked_def Let_def split: option.splits sum.splits prod.splits if_splits)

end
