(* ===== verification/Sdk_Peer_Store.thy ===== *)
theory Sdk_Peer_Store
  imports Sdk_Crypto
begin

text \<open>
  The store of pinned peer keys (\<^verbatim>\<open>sdk/go/peerstore.go\<close>): loading, pinning on first use,
  verification, and the save through a temporary file. A file holds the JSON value that was
  written to it, or bytes that do not parse; the clock's text and the outcome of the system
  calls are arguments. \<open>PinOrVerify\<close> provides the trust-on-first-use contract.
\<close>

section \<open>Definitions\<close>

record pinnedPeer =
  pin_StaticKey :: string
  pin_PinnedAt :: string

type_synonym pins = "device_id \<Rightarrow> pinnedPeer option"

datatype storeFile = EmptyFile | Peers pins | Unparsable

type_synonym disk = "string \<Rightarrow> storeFile option"

record PeerStore =
  ps_path :: string
  ps_peers :: pins

datatype load_error = ReadingStore | InvalidStore

definition LoadPeerStore :: "string option \<Rightarrow> bool \<Rightarrow> string \<Rightarrow> disk \<Rightarrow> load_error + PeerStore" where
  "LoadPeerStore home readOk path fs =
     (let p = expandHome home path
      in case fs p of
           None \<Rightarrow> Inr \<lparr>ps_path = p, ps_peers = Map.empty\<rparr>
         | Some f \<Rightarrow>
             (if \<not> readOk then Inl ReadingStore
              else case f of
                EmptyFile \<Rightarrow> Inr \<lparr>ps_path = p, ps_peers = Map.empty\<rparr>
              | Peers m \<Rightarrow> Inr \<lparr>ps_path = p, ps_peers = m\<rparr>
              | Unparsable \<Rightarrow> Inl InvalidStore))"

text \<open>How far \<^verbatim>\<open>saveLocked\<close> gets.\<close>

datatype save_result = SaveOk | MkdirFailed | WriteTmpFailed | RenameFailed

definition saveLocked :: "save_result \<Rightarrow> PeerStore \<Rightarrow> disk \<Rightarrow> bool \<times> disk" where
  "saveLocked res ps fs =
     (let tmp = ps_path ps @ ''.tmp''
      in case res of
           MkdirFailed \<Rightarrow> (False, fs)
         | WriteTmpFailed \<Rightarrow> (False, fs(tmp \<mapsto> Unparsable))
         | RenameFailed \<Rightarrow> (False, fs(tmp \<mapsto> Peers (ps_peers ps)))
         | SaveOk \<Rightarrow> (True, fs(tmp := None, ps_path ps \<mapsto> Peers (ps_peers ps))))"

datatype pin_error = PinMismatch | PinSave

definition PinOrVerify ::
  "save_result \<Rightarrow> string \<Rightarrow> device_id \<Rightarrow> string \<Rightarrow> PeerStore \<times> disk \<Rightarrow> pin_error option \<times> PeerStore \<times> disk" where
  "PinOrVerify res now peerID staticKeyB64 st =
     (let (ps, fs) = st
      in case ps_peers ps peerID of
           Some existing \<Rightarrow>
             (if pin_StaticKey existing \<noteq> staticKeyB64 then (Some PinMismatch, ps, fs) else (None, ps, fs))
         | None \<Rightarrow>
             (let ps' = ps\<lparr>ps_peers := (ps_peers ps)(peerID \<mapsto> \<lparr>pin_StaticKey = staticKeyB64, pin_PinnedAt = now\<rparr>)\<rparr>;
                  (ok, fs') = saveLocked res ps' fs
              in (if ok then None else Some PinSave, ps', fs')))"

definition Get :: "device_id \<Rightarrow> PeerStore \<Rightarrow> string option" where
  "Get peerID ps = map_option pin_StaticKey (ps_peers ps peerID)"

section \<open>The contract\<close>

text \<open>An offer carries the key together with the outcome of the save and the clock.\<close>

interpretation pin_lock: tofu_lock
  "\<lambda>i key st. (fst (PinOrVerify res now i key st) = None, snd (PinOrVerify res now i key st))"
  "\<lambda>st i. Get i (fst st)" "\<lambda>_. True" for res :: save_result and now :: string
  by unfold_locales
    (auto simp: PinOrVerify_def Get_def Let_def case_prod_beta split: option.splits if_splits)

lemma path_not_tmp: "p \<noteq> p @ ''.tmp''"
  by simp

lemma PinOrVerify_disk:
  "snd (snd (PinOrVerify res now i key (ps, fs))) (ps_path ps) = fs (ps_path ps) \<or>
   snd (snd (PinOrVerify res now i key (ps, fs))) (ps_path ps)
     = Some (Peers (ps_peers (fst (snd (PinOrVerify res now i key (ps, fs))))))"
  by (auto simp: PinOrVerify_def saveLocked_def Let_def path_not_tmp [symmetric] split: option.split save_result.split)

lemma PinOrVerify_path [simp]: "ps_path (fst (snd (PinOrVerify res now i key st))) = ps_path (fst st)"
  by (auto simp: PinOrVerify_def Let_def case_prod_beta split: option.split)

fun pin_run :: "(save_result \<times> string \<times> device_id \<times> string) list \<Rightarrow> PeerStore \<times> disk \<Rightarrow> PeerStore \<times> disk" where
  "pin_run [] st = st"
| "pin_run ((res, now, i, key) # ops) st = pin_run ops (snd (PinOrVerify res now i key st))"

lemma pin_run_keeps: "Get i (fst st) = Some k \<Longrightarrow> Get i (fst (pin_run ops st)) = Some k"
proof (induction ops arbitrary: st)
  case (Cons op ops)
  obtain res now j key where op: "op = (res, now, j, key)" by (cases op)
  have "Get i (fst (snd (PinOrVerify res now j key st))) = Some k"
    using pin_lock.lock_keeps [where k = i and k' = j and v' = key, OF Cons.prems] by simp
  then show ?case using Cons.IH op by simp
qed simp

section \<open>Properties\<close>

text \<open>
  C27: a pinned key is never replaced. After a key was accepted for a peer, whatever keys
  are offered later for whatever peers and however saving them goes, the pin stays and any
  other key offered for that peer is rejected.
\<close>

theorem pin_never_replaced:
  assumes "fst (PinOrVerify res now i key st) = None" and "key' \<noteq> key"
  shows "Get i (fst (pin_run ops (snd (PinOrVerify res now i key st)))) = Some key \<and>
    fst (PinOrVerify res' now' i key' (pin_run ops (snd (PinOrVerify res now i key st)))) \<noteq> None"
proof -
  let ?t = "pin_run ops (snd (PinOrVerify res now i key st))"
  have "Get i (fst (snd (PinOrVerify res now i key st))) = Some key"
    using pin_lock.lock_accept [where res = res and now = now and v = key and k = i and s = st] assms(1) by simp
  then have pin: "Get i (fst ?t) = Some key" by (rule pin_run_keeps)
  with pin_lock.lock_reject [where res = res' and now = now' and s = ?t and k = i and w = key and v = key'] assms(2) show ?thesis by simp
qed

theorem pin_never_replaced_witness:
  "fst (PinOrVerify SaveOk ''t'' ''b'' ''K2'' (pin_run [(RenameFailed, ''t'', ''c'', ''K3'')]
     (snd (PinOrVerify SaveOk ''t'' ''b'' ''K1'' (\<lparr>ps_path = ''p'', ps_peers = Map.empty\<rparr>, Map.empty))))) \<noteq> None"
proof -
  have "fst (PinOrVerify SaveOk ''t'' ''b'' ''K1'' (\<lparr>ps_path = ''p'', ps_peers = Map.empty\<rparr>, Map.empty)) = None"
    by (simp add: PinOrVerify_def saveLocked_def)
  then show ?thesis
    using pin_never_replaced [of SaveOk "''t''" "''b''" "''K1''" "(\<lparr>ps_path = ''p'', ps_peers = Map.empty\<rparr>, Map.empty)" "''K2''"
        "[(RenameFailed, ''t'', ''c'', ''K3'')]" SaveOk "''t''"]
    by (simp del: pin_run.simps)
qed

text \<open>
  A save never damages the store. However \<^verbatim>\<open>PinOrVerify\<close> ends, the file itself is either
  what it was or the complete new set of pins, and in the first case loading it again gives
  what loading it before gave; after a success for a new peer, loading gives the pins in memory.
\<close>

theorem save_is_atomic:
  assumes "expandHome home path = ps_path ps"
  shows "let (err, ps', fs') = PinOrVerify res now i key (ps, fs) in
    (LoadPeerStore home readOk path fs' = LoadPeerStore home readOk path fs \<or> fs' (ps_path ps) = Some (Peers (ps_peers ps'))) \<and>
    (err = None \<and> ps_peers ps i = None \<longrightarrow> LoadPeerStore home True path fs' = Inr ps')"
  using assms PinOrVerify_disk [of res now i key ps fs]
  by (auto simp: LoadPeerStore_def PinOrVerify_def saveLocked_def Let_def path_not_tmp [symmetric]
      split: option.split save_result.split)

theorem save_is_atomic_witness:
  "LoadPeerStore None True ''p'' (snd (snd (PinOrVerify SaveOk ''t'' ''b'' ''K1''
      (\<lparr>ps_path = ''p'', ps_peers = Map.empty\<rparr>, Map.empty)))) =
   Inr (fst (snd (PinOrVerify SaveOk ''t'' ''b'' ''K1'' (\<lparr>ps_path = ''p'', ps_peers = Map.empty\<rparr>, Map.empty))))"
  using save_is_atomic [of None "''p''" "\<lparr>ps_path = ''p'', ps_peers = Map.empty\<rparr>" SaveOk "''t''" "''b''" "''K1''" Map.empty True]
  by (simp add: expandHome_def PinOrVerify_def saveLocked_def)

end
