(* ===== verification/Sdk_Client.thy ===== *)
theory Sdk_Client
  imports Sdk_Peer Sdk_Peer_Store
begin

text \<open>
  The client object of the Go library (\<^verbatim>\<open>sdk/go/client.go\<close>, \<^verbatim>\<open>sdk/go/wire.go\<close>): pairing
  waiters, the dispatch of control frames and envelopes, the resolution of a handshake with
  the pin check, sending, and reconnection with backoff. The read loop is one goroutine, so a
  handler is one step. Frames carry the decoded control message; \<open>pick\<close> is the peer that
  \<^verbatim>\<open>range\<close> over the map of peers visits first. Callbacks are recorded. A blocking send to
  the outgoing channel is an append; nothing is appended after \<^verbatim>\<open>Close\<close>.
\<close>

section \<open>State\<close>

record wirePeer =
  wp_ID :: device_id
  wp_StaticKey :: string

record sdkMessage =
  m_Type :: string
  m_ProtocolVersion :: int
  m_DeviceID :: device_id
  m_Peers :: "wirePeer list"
  m_StaticKey :: string
  m_Code :: string
  m_ExpiresIn :: int
  m_PeerID :: device_id
  m_PeerStaticKey :: string
  m_Online :: "bool option"
  m_Message :: string

definition emptyMessage :: "string \<Rightarrow> sdkMessage" where
  "emptyMessage ty = \<lparr>m_Type = ty, m_ProtocolVersion = 0, m_DeviceID = '''', m_Peers = [], m_StaticKey = '''',
     m_Code = '''', m_ExpiresIn = 0, m_PeerID = '''', m_PeerStaticKey = '''', m_Online = None, m_Message = ''''\<rparr>"

definition protocolVersion :: int where
  "protocolVersion = 1"

datatype outFrame = TextFrame sdkMessage | BinaryFrame bytes

record PairResult =
  res_Code :: string
  res_ExpiresIn :: int
  res_PeerID :: device_id
  res_PeerPublicKey :: bytes
  res_Error :: "sdk_error option"

definition emptyResult :: PairResult where
  "emptyResult = \<lparr>res_Code = '''', res_ExpiresIn = 0, res_PeerID = '''', res_PeerPublicKey = [], res_Error = None\<rparr>"

record pairWaiter =
  wt_ch :: chan
  weAreAcceptor :: bool

record Message =
  From :: device_id
  Payload :: bytes
  Timestamp :: time

datatype callback = OnReady device_id | OnPeerStatus device_id bool

record ('h, 'c) Client =
  opts :: Options
  c_closed :: bool
  peerStore :: "PeerStore \<times> disk"
  c_sessions :: "('h, 'c) sessions"
  peers :: "device_id \<Rightarrow> peerConn option"
  messages :: "Message list"
  sends :: "outFrame list"
  pairWaiters :: "(string \<times> pairWaiter) list"
  chans :: "chan \<Rightarrow> PairResult list"
  calls :: "callback list"

definition messagesCapacity :: nat where
  "messagesCapacity = 64"

section \<open>Waiters and channels\<close>

definition takePairWaiter :: "string \<Rightarrow> ('h, 'c) Client \<Rightarrow> pairWaiter option \<times> ('h, 'c) Client" where
  "takePairWaiter key c =
     (map_of (pairWaiters c) key, c\<lparr>pairWaiters := filter (\<lambda>(k, w). k \<noteq> key) (pairWaiters c)\<rparr>)"

definition removePairWaiter :: "string \<Rightarrow> ('h, 'c) Client \<Rightarrow> ('h, 'c) Client" where
  "removePairWaiter key c = c\<lparr>pairWaiters := filter (\<lambda>(k, w). k \<noteq> key) (pairWaiters c)\<rparr>"

definition putPairWaiter :: "string \<Rightarrow> pairWaiter \<Rightarrow> ('h, 'c) Client \<Rightarrow> ('h, 'c) Client" where
  "putPairWaiter key w c = c\<lparr>pairWaiters := (key, w) # filter (\<lambda>(k, w). k \<noteq> key) (pairWaiters c)\<rparr>"

definition notify :: "chan \<Rightarrow> PairResult \<Rightarrow> ('h, 'c) Client \<Rightarrow> ('h, 'c) Client" where
  "notify ch r c = c\<lparr>chans := (chans c)(ch := chans c ch @ [r])\<rparr>"

definition pushSend :: "outFrame \<Rightarrow> ('h, 'c) Client \<Rightarrow> ('h, 'c) Client" where
  "pushSend f c = (if c_closed c then c else c\<lparr>sends := sends c @ [f]\<rparr>)"

definition enqueueBinary :: "8 word \<Rightarrow> bytes \<Rightarrow> ('h, 'c) Client \<Rightarrow> ('h, 'c) Client" where
  "enqueueBinary kind payload = pushSend (BinaryFrame (encodeEnvelope kind payload))"

definition getPeerConn :: "device_id \<Rightarrow> ('h, 'c) Client \<Rightarrow> peerConn option" where
  "getPeerConn i c = peers c i"

definition setPeerConn :: "device_id \<Rightarrow> peerConn \<Rightarrow> ('h, 'c) Client \<Rightarrow> ('h, 'c) Client" where
  "setPeerConn i p c = c\<lparr>peers := (peers c)(i \<mapsto> p)\<rparr>"

definition getSolePeer :: "device_id \<Rightarrow> ('h, 'c) Client \<Rightarrow> (device_id \<times> peerConn) option" where
  "getSolePeer pick c = map_option (\<lambda>p. (pick, p)) (peers c pick)"

section \<open>Pairing calls\<close>

text \<open>
  \<^verbatim>\<open>RequestPairCode\<close> up to its first wait, and from the result on; \<open>ch\<close> and \<open>ch'\<close> are the
  channels it makes. \<^verbatim>\<open>AcceptPair\<close> up to its wait.
\<close>

definition requestKey :: string where
  "requestKey = ''__request__''"

definition RequestPairCode :: "chan \<Rightarrow> ('h, 'c) Client \<Rightarrow> ('h, 'c) Client" where
  "RequestPairCode ch c =
     (let c1 = putPairWaiter requestKey \<lparr>wt_ch = ch, weAreAcceptor = False\<rparr> c
      in if c_closed c1 then removePairWaiter requestKey c1
         else pushSend (TextFrame (emptyMessage ''pair_request'')) c1)"

definition RequestPairCode_result :: "chan \<Rightarrow> chan \<Rightarrow> ('h, 'c) Client \<Rightarrow> (sdk_error + string \<times> int) option \<times> ('h, 'c) Client" where
  "RequestPairCode_result ch ch' c =
     (case chans c ch of
        [] \<Rightarrow> (None, c)
      | r # rs \<Rightarrow>
          (let c1 = c\<lparr>chans := (chans c)(ch := rs)\<rparr>
           in case res_Error r of
                Some e \<Rightarrow> (Some (Inl e), c1)
              | None \<Rightarrow> (Some (Inr (res_Code r, res_ExpiresIn r)),
                         putPairWaiter (res_Code r) \<lparr>wt_ch = ch', weAreAcceptor = False\<rparr> c1)))"

definition AcceptPair :: "chan \<Rightarrow> string \<Rightarrow> ('h, 'c) Client \<Rightarrow> ('h, 'c) Client" where
  "AcceptPair ch code c =
     (let c1 = putPairWaiter code \<lparr>wt_ch = ch, weAreAcceptor = True\<rparr> c
      in if c_closed c1 then removePairWaiter code c1
         else pushSend (TextFrame ((emptyMessage ''pair_accept'')\<lparr>m_Code := code\<rparr>)) c1)"

text \<open>The receive of \<^verbatim>\<open>AcceptPair\<close> and of \<^verbatim>\<open>PairCode.Wait\<close>.\<close>

definition waitPair :: "chan \<Rightarrow> ('h, 'c) Client \<Rightarrow> (sdk_error + device_id \<times> bytes) option \<times> ('h, 'c) Client" where
  "waitPair ch c =
     (case chans c ch of
        [] \<Rightarrow> (None, c)
      | r # rs \<Rightarrow>
          (Some (case res_Error r of Some e \<Rightarrow> Inl e | None \<Rightarrow> Inr (res_PeerID r, res_PeerPublicKey r)),
           c\<lparr>chans := (chans c)(ch := rs)\<rparr>))"

definition Close :: "('h, 'c) Client \<Rightarrow> ('h, 'c) Client" where
  "Close c = c\<lparr>c_closed := True\<rparr>"

section \<open>Control frames\<close>

definition handlePairCode :: "sdkMessage \<Rightarrow> ('h, 'c) Client \<Rightarrow> ('h, 'c) Client" where
  "handlePairCode frame c =
     (case takePairWaiter requestKey c of
        (None, c1) \<Rightarrow> c1
      | (Some w, c1) \<Rightarrow>
          notify (wt_ch w) (emptyResult\<lparr>res_Code := m_Code frame, res_ExpiresIn := m_ExpiresIn frame\<rparr>) c1)"

definition handlePairComplete ::
  "('h, 'c) noiseLib \<Rightarrow> bytes \<Rightarrow> sid \<Rightarrow> sdkMessage \<Rightarrow> ('h, 'c) Client \<Rightarrow> ('h, 'c) Client" where
  "handlePairComplete lib rnd n frame c =
     (case takePairWaiter (m_Code frame) c of
        (None, c1) \<Rightarrow> c1
      | (Some w, c1) \<Rightarrow>
          (let peer = setFirstPairWaiter (wt_ch w) (newPeerConn (m_PeerID frame) (m_PeerStaticKey frame));
               c2 = setPeerConn (m_PeerID frame) peer c1
           in if \<not> weAreAcceptor w then c2
              else case startAsInitiator lib rnd n (opt_PrivateKey (opts c2)) (peer, c_sessions c2) of
                (Inl e, p, H) \<Rightarrow>
                  (case takeFirstPairWaiter p of
                     (None, p1) \<Rightarrow> setPeerConn (m_PeerID frame) p1 c2
                   | (Some ch, p1) \<Rightarrow>
                       notify ch (emptyResult\<lparr>res_Error := Some (Wrapped e ''relayly: starting handshake'')\<rparr>)
                         (setPeerConn (m_PeerID frame) p1 c2))
              | (Inr msg1, p, H) \<Rightarrow>
                  enqueueBinary envelopeHandshake msg1 ((setPeerConn (m_PeerID frame) p c2)\<lparr>c_sessions := H\<rparr>)))"

definition handlePeerStatus ::
  "('h, 'c) noiseLib \<Rightarrow> bytes \<Rightarrow> sid \<Rightarrow> sdkMessage \<Rightarrow> ('h, 'c) Client \<Rightarrow> ('h, 'c) Client" where
  "handlePeerStatus lib rnd n frame c =
     (let online = (m_Online frame = Some True);
          c1 = c\<lparr>calls := calls c @ [OnPeerStatus (m_PeerID frame) online]\<rparr>
      in if \<not> online then c1
         else case getPeerConn (m_PeerID frame) c1 of
           None \<Rightarrow> c1
         | Some peer \<Rightarrow>
             (if opt_DeviceID (opts c1) \<ge> m_PeerID frame then c1
              else case startRekeyAsInitiator lib rnd n (opt_PrivateKey (opts c1)) (peer, c_sessions c1) of
                (Inl e, p, H) \<Rightarrow> c1
              | (Inr msg1, p, H) \<Rightarrow>
                  enqueueBinary envelopeHandshake msg1 ((setPeerConn (m_PeerID frame) p c1)\<lparr>c_sessions := H\<rparr>)))"

definition handleError :: "sdkMessage \<Rightarrow> ('h, 'c) Client \<Rightarrow> ('h, 'c) Client" where
  "handleError frame c =
     (let err = errForCode (m_Code frame) (m_Message frame)
      in (fold (\<lambda>(code, w). notify (wt_ch w) (emptyResult\<lparr>res_Error := Some err\<rparr>)) (pairWaiters c) c)\<lparr>pairWaiters := []\<rparr>)"

definition dispatch ::
  "('h, 'c) noiseLib \<Rightarrow> bytes \<Rightarrow> sid \<Rightarrow> sdkMessage \<Rightarrow> ('h, 'c) Client \<Rightarrow> ('h, 'c) Client" where
  "dispatch lib rnd n frame c =
     (if m_Type frame = ''pair_code'' then handlePairCode frame c
      else if m_Type frame = ''pair_complete'' then handlePairComplete lib rnd n frame c
      else if m_Type frame = ''peer_status'' then handlePeerStatus lib rnd n frame c
      else if m_Type frame = ''error'' then handleError frame c
      else c)"

section \<open>Envelopes\<close>

definition pinError :: "pin_error \<Rightarrow> sdk_error" where
  "pinError e = (case e of PinMismatch \<Rightarrow> Sentinel ErrPeerKeyMismatch | PinSave \<Rightarrow> Sentinel (ErrOther ''saving peer store''))"

definition verifyAndPin ::
  "save_result \<Rightarrow> string \<Rightarrow> peerConn \<Rightarrow> ('h, 'c) noiseSession \<Rightarrow> PeerStore \<times> disk \<Rightarrow> (sdk_error + bytes) \<times> PeerStore \<times> disk" where
  "verifyAndPin res nowText peer s st =
     (let authenticatedB64 = encodeBase64 (peerStatic s)
      in case PinOrVerify res nowText (pc_id peer) authenticatedB64 st of
           (Some e, st1) \<Rightarrow> (Inl (Wrapped (pinError e) (pc_id peer)), st1)
         | (None, st1) \<Rightarrow>
             (if announcedStaticKey peer \<noteq> '''' \<and> announcedStaticKey peer \<noteq> authenticatedB64
              then (Inl (Wrapped (Sentinel ErrKeyMismatch) (pc_id peer)), st1)
              else case publicKeyFromBase64 authenticatedB64 of
                Inl e \<Rightarrow> (Inl (Wrapped (Sentinel (ErrOther ''key'')) ''relayly: invalid authenticated peer key''), st1)
              | Inr pub \<Rightarrow> (Inr pub, st1)))"

text \<open>\<open>k\<close> is the address of the completed session, \<open>i\<close> the map key of the peer.\<close>

definition resolveHandshake ::
  "save_result \<Rightarrow> string \<Rightarrow> device_id \<Rightarrow> peerConn \<Rightarrow> sid \<Rightarrow> ('h, 'c) noiseSession \<Rightarrow> bool \<Rightarrow> sdk_error option \<Rightarrow>
    ('h, 'c) Client \<Rightarrow> ('h, 'c) Client" where
  "resolveHandshake res nowText i peer k s wasPending hsErr c =
     (let r0 = emptyResult\<lparr>res_PeerID := pc_id peer\<rparr>;
          (result, c1) =
            (case hsErr of
               Some e \<Rightarrow> (r0\<lparr>res_Error := Some (Wrapped e ''relayly: handshake failed'')\<rparr>, c)
             | None \<Rightarrow>
                 (case verifyAndPin res nowText peer s (peerStore c) of
                    (Inl e, st) \<Rightarrow>
                      (r0\<lparr>res_Error := Some e\<rparr>,
                       c\<lparr>peerStore := st,
                         c_sessions := (c_sessions c)(k \<mapsto> s\<lparr>session_status := statusFailed, session_err := Some e\<rparr>)\<rparr>)
                  | (Inr pub, st) \<Rightarrow> (r0\<lparr>res_PeerPublicKey := pub\<rparr>, c\<lparr>peerStore := st\<rparr>)))
      in if wasPending \<and> res_Error result \<noteq> None then setPeerConn i (abandon k peer) c1
         else let p1 = (if wasPending then promote k peer else peer);
                  (waiter, p2) = takeFirstPairWaiter p1;
                  c2 = setPeerConn i p2 c1;
                  c3 = (case waiter of None \<Rightarrow> c2 | Some ch \<Rightarrow> notify ch result c2)
           in if res_Error result = None then c3\<lparr>calls := calls c3 @ [OnReady (pc_id peer)]\<rparr> else c3)"

definition handleHandshakeEnvelope ::
  "('h, 'c) noiseLib \<Rightarrow> save_result \<Rightarrow> string \<Rightarrow> bytes \<Rightarrow> time \<Rightarrow> sid \<Rightarrow> device_id \<Rightarrow> bytes \<Rightarrow> ('h, 'c) Client \<Rightarrow> ('h, 'c) Client" where
  "handleHandshakeEnvelope lib res nowText rnd now n pick payload c =
     (case getSolePeer pick c of
        None \<Rightarrow> c
      | Some (i, peer) \<Rightarrow>
          (case peerHandleHandshake lib rnd now n (opt_PrivateKey (opts c)) payload (peer, c_sessions c) of
             ((reply, completed, wasPending, err), p, H) \<Rightarrow>
               (let c1 = (setPeerConn i p c)\<lparr>c_sessions := H\<rparr>;
                    c2 = (case reply of None \<Rightarrow> c1 | Some m \<Rightarrow> enqueueBinary envelopeHandshake m c1)
                in case completed of
                     None \<Rightarrow> c2
                   | Some k \<Rightarrow>
                       (case H k of None \<Rightarrow> c2 | Some s \<Rightarrow> resolveHandshake res nowText i p k s wasPending err c2))))"

definition deliver :: "Message \<Rightarrow> ('h, 'c) Client \<Rightarrow> bool \<times> ('h, 'c) Client" where
  "deliver m c =
     (if length (messages c) < messagesCapacity then (True, c\<lparr>messages := messages c @ [m]\<rparr>) else (False, c))"

definition handleTransportEnvelope ::
  "('h, 'c) noiseLib \<Rightarrow> time \<Rightarrow> device_id \<Rightarrow> bytes \<Rightarrow> ('h, 'c) Client \<Rightarrow> ('h, 'c) Client" where
  "handleTransportEnvelope lib now pick ciphertext c =
     (case getSolePeer pick c of
        None \<Rightarrow> c
      | Some (i, peer) \<Rightarrow>
          (case peerRecv lib ciphertext (peer, c_sessions c) of
             (Inl _, H) \<Rightarrow> c\<lparr>c_sessions := H\<rparr>
           | (Inr plaintext, H) \<Rightarrow>
               snd (deliver \<lparr>From = pc_id peer, Payload = plaintext, Timestamp = now\<rparr> (c\<lparr>c_sessions := H\<rparr>))))"

text \<open>The binary branch of \<^verbatim>\<open>readLoop\<close>.\<close>

definition readBinary ::
  "('h, 'c) noiseLib \<Rightarrow> save_result \<Rightarrow> string \<Rightarrow> bytes \<Rightarrow> time \<Rightarrow> sid \<Rightarrow> device_id \<Rightarrow> bytes \<Rightarrow> ('h, 'c) Client \<Rightarrow> ('h, 'c) Client" where
  "readBinary lib res nowText rnd now n pick frame c =
     (let (kind, payload, ok) = decodeEnvelope frame
      in if \<not> ok then c
         else if kind = envelopeHandshake then handleHandshakeEnvelope lib res nowText rnd now n pick payload c
         else if kind = envelopeTransport then handleTransportEnvelope lib now pick payload c
         else c)"

section \<open>Sending and connecting\<close>

text \<open>
  Which case of a select on the outgoing channel, the context and \<^verbatim>\<open>done\<close> was taken. The
  message is encrypted before the select.
\<close>

datatype selected = SendCase | CtxCase | DoneCase

definition Send ::
  "('h, 'c) noiseLib \<Rightarrow> selected \<Rightarrow> device_id \<Rightarrow> bytes \<Rightarrow> ('h, 'c) Client \<Rightarrow> sdk_error option \<times> ('h, 'c) Client" where
  "Send lib sel peerID payload c =
     (case getPeerConn peerID c of
        None \<Rightarrow> (Some (Sentinel (ErrOther ''no paired peer'')), c)
      | Some peer \<Rightarrow>
          (case peerSend lib payload (peer, c_sessions c) of
             (Inl e, H) \<Rightarrow> (Some e, c\<lparr>c_sessions := H\<rparr>)
           | (Inr ct, H) \<Rightarrow>
               (let c1 = c\<lparr>c_sessions := H\<rparr>
                in case sel of
                     SendCase \<Rightarrow> (None, c1\<lparr>sends := sends c1 @ [BinaryFrame (encodeEnvelope envelopeTransport ct)]\<rparr>)
                   | CtxCase \<Rightarrow> (Some (Sentinel (ErrOther ''context'')), c1)
                   | DoneCase \<Rightarrow> (Some (Sentinel (ErrOther ''client is closed'')), c1))))"

fun applyWelcomePeers :: "wirePeer list \<Rightarrow> ('h, 'c) Client \<Rightarrow> ('h, 'c) Client" where
  "applyWelcomePeers [] c = c"
| "applyWelcomePeers (p # ps) c =
     applyWelcomePeers ps
       (if getPeerConn (wp_ID p) c = None then setPeerConn (wp_ID p) (newPeerConn (wp_ID p) (wp_StaticKey p)) c else c)"

text \<open>
  \<^verbatim>\<open>dial\<close>: \<open>first\<close> is the first frame read (\<open>None\<close>: dialing or reading failed; \<open>Inl\<close>: not a
  text frame that parses), \<open>announced\<close> whether writing the announcement succeeded. The result
  is the announcement that was written.
\<close>

datatype dial_error = NoWelcome | InvalidWelcome | AuthFailed string string | UnexpectedType string | BadVersion int | AnnounceFailed

definition dial ::
  "(bytes \<Rightarrow> bytes) \<Rightarrow> (unit + sdkMessage) option \<Rightarrow> bool \<Rightarrow> ('h, 'c) Client \<Rightarrow> (dial_error + sdkMessage) \<times> ('h, 'c) Client" where
  "dial scalarBaseMult first announced c =
     (case first of
        None \<Rightarrow> (Inl NoWelcome, c)
      | Some (Inl _) \<Rightarrow> (Inl InvalidWelcome, c)
      | Some (Inr welcome) \<Rightarrow>
          (if m_Type welcome = ''error'' then (Inl (AuthFailed (m_Message welcome) (m_Code welcome)), c)
           else if m_Type welcome \<noteq> ''welcome'' then (Inl (UnexpectedType (m_Type welcome)), c)
           else if m_ProtocolVersion welcome \<noteq> protocolVersion then (Inl (BadVersion (m_ProtocolVersion welcome)), c)
           else let c1 = applyWelcomePeers (m_Peers welcome) c;
                    announce = (emptyMessage ''announce_key'')\<lparr>m_StaticKey :=
                      encodeBase64 (PublicKeyOf scalarBaseMult (opt_PrivateKey (opts c)))\<rparr>
             in if \<not> announced then (Inl AnnounceFailed, c1) else (Inr announce, c1)))"

text \<open>\<^verbatim>\<open>delay *= 2\<close> on a 64-bit integer, then the cap.\<close>

definition wrap64 :: "int \<Rightarrow> int" where
  "wrap64 x = (x + 2 ^ 63) mod 2 ^ 64 - 2 ^ 63"

definition nextDelay :: "duration \<Rightarrow> duration \<Rightarrow> duration" where
  "nextDelay maxDelay d = (let d' = wrap64 (d * 2) in if d' > maxDelay then maxDelay else d')"

text \<open>
  The loop of \<^verbatim>\<open>reconnectWithBackoff\<close> against a script of what each round meets: shutdown
  during the wait, or a dial that succeeds or fails. The result lists the delays waited for;
  \<open>None\<close>: the script ended first.
\<close>

datatype round = Shutdown | Dialled bool

fun backoffLoop :: "duration \<Rightarrow> duration \<Rightarrow> round list \<Rightarrow> duration list \<times> bool option" where
  "backoffLoop delay maxDelay [] = ([], None)"
| "backoffLoop delay maxDelay (Shutdown # rs) = ([], Some False)"
| "backoffLoop delay maxDelay (Dialled ok # rs) =
     (if ok then ([delay], Some True)
      else (let (ds, r) = backoffLoop (nextDelay maxDelay delay) maxDelay rs in (delay # ds, r)))"

definition reconnectWithBackoff :: "Options \<Rightarrow> round list \<Rightarrow> duration list \<times> bool option" where
  "reconnectWithBackoff o' rs =
     (let delay = opt_ReconnectDelay o'; maxDelay = opt_MaxReconnectDelay o'
      in if delay < 0 then ([], Some False)
         else backoffLoop (if delay = 0 then DefaultReconnectDelay else delay)
                (if maxDelay = 0 then DefaultMaxReconnectDelay else maxDelay) rs)"

text \<open>
  One round of \<^verbatim>\<open>writeLoop\<close>: the frame it takes from the outgoing channel (an error of the
  socket write is ignored). One tick of \<^verbatim>\<open>pingLoop\<close>, whose send does not watch \<^verbatim>\<open>done\<close>.
\<close>

definition writeLoop :: "('h, 'c) Client \<Rightarrow> (outFrame \<times> ('h, 'c) Client) option" where
  "writeLoop c = (case sends c of [] \<Rightarrow> None | f # fs \<Rightarrow> Some (f, c\<lparr>sends := fs\<rparr>))"

definition pingLoop :: "('h, 'c) Client \<Rightarrow> ('h, 'c) Client" where
  "pingLoop c = c\<lparr>sends := sends c @ [TextFrame (emptyMessage ''ping'')]\<rparr>"

text \<open>
  \<^verbatim>\<open>Connect\<close> before it dials, and with its first dial. \<open>scheme\<close> is the scheme of the
  parsed address, \<open>None\<close> when \<^verbatim>\<open>url.Parse\<close> fails.
\<close>

definition newClient :: "Options \<Rightarrow> PeerStore \<times> disk \<Rightarrow> ('h, 'c) Client" where
  "newClient o' st = \<lparr>opts = o', c_closed = False, peerStore = st, c_sessions = Map.empty, peers = Map.empty,
     messages = [], sends = [], pairWaiters = [], chans = (\<lambda>_. []), calls = []\<rparr>"

datatype connect_error = InvalidOptions string | InvalidURL | PeerStoreFailed load_error | DialFailed dial_error

definition wsScheme :: "string \<Rightarrow> string" where
  "wsScheme scheme = (if scheme = ''http'' then ''ws'' else if scheme = ''https'' then ''wss'' else scheme)"

definition SdkConnect ::
  "(bytes \<Rightarrow> bytes) \<Rightarrow> string option \<Rightarrow> bool \<Rightarrow> string option \<Rightarrow> (unit + sdkMessage) option \<Rightarrow> bool \<Rightarrow> Options \<Rightarrow> disk \<Rightarrow>
    connect_error + string \<times> ('h, 'c) Client" where
  "SdkConnect sbm home readOk scheme first announced o' fs =
     (case validateOptions o' of
        Some e \<Rightarrow> Inl (InvalidOptions e)
      | None \<Rightarrow>
          (case scheme of
             None \<Rightarrow> Inl InvalidURL
           | Some sch \<Rightarrow>
               (case LoadPeerStore home readOk (peerStorePath o') fs of
                  Inl e \<Rightarrow> Inl (PeerStoreFailed e)
                | Inr ps \<Rightarrow>
                    (case dial sbm first announced (newClient o' (ps, fs)) of
                       (Inl e, c) \<Rightarrow> Inl (DialFailed e)
                     | (Inr announce, c) \<Rightarrow> Inr (wsScheme sch, c)))))"

section \<open>The message channel\<close>

interpretation msgq: bounded_queue deliver messages messagesCapacity
  by unfold_locales (auto simp: deliver_def split: if_splits)

section \<open>The pin invariant\<close>

definition sids :: "peerConn \<Rightarrow> sid set" where
  "sids p = set_option (active p) \<union> set_option (pending p)"

definition pinned :: "('h, 'c) Client \<Rightarrow> device_id \<Rightarrow> string option" where
  "pinned c i = Get i (fst (peerStore c))"

text \<open>
  A session that is used for traffic, when ready, authenticated the key pinned for its peer;
  a replacement in flight is still handshaking.
\<close>

definition active_ok :: "('h, 'c) sessions \<Rightarrow> string option \<Rightarrow> peerConn \<Rightarrow> bool" where
  "active_ok H pin p \<longleftrightarrow> (\<forall>k. active p = Some k \<longrightarrow> pending p \<noteq> Some k \<and>
     (\<exists>s. H k = Some s \<and> (ready s \<longrightarrow> pin = Some (encodeBase64 (peerStatic s)))))"

definition pending_ok :: "('h, 'c) sessions \<Rightarrow> peerConn \<Rightarrow> bool" where
  "pending_ok H p \<longleftrightarrow> (\<forall>k. pending p = Some k \<longrightarrow> (\<exists>s. H k = Some s \<and> session_status s = statusHandshaking))"

definition peer_ok :: "('h, 'c) sessions \<Rightarrow> string option \<Rightarrow> device_id \<Rightarrow> peerConn \<Rightarrow> bool" where
  "peer_ok H pin i p \<longleftrightarrow> pc_id p = i \<and> active_ok H pin p \<and> pending_ok H p"

definition sdk_inv :: "('h, 'c) Client \<Rightarrow> bool" where
  "sdk_inv c \<longleftrightarrow>
     (\<forall>i p. peers c i = Some p \<longrightarrow> peer_ok (c_sessions c) (pinned c i) i p) \<and>
     (\<forall>i j p q. peers c i = Some p \<longrightarrow> peers c j = Some q \<longrightarrow> i \<noteq> j \<longrightarrow> sids p \<inter> sids q = {})"

lemma peer_ok_sids: "peer_ok H pin i p \<Longrightarrow> k \<in> sids p \<Longrightarrow> H k \<noteq> None"
  by (auto simp: peer_ok_def active_ok_def pending_ok_def sids_def)

lemma peer_ok_frame:
  assumes "peer_ok H pin i p" and "\<And>k. k \<in> sids p \<Longrightarrow> H' k = H k" and "\<And>v. pin = Some v \<Longrightarrow> pin' = Some v"
  shows "peer_ok H' pin' i p"
  using assms by (fastforce simp: peer_ok_def active_ok_def pending_ok_def sids_def)

lemma sdk_inv_put:
  assumes inv: "sdk_inv c" and "peers c' = (peers c)(i \<mapsto> p')" and new: "peer_ok (c_sessions c') (pinned c' i) i p'"
    and "c_sessions c n = None" and sub: "sids p' \<subseteq> (case peers c i of None \<Rightarrow> {} | Some p \<Rightarrow> sids p) \<union> {n}"
    and frame: "\<And>k. k \<notin> (case peers c i of None \<Rightarrow> {} | Some p \<Rightarrow> sids p) \<union> {n} \<Longrightarrow> c_sessions c' k = c_sessions c k"
    and pins: "\<And>j v. pinned c j = Some v \<Longrightarrow> pinned c' j = Some v"
  shows "sdk_inv c'"
proof -
  let ?own = "(case peers c i of None \<Rightarrow> {} | Some p \<Rightarrow> sids p) \<union> {n}"
  have other: "sids q \<inter> ?own = {}" if "peers c j = Some q" "j \<noteq> i" for j q
  proof -
    have "n \<notin> sids q"
      using inv that(1) assms(4) peer_ok_sids [of "c_sessions c" "pinned c j" j q n] by (auto simp: sdk_inv_def)
    moreover have "sids q \<inter> sids p = {}" if "peers c i = Some p" for p
      using inv that \<open>peers c j = Some q\<close> \<open>j \<noteq> i\<close> unfolding sdk_inv_def by blast
    ultimately show ?thesis by (auto split: option.split)
  qed
  have ok: "peer_ok (c_sessions c') (pinned c' j) j q" if "peers c j = Some q" "j \<noteq> i" for j q
  proof (rule peer_ok_frame)
    show "peer_ok (c_sessions c) (pinned c j) j q" using inv that(1) by (simp add: sdk_inv_def)
    show "c_sessions c' k = c_sessions c k" if "k \<in> sids q" for k
      using frame [of k] other [OF \<open>peers c j = Some q\<close> \<open>j \<noteq> i\<close>] that by blast
  qed (rule pins)
  show ?thesis
    unfolding sdk_inv_def
  proof (intro conjI allI impI)
    fix j q assume "peers c' j = Some q"
    then show "peer_ok (c_sessions c') (pinned c' j) j q"
      using ok new assms(2) by (auto split: if_splits)
  next
    fix j k p q assume "peers c' j = Some p" "peers c' k = Some q" "j \<noteq> k"
    then show "sids p \<inter> sids q = {}"
      using other sub inv assms(2) unfolding sdk_inv_def by (auto split: if_splits)
  qed
qed

lemma sdk_inv_cong:
  assumes "sdk_inv c" and "peers c' = peers c" and "c_sessions c' = c_sessions c" and "peerStore c' = peerStore c"
  shows "sdk_inv c'"
  using assms by (simp add: sdk_inv_def pinned_def)

text \<open>The state between the end of a handshake and its resolution: session \<open>k\<close> is exempt.\<close>

definition peer_mid :: "('h, 'c) sessions \<Rightarrow> string option \<Rightarrow> device_id \<Rightarrow> peerConn \<Rightarrow> sid \<Rightarrow> bool \<Rightarrow> bool" where
  "peer_mid H pin i p k wasPending \<longleftrightarrow> pc_id p = i \<and>
     (if wasPending then pending p = Some k \<and> active_ok H pin p else active p = Some k \<and> pending p = None)"

lemma chooseSession_mid:
  assumes "peer_ok H pin i p" and "H n = None"
    and "chooseSession lib rnd now n priv (p, H) = (Inr (Some (k, w)), p', H')"
  shows "\<exists>s. H' k = Some s \<and> \<not> ready s \<and> (w \<longrightarrow> session_status s = statusHandshaking) \<and> peer_mid H' pin i p' k w"
    and "sids p' \<subseteq> sids p \<union> {n}" and "k \<in> sids p'" and "\<And>j. j \<noteq> n \<Longrightarrow> H' j = H j"
  using assms
  by (auto simp: chooseSession_def peer_ok_def active_ok_def pending_ok_def peer_mid_def sids_def readyAt_def ready_def
      newResponderSession_def Let_def split: option.splits if_splits sum.splits)

lemma chooseSession_quiet:
  assumes "peer_ok H pin i p" and "chooseSession lib rnd now n priv (p, H) = (r, p', H')" and "\<And>x. r \<noteq> Inr (Some x)"
  shows "peer_ok H' pin i p'" and "sids p' = sids p" and "H' = H"
  using assms
  by (auto simp: chooseSession_def peer_ok_def active_ok_def pending_ok_def sids_def Let_def
      split: option.splits if_splits sum.splits)

lemma handle_outcome:
  assumes "handleHandshakeMessage lib msg s = ((reply, done, err), s')" and "\<not> ready s"
  shows "done \<Longrightarrow> err = None \<longleftrightarrow> ready s'" and "\<not> done \<Longrightarrow> session_status s' = statusHandshaking"
  using assms
  by (auto simp: handleHandshakeMessage_def ready_def finishLocked_def failLocked_def Let_def
      split: if_splits option.splits prod.splits)

lemma peer_mid_ok:
  assumes "peer_mid H pin i p k w" and "session_status s = statusHandshaking"
  shows "peer_ok (H(k \<mapsto> s)) pin i p"
  using assms by (auto simp: peer_mid_def peer_ok_def active_ok_def pending_ok_def ready_def split: if_splits)

lemma peer_mid_upd: "peer_mid H pin i p k w \<Longrightarrow> peer_mid (H(k \<mapsto> s)) pin i p k w"
  by (auto simp: peer_mid_def active_ok_def split: if_splits)

text \<open>What a handshake envelope makes of a peer.\<close>

lemma peerHandleHandshake_outcome:
  assumes ok: "peer_ok H pin i p" and "H n = None"
    and run: "peerHandleHandshake lib rnd now n priv msg (p, H) = ((reply, completed, w, err), p', H')"
  shows "sids p' \<subseteq> sids p \<union> {n} \<and> (\<forall>j. j \<notin> sids p \<union> {n} \<longrightarrow> H' j = H j) \<and>
    (completed = None \<longrightarrow> peer_ok H' pin i p') \<and>
    (\<forall>k. completed = Some k \<longrightarrow> k \<in> sids p' \<and> peer_mid H' pin i p' k w \<and> (\<exists>s. H' k = Some s \<and> (err = None \<longleftrightarrow> ready s)))"
proof -
  obtain r p1 H1 where ch: "chooseSession lib rnd now n priv (p, H) = (r, p1, H1)"
    by (metis prod_cases3)
  show ?thesis
  proof (cases "\<exists>x. r = Inr (Some x)")
    case False
    then have "completed = None" "p' = p1" "H' = H1"
      using run ch by (cases r; auto simp: peerHandleHandshake_def split: option.splits)+
    moreover have "peer_ok H1 pin i p1" "sids p1 = sids p" "H1 = H"
      using chooseSession_quiet [OF ok ch] False by blast+
    ultimately show ?thesis by (simp add: subset_insertI)
  next
    case True
    then obtain k v where r: "r = Inr (Some (k, v))" by force
    note mid = chooseSession_mid [OF ok assms(2) ch [unfolded r]]
    obtain s where s: "H1 k = Some s" "\<not> ready s" and pm: "peer_mid H1 pin i p1 k v"
      using mid(1) by blast
    obtain rep fin er s' where h0: "handleHandshakeMessage lib msg s = ((rep, fin, er), s')"
      by (metis surj_pair)
    then have res: "completed = (if fin then Some k else None)" "w = v" "p' = p1" "H' = H1(k \<mapsto> s')"
      and h: "handleHandshakeMessage lib msg s = ((reply, fin, err), s')"
      using run ch r s(1) by (simp_all add: peerHandleHandshake_def)
    have quiet: "peer_ok (H1(k \<mapsto> s')) pin i p1" if "\<not> fin"
      using peer_mid_ok [OF pm handle_outcome(2) [OF h s(2) that]] .
    have frame: "(H1(k \<mapsto> s')) j = H j" if "j \<notin> sids p \<union> {n}" for j
    proof -
      have "j \<noteq> k" "j \<noteq> n" using that mid(2,3) by blast+
      then show ?thesis using mid(4) [of j] by simp
    qed
    show ?thesis
    proof (cases fin)
      case True
      then have comp: "completed = Some k" using res(1) by simp
      have "k \<in> sids p1 \<and> peer_mid (H1(k \<mapsto> s')) pin i p1 k v \<and>
          (\<exists>s. (H1(k \<mapsto> s')) k = Some s \<and> (err = None \<longleftrightarrow> ready s))"
        using mid(3) peer_mid_upd [OF pm] handle_outcome(1) [OF h s(2) True] by simp
      then show ?thesis
        unfolding comp res(2-4) option.inject using mid(2) frame by blast
    next
      case False
      then have comp: "completed = None" using res(1) by simp
      show ?thesis
        unfolding comp res(2-4) using mid(2) frame quiet [OF False] by blast
    qed
  qed
qed

lemma verifyAndPin_pins:
  assumes "verifyAndPin res t p s st = (r, st')"
  shows "\<And>j v. Get j (fst st) = Some v \<Longrightarrow> Get j (fst st') = Some v"
    and "\<And>pub. r = Inr pub \<Longrightarrow> Get (pc_id p) (fst st') = Some (encodeBase64 (peerStatic s))"
proof -
  obtain e st1 where pv: "PinOrVerify res t (pc_id p) (encodeBase64 (peerStatic s)) st = (e, st1)"
    by (meson surj_pair)
  have st': "st' = st1" and ok: "r = Inr pub \<Longrightarrow> e = None" for pub
    using assms pv by (auto simp: verifyAndPin_def Let_def split: option.splits if_splits sum.splits)
  show "Get j (fst st') = Some v" if "Get j (fst st) = Some v" for j v
    using pin_lock.lock_keeps [where res = res and now = t and k' = "pc_id p" and
        v' = "encodeBase64 (peerStatic s)", OF that] pv st' by simp
  show "Get (pc_id p) (fst st') = Some (encodeBase64 (peerStatic s))" if "r = Inr pub" for pub
    using pin_lock.lock_accept [where res = res and now = t and k = "pc_id p" and s = st and
        v = "encodeBase64 (peerStatic s)"] pv st' ok [OF that] by simp
qed

text \<open>How the fields of the invariant look after a handshake was resolved.\<close>

lemma notify_fields [simp]:
  "peers (notify ch r c) = peers c" "c_sessions (notify ch r c) = c_sessions c" "peerStore (notify ch r c) = peerStore c"
  by (simp_all add: notify_def)

lemma resolve_fields:
  assumes "verifyAndPin res t p s (peerStore c) = (vr, st)"
  shows "peers (resolveHandshake res t i p k s w e c) = (peers c)(i \<mapsto> if w \<and> (e \<noteq> None \<or> isl vr) then abandon k p
      else (if w then promote k p else p)\<lparr>firstPairWaiter := None\<rparr>)" (is ?peers)
    and "c_sessions (resolveHandshake res t i p k s w e c) = (if e = None \<and> isl vr
      then (c_sessions c)(k \<mapsto> s\<lparr>session_status := statusFailed, session_err := Some (projl vr)\<rparr>) else c_sessions c)"
      (is ?sessions)
    and "peerStore (resolveHandshake res t i p k s w e c) = (if e = None then st else peerStore c)" (is ?store)
proof -
  note defs = resolveHandshake_def Let_def takeFirstPairWaiter_def setPeerConn_def emptyResult_def assms
  have "?peers \<and> ?sessions \<and> ?store"
  proof (cases e)
    case None
    then show ?thesis
      by (cases vr; cases w) (simp_all add: defs split: option.split)
  next
    case (Some x)
    then show ?thesis
      by (cases w) (simp_all add: defs split: option.split)
  qed
  then show ?peers ?sessions ?store by blast+
qed

lemma peer_mid_abandon:
  assumes "peer_mid H pin i p k True" and "\<And>j. j \<noteq> k \<Longrightarrow> H' j = H j" and "\<And>v. pin = Some v \<Longrightarrow> pin' = Some v"
  shows "peer_ok H' pin' i (abandon k p)"
  using assms unfolding peer_mid_def peer_ok_def active_ok_def pending_ok_def abandon_def by (auto 4 4)

lemma peer_mid_settle:
  assumes "peer_mid H pin i p k w" and "H k = Some s" and "ready s \<Longrightarrow> pin = Some (encodeBase64 (peerStatic s))"
  shows "peer_ok H pin i ((if w then promote k p else p)\<lparr>firstPairWaiter := None\<rparr>)"
  using assms by (auto simp: peer_mid_def peer_ok_def active_ok_def pending_ok_def promote_def split: if_splits)

lemma sids_settle:
  "sids (abandon k p) \<subseteq> sids p" "sids ((if w then promote k p else p)\<lparr>firstPairWaiter := None\<rparr>) \<subseteq> sids p"
  by (auto simp: sids_def abandon_def promote_def)

lemma peer_mid_frame:
  assumes "peer_mid H pin i p k w" and "\<And>j. j \<noteq> k \<Longrightarrow> H' j = H j" and "\<And>v. pin = Some v \<Longrightarrow> pin' = Some v"
  shows "peer_mid H' pin' i p k w"
  using assms unfolding peer_mid_def active_ok_def by (auto 4 4 split: if_splits)

lemma resolveHandshake_outcome:
  assumes mid: "peer_mid (c_sessions c) (pinned c i) i p k w" and s: "c_sessions c k = Some s"
    and err: "e = None \<longleftrightarrow> ready s" and c': "c' = resolveHandshake res t i p k s w e c"
  shows "\<exists>p'. peers c' = (peers c)(i \<mapsto> p') \<and> peer_ok (c_sessions c') (pinned c' i) i p' \<and> sids p' \<subseteq> sids p"
    and "\<And>j. j \<noteq> k \<Longrightarrow> c_sessions c' j = c_sessions c j"
    and "\<And>j v. pinned c j = Some v \<Longrightarrow> pinned c' j = Some v"
proof -
  have id: "pc_id p = i" using mid by (simp add: peer_mid_def)
  obtain vr st where vp: "verifyAndPin res t p s (peerStore c) = (vr, st)" by (meson surj_pair)
  note f = resolve_fields [OF vp, of i k w e, folded c']
  show frame: "c_sessions c' j = c_sessions c j" if "j \<noteq> k" for j
    using that by (simp add: f)
  show pins: "pinned c' j = Some v" if "pinned c j = Some v" for j v
    using that verifyAndPin_pins(1) [OF vp] by (simp add: pinned_def f)
  let ?bad = "w \<and> (e \<noteq> None \<or> isl vr)"
  have mid': "peer_mid (c_sessions c') (pinned c' i) i p k w"
    using peer_mid_frame [OF mid] frame pins by blast
  have "peer_ok (c_sessions c') (pinned c' i) i (abandon k p)" if ?bad
    using peer_mid_abandon [of "c_sessions c" "pinned c i" i p k] mid that frame pins by simp
  moreover have "peer_ok (c_sessions c') (pinned c' i) i ((if w then promote k p else p)\<lparr>firstPairWaiter := None\<rparr>)"
  proof (cases "e = None \<and> isl vr")
    case True
    then show ?thesis
      by (intro peer_mid_settle [OF mid', of "s\<lparr>session_status := statusFailed, session_err := Some (projl vr)\<rparr>"])
        (simp_all add: f ready_def)
  next
    case False
    have "pinned c' i = Some (encodeBase64 (peerStatic s))" if rdy: "ready s"
    proof -
      obtain pub where "vr = Inr pub" using False err rdy by (cases vr) auto
      then show ?thesis using verifyAndPin_pins(2) [OF vp] err rdy id by (simp add: pinned_def f)
    qed
    moreover have "c_sessions c' k = Some s" using False s by (auto simp: f)
    ultimately show ?thesis by (intro peer_mid_settle [OF mid']) auto
  qed
  ultimately show "\<exists>p'. peers c' = (peers c)(i \<mapsto> p') \<and> peer_ok (c_sessions c') (pinned c' i) i p' \<and> sids p' \<subseteq> sids p"
    using f(1) sids_settle(1) [of k p] sids_settle(2) [where k = k and p = p and w = w] by (cases ?bad) auto
qed

section \<open>Every operation keeps the invariant\<close>

text \<open>Operations that touch neither peers, sessions nor pins.\<close>

definition same_core :: "('h, 'c) Client \<Rightarrow> ('h, 'c) Client \<Rightarrow> bool" where
  "same_core c c' \<longleftrightarrow> peers c' = peers c \<and> c_sessions c' = c_sessions c \<and> peerStore c' = peerStore c \<and> opts c' = opts c"

lemma same_core_simps [simp]:
  "same_core c c" "same_core c (notify ch r c') = same_core c c'" "same_core c (pushSend f c') = same_core c c'"
  "same_core c (enqueueBinary k m c') = same_core c c'" "same_core c (putPairWaiter key wt c') = same_core c c'"
  "same_core c (removePairWaiter key c') = same_core c c'" "same_core c (snd (takePairWaiter key c')) = same_core c c'"
  "same_core c (snd (deliver msg c')) = same_core c c'" "same_core c (Close c') = same_core c c'"
  by (auto simp: same_core_def notify_def pushSend_def enqueueBinary_def putPairWaiter_def removePairWaiter_def
      takePairWaiter_def deliver_def Close_def)

lemma same_core_inv: "same_core c c' \<Longrightarrow> sdk_inv c \<Longrightarrow> sdk_inv c'"
  by (rule sdk_inv_cong [of c]) (simp_all add: same_core_def)

lemma same_core_handleError: "same_core c (handleError frame c)"
proof -
  have "same_core c (fold (\<lambda>(code, w). notify (wt_ch w) r) ws c')" if "same_core c c'" for ws c' and r :: PairResult
    using that by (induction ws arbitrary: c') auto
  from this [OF same_core_simps(1)] show ?thesis
    by (simp add: handleError_def same_core_def Let_def)
qed

lemma same_core_handlePairCode: "same_core c (handlePairCode frame c)"
  by (auto simp: handlePairCode_def takePairWaiter_def same_core_def notify_def split: option.split)

lemma same_core_requests:
  "same_core c (RequestPairCode ch c)" "same_core c (AcceptPair ch code c)"
  "same_core c (snd (RequestPairCode_result ch ch' c))" "same_core c (snd (waitPair ch c))"
  by (auto simp: RequestPairCode_def AcceptPair_def RequestPairCode_result_def waitPair_def Let_def same_core_def
      putPairWaiter_def removePairWaiter_def pushSend_def split: list.split option.split)

lemma peer_ok_new: "peer_ok H pin i (newPeerConn i key)"
  by (simp add: peer_ok_def newPeerConn_def active_ok_def pending_ok_def)

lemma sids_new [simp]: "sids (newPeerConn i key) = {}"
  by (simp add: sids_def newPeerConn_def)

text \<open>Starting a handshake as initiator puts a handshaking session at the new address.\<close>

lemma newInitiatorSession_handshaking: "newInitiatorSession lib rnd priv = Inr (s, m) \<Longrightarrow> session_status s = statusHandshaking"
  by (auto simp: newInitiatorSession_def split: option.splits)

lemma sdk_inv_handlePairComplete:
  assumes inv: "sdk_inv c" and fresh: "c_sessions c n = None"
  shows "sdk_inv (handlePairComplete lib rnd n frame c)" (is "sdk_inv ?c'")
proof (cases "map_of (pairWaiters c) (m_Code frame)")
  case None
  then show ?thesis
    using same_core_inv [OF _ inv] by (simp add: handlePairComplete_def takePairWaiter_def same_core_def)
next
  case (Some w)
  let ?i = "m_PeerID frame"
  let ?new = "newPeerConn ?i (m_PeerStaticKey frame)"
  note defs = handlePairComplete_def takePairWaiter_def Some Let_def setPeerConn_def startAsInitiator_def
    setFirstPairWaiter_def takeFirstPairWaiter_def enqueueBinary_def pushSend_def notify_def pinned_def
  note inv_defs = peer_ok_def active_ok_def pending_ok_def newPeerConn_def sids_def ready_def
  show ?thesis
  proof (cases "weAreAcceptor w")
    case False
    show ?thesis
      by (rule sdk_inv_put [OF inv _ _ fresh, where i = ?i and p' = "?new\<lparr>firstPairWaiter := Some (wt_ch w)\<rparr>"])
        (use False in \<open>simp_all add: defs inv_defs\<close>)
  next
    case acc: True
    show ?thesis
    proof (cases "newInitiatorSession lib rnd (opt_PrivateKey (opts c))")
      case (Inl e)
      show ?thesis
        by (rule sdk_inv_put [OF inv _ _ fresh, where i = ?i and p' = ?new])
          (use acc Inl in \<open>simp_all add: defs inv_defs\<close>)
    next
      case (Inr sm)
      then obtain s m where s: "newInitiatorSession lib rnd (opt_PrivateKey (opts c)) = Inr (s, m)"
        by (cases sm) auto
      show ?thesis
        by (rule sdk_inv_put [OF inv _ _ fresh, where i = ?i and
              p' = "?new\<lparr>firstPairWaiter := Some (wt_ch w), active := Some n\<rparr>"])
          (use acc s newInitiatorSession_handshaking [OF s] in \<open>simp_all add: defs inv_defs\<close>)
    qed
  qed
qed

lemma sdk_inv_peer: "sdk_inv c \<Longrightarrow> peers c i = Some p \<Longrightarrow> peer_ok (c_sessions c) (pinned c i) i p"
  by (simp add: sdk_inv_def)

lemma peer_ok_rekey:
  assumes "peer_ok H pin i p" and "H n = None" and "session_status s = statusHandshaking"
  shows "peer_ok (H(n \<mapsto> s)) pin i (p\<lparr>pending := Some n\<rparr>)"
  using assms by (auto simp: peer_ok_def active_ok_def pending_ok_def)

lemma sdk_inv_handlePeerStatus:
  assumes inv: "sdk_inv c" and fresh: "c_sessions c n = None"
  shows "sdk_inv (handlePeerStatus lib rnd n frame c)" (is "sdk_inv ?c'")
proof -
  let ?i = "m_PeerID frame"
  note defs = handlePeerStatus_def Let_def getPeerConn_def setPeerConn_def startRekeyAsInitiator_def enqueueBinary_def
    pushSend_def
  show ?thesis
  proof (cases "\<exists>p s m. m_Online frame = Some True \<and> peers c ?i = Some p \<and> opt_DeviceID (opts c) < ?i \<and>
      newInitiatorSession lib rnd (opt_PrivateKey (opts c)) = Inr (s, m)")
    case False
    then have "same_core c ?c'"
      by (auto simp: defs same_core_def not_less split: option.split sum.split)
    with inv show ?thesis by (rule same_core_inv [rotated])
  next
    case True
    then obtain p s m where on: "m_Online frame = Some True" and p: "peers c ?i = Some p"
      and lt: "opt_DeviceID (opts c) < ?i" and s: "newInitiatorSession lib rnd (opt_PrivateKey (opts c)) = Inr (s, m)"
      by blast
    have fields: "peers ?c' = (peers c)(?i \<mapsto> p\<lparr>pending := Some n\<rparr>)" "c_sessions ?c' = (c_sessions c)(n \<mapsto> s)"
      "peerStore ?c' = peerStore c"
      using on p lt s by (simp_all add: defs not_le [symmetric])
    show ?thesis
    proof (rule sdk_inv_put [OF inv fields(1) _ fresh])
      show "peer_ok (c_sessions ?c') (pinned ?c' ?i) ?i (p\<lparr>pending := Some n\<rparr>)"
        using peer_ok_rekey [OF sdk_inv_peer [OF inv p] fresh newInitiatorSession_handshaking [OF s]]
        by (simp add: fields pinned_def)
    qed (auto simp: fields p sids_def pinned_def)
  qed
qed

lemma sdk_inv_handleHandshakeEnvelope:
  assumes inv: "sdk_inv c" and fresh: "c_sessions c n = None"
  shows "sdk_inv (handleHandshakeEnvelope lib res t rnd now n pick payload c)" (is "sdk_inv ?c'")
proof (cases "peers c pick")
  case None
  then show ?thesis using inv by (simp add: handleHandshakeEnvelope_def getSolePeer_def)
next
  case (Some p)
  obtain reply completed w err p1 H1 where run:
    "peerHandleHandshake lib rnd now n (opt_PrivateKey (opts c)) payload (p, c_sessions c) = ((reply, completed, w, err), p1, H1)"
    by (metis surj_pair)
  note out = peerHandleHandshake_outcome [OF sdk_inv_peer [OF inv Some] fresh run]
  let ?c1 = "(setPeerConn pick p1 c)\<lparr>c_sessions := H1\<rparr>"
  let ?c2 = "case reply of None \<Rightarrow> ?c1 | Some m \<Rightarrow> enqueueBinary envelopeHandshake m ?c1"
  have core: "peers ?c2 = (peers c)(pick \<mapsto> p1)" "c_sessions ?c2 = H1" "peerStore ?c2 = peerStore c"
    by (auto simp: setPeerConn_def enqueueBinary_def pushSend_def split: option.split)
  then have pin2: "pinned ?c2 = pinned c" by (simp add: pinned_def fun_eq_iff)
  have c': "?c' = (case completed of None \<Rightarrow> ?c2 | Some k \<Rightarrow>
      (case H1 k of None \<Rightarrow> ?c2 | Some s \<Rightarrow> resolveHandshake res t pick p1 k s w err ?c2))"
    by (simp only: handleHandshakeEnvelope_def getSolePeer_def Some run option.map option.case prod.case Let_def)
  note sub = out [THEN conjunct1] and frame = out [THEN conjunct2, THEN conjunct1, rule_format]
  show ?thesis
  proof (cases completed)
    case None
    with out have "peer_ok H1 (pinned c pick) pick p1" by blast
    then show ?thesis
      unfolding c' None option.case
      by (intro sdk_inv_put [OF inv core(1) _ fresh]) (use sub frame Some in \<open>simp_all add: core(2) pin2\<close>)
  next
    case (Some k)
    with out obtain s where s: "H1 k = Some s" "err = None \<longleftrightarrow> ready s" and k: "k \<in> sids p1"
      and mid: "peer_mid H1 (pinned c pick) pick p1 k w" by blast
    let ?r = "resolveHandshake res t pick p1 k s w err ?c2"
    have mid2: "peer_mid (c_sessions ?c2) (pinned ?c2 pick) pick p1 k w"
      using mid unfolding core(2) pin2 .
    have s2: "c_sessions ?c2 k = Some s" using s(1) unfolding core(2) .
    note res = resolveHandshake_outcome [OF mid2 s2 s(2) refl, where res = res and t = t]
    obtain p' where p': "peers ?r = (peers ?c2)(pick \<mapsto> p')" "peer_ok (c_sessions ?r) (pinned ?r pick) pick p'"
      "sids p' \<subseteq> sids p1"
      using res(1) by blast
    have "?c' = ?r" unfolding c' Some option.case s(1) ..
    moreover have "sdk_inv ?r"
    proof (rule sdk_inv_put [OF inv _ p'(2) fresh])
      show "peers ?r = (peers c)(pick \<mapsto> p')" using p'(1) core(1) by simp
      show "sids p' \<subseteq> (case peers c pick of None \<Rightarrow> {} | Some p \<Rightarrow> sids p) \<union> {n}"
        using p'(3) sub \<open>peers c pick = Some p\<close> by auto
      show "c_sessions ?r j = c_sessions c j" if "j \<notin> (case peers c pick of None \<Rightarrow> {} | Some p \<Rightarrow> sids p) \<union> {n}" for j
      proof -
        have j: "j \<notin> sids p \<union> {n}" using that \<open>peers c pick = Some p\<close> by simp
        then have "j \<noteq> k" using k sub by blast
        then show ?thesis using res(2) [of j] frame [OF j] core(2) by simp
      qed
      show "pinned ?r j = Some v" if "pinned c j = Some v" for j v
        using res(3) [of j v] that pin2 by simp
    qed
    ultimately show ?thesis by simp
  qed
qed

text \<open>Encrypting and decrypting moves the counters of a session and nothing else.\<close>

lemma crypt_core:
  "session_status (snd (encrypt lib m s)) = session_status s" "peerStatic (snd (encrypt lib m s)) = peerStatic s"
  "session_status (snd (decrypt lib m s)) = session_status s" "peerStatic (snd (decrypt lib m s)) = peerStatic s"
  by (auto simp: encrypt_def decrypt_def split: option.split prod.split)

definition same_auth :: "('h, 'c) sessions \<Rightarrow> ('h, 'c) sessions \<Rightarrow> bool" where
  "same_auth H H' \<longleftrightarrow> (\<forall>k. map_option (\<lambda>s. (session_status s, peerStatic s)) (H' k) =
     map_option (\<lambda>s. (session_status s, peerStatic s)) (H k))"

lemma same_auth_crypt: "same_auth H (snd (peerSend lib m (p, H)))" "same_auth H (snd (peerRecv lib m (p, H)))"
  using crypt_core
  by (auto simp: peerSend_def peerRecv_def same_auth_def case_prod_beta split: option.split bind_splits)

lemma same_authD:
  assumes "same_auth H H'" and "H k = Some s"
  shows "\<exists>s'. H' k = Some s' \<and> session_status s' = session_status s \<and> peerStatic s' = peerStatic s"
proof -
  have "map_option (\<lambda>s. (session_status s, peerStatic s)) (H' k) = Some (session_status s, peerStatic s)"
    using assms by (simp add: same_auth_def)
  then show ?thesis by auto
qed

lemma peer_ok_auth:
  assumes "peer_ok H pin i p" and auth: "same_auth H H'"
  shows "peer_ok H' pin i p"
proof -
  have "\<exists>s. H' k = Some s \<and> (ready s \<longrightarrow> pin = Some (encodeBase64 (peerStatic s)))"
    if "H k = Some s" "ready s \<longrightarrow> pin = Some (encodeBase64 (peerStatic s))" for k s
    using same_authD [OF auth that(1)] that(2) by (auto simp: ready_def)
  moreover have "\<exists>s. H' k = Some s \<and> session_status s = statusHandshaking"
    if "H k = Some s" "session_status s = statusHandshaking" for k s
    using same_authD [OF auth that(1)] that(2) by auto
  ultimately show ?thesis
    using assms(1) unfolding peer_ok_def active_ok_def pending_ok_def by blast
qed

lemma sdk_inv_auth:
  assumes "sdk_inv c" and "same_auth (c_sessions c) (c_sessions c')" and "peers c' = peers c" and "peerStore c' = peerStore c"
  shows "sdk_inv c'"
  unfolding sdk_inv_def pinned_def assms(3,4)
proof (intro conjI allI impI)
  fix i p assume "peers c i = Some p"
  with assms(1) have "peer_ok (c_sessions c) (Get i (fst (peerStore c))) i p"
    by (simp add: sdk_inv_def pinned_def)
  then show "peer_ok (c_sessions c') (Get i (fst (peerStore c))) i p"
    using assms(2) by (rule peer_ok_auth)
next
  fix i j p q assume "peers c i = Some p" "peers c j = Some q" "i \<noteq> j"
  with assms(1) show "sids p \<inter> sids q = {}" unfolding sdk_inv_def by blast
qed

lemma sdk_inv_handleTransportEnvelope:
  assumes "sdk_inv c"
  shows "sdk_inv (handleTransportEnvelope lib now pick ct c)"
proof (rule sdk_inv_auth [OF assms])
  show "same_auth (c_sessions c) (c_sessions (handleTransportEnvelope lib now pick ct c))"
  proof (cases "peers c pick")
    case (Some p)
    then show ?thesis
      using same_auth_crypt(2) [of "c_sessions c" lib ct p]
      by (auto simp: handleTransportEnvelope_def getSolePeer_def deliver_def split: prod.split sum.split)
  qed (simp add: handleTransportEnvelope_def getSolePeer_def same_auth_def)
qed (auto simp: handleTransportEnvelope_def deliver_def split: option.split prod.split sum.split)

lemma sdk_inv_Send:
  assumes "sdk_inv c"
  shows "sdk_inv (snd (Send lib sel i m c))"
proof (rule sdk_inv_auth [OF assms])
  show "same_auth (c_sessions c) (c_sessions (snd (Send lib sel i m c)))"
  proof (cases "peers c i")
    case (Some p)
    then show ?thesis
      using same_auth_crypt(1) [of "c_sessions c" lib m p]
      by (auto simp: Send_def getPeerConn_def Let_def split: prod.split sum.split selected.split)
  qed (simp add: Send_def getPeerConn_def same_auth_def)
qed (auto simp: Send_def Let_def split: option.split prod.split sum.split selected.split)

lemma sdk_inv_add_peer:
  assumes "sdk_inv c" and "peers c i = None"
  shows "sdk_inv (setPeerConn i (newPeerConn i key) c)"
  using assms by (auto simp: sdk_inv_def setPeerConn_def pinned_def peer_ok_new split: if_splits)

lemma sdk_inv_applyWelcomePeers: "sdk_inv c \<Longrightarrow> sdk_inv (applyWelcomePeers ps c)"
  by (induction ps arbitrary: c) (auto simp: getPeerConn_def sdk_inv_add_peer)

lemma sdk_inv_dial: "sdk_inv c \<Longrightarrow> sdk_inv (snd (dial sbm first ok c))"
  by (auto simp: dial_def Let_def sdk_inv_applyWelcomePeers split: option.split sum.split)

lemma sdk_inv_dispatch: "sdk_inv c \<Longrightarrow> c_sessions c n = None \<Longrightarrow> sdk_inv (dispatch lib rnd n frame c)"
  using same_core_inv [OF same_core_handlePairCode, of c frame] same_core_inv [OF same_core_handleError, of c frame]
  by (simp add: dispatch_def sdk_inv_handlePairComplete sdk_inv_handlePeerStatus)

lemma sdk_inv_readBinary:
  "sdk_inv c \<Longrightarrow> c_sessions c n = None \<Longrightarrow> sdk_inv (readBinary lib res t rnd now n pick frame c)"
  by (simp add: readBinary_def sdk_inv_handleHandshakeEnvelope sdk_inv_handleTransportEnvelope split: prod.split)

end
