(* ===== verification/Sdk_System.thy ===== *)
theory Sdk_System
  imports Sdk_Client
begin

text \<open>
  The client library as a state machine: what the server sends, what the application calls
  and reconnections, in any order. \<open>sdk_do\<close> performs one event (\<open>None\<close>: not possible), and
  the pin invariant holds in every reachable state, so everything the application receives
  was decrypted by a session that authenticated the pinned key. The pairing waiters are
  followed too: no channel is ever sent to twice, so the read loop never blocks on one.
\<close>

section \<open>Events\<close>

text \<open>
  A binary frame carries the peer that \<^verbatim>\<open>range\<close> visits first; a device that is no peer
  stands for an empty map, which only adds behaviours. New sessions get an unused address,
  and a call that makes a channel gets one nobody waits on (\<open>fresh_chan\<close>).
\<close>

datatype client_event =
    FromServer bytes sid sdkMessage
  | BinaryFromServer save_result string bytes time sid device_id bytes
  | Redial "(unit + sdkMessage) option" bool
  | CallSend selected device_id bytes
  | CallRequest chan
  | RequestDone chan chan
  | CallAccept chan string
  | WaitDone chan
  | CancelRequest
  | CancelAccept string
  | WriteLoop
  | PingLoop
  | TakeMessage
  | CallClose

fun sdk_do :: "('h, 'c) noiseLib \<Rightarrow> (bytes \<Rightarrow> bytes) \<Rightarrow> client_event \<Rightarrow> ('h, 'c) Client \<Rightarrow> ('h, 'c) Client option" where
  "sdk_do lib sbm (FromServer rnd n frame) c =
     (if c_sessions c n \<noteq> None then None else Some (dispatch lib rnd n frame c))"
| "sdk_do lib sbm (BinaryFromServer res t rnd now n pick frame) c =
     (if c_sessions c n \<noteq> None then None else Some (readBinary lib res t rnd now n pick frame c))"
| "sdk_do lib sbm (Redial first ok) c = Some (snd (dial sbm first ok c))"
| "sdk_do lib sbm (CallSend sel i m) c =
     (if sel = DoneCase \<and> \<not> c_closed c then None else Some (snd (Send lib sel i m c)))"
| "sdk_do lib sbm (CallRequest ch) c = Some (RequestPairCode ch c)"
| "sdk_do lib sbm (RequestDone ch ch') c = Some (snd (RequestPairCode_result ch ch' c))"
| "sdk_do lib sbm (CallAccept ch code) c = Some (AcceptPair ch code c)"
| "sdk_do lib sbm (WaitDone ch) c = Some (snd (waitPair ch c))"
| "sdk_do lib sbm CancelRequest c = Some (removePairWaiter requestKey c)"
| "sdk_do lib sbm (CancelAccept code) c = Some (removePairWaiter code c)"
| "sdk_do lib sbm WriteLoop c = map_option snd (writeLoop c)"
| "sdk_do lib sbm PingLoop c = Some (pingLoop c)"
| "sdk_do lib sbm TakeMessage c = (case messages c of [] \<Rightarrow> None | m # ms \<Rightarrow> Some (c\<lparr>messages := ms\<rparr>))"
| "sdk_do lib sbm CallClose c = Some (Close c)"

fun new_chan :: "client_event \<Rightarrow> chan option" where
  "new_chan (CallRequest ch) = Some ch"
| "new_chan (RequestDone ch ch') = Some ch'"
| "new_chan (CallAccept ch code) = Some ch"
| "new_chan e = None"

definition firstWaiter :: "('h, 'c) Client \<Rightarrow> device_id \<Rightarrow> chan option" where
  "firstWaiter c i = Option.bind (peers c i) firstPairWaiter"

definition waiterChans :: "('h, 'c) Client \<Rightarrow> chan list" where
  "waiterChans c = map (wt_ch \<circ> snd) (pairWaiters c)"

definition fresh_chan :: "client_event \<Rightarrow> ('h, 'c) Client \<Rightarrow> bool" where
  "fresh_chan e c \<longleftrightarrow> (\<forall>ch. new_chan e = Some ch \<longrightarrow>
     ch \<notin> set (waiterChans c) \<and> (\<forall>i. firstWaiter c i \<noteq> Some ch) \<and> chans c ch = [])"

inductive sdk_step :: "('h, 'c) noiseLib \<Rightarrow> (bytes \<Rightarrow> bytes) \<Rightarrow> ('h, 'c) Client \<Rightarrow> ('h, 'c) Client \<Rightarrow> bool"
  for lib :: "('h, 'c) noiseLib" and sbm :: "bytes \<Rightarrow> bytes" where
  sdk_event: "sdk_do lib sbm e c = Some c' \<Longrightarrow> fresh_chan e c \<Longrightarrow> sdk_step lib sbm c c'"

inductive_cases sdk_stepE [elim]: "sdk_step lib sbm c c'"

definition sdk_initial :: "('h, 'c) Client \<Rightarrow> bool" where
  "sdk_initial c \<longleftrightarrow> (\<exists>o' st. validateOptions o' = None \<and> c = newClient o' st)"

section \<open>The pin invariant in every reachable state\<close>

lemma sdk_inv_initial: "sdk_initial c \<Longrightarrow> sdk_inv c"
  by (auto simp: sdk_initial_def newClient_def sdk_inv_def)

lemma sdk_inv_do:
  assumes "sdk_inv c" and "sdk_do lib sbm e c = Some c'"
  shows "sdk_inv c'"
proof (cases e)
  case (FromServer rnd n frame)
  then show ?thesis using assms by (auto simp: sdk_inv_dispatch split: if_splits)
next
  case (BinaryFromServer res t rnd now n pick frame)
  then show ?thesis using assms by (auto simp: sdk_inv_readBinary split: if_splits)
next
  case TakeMessage
  then show ?thesis
    using assms sdk_inv_cong [of c c'] by (auto split: list.splits)
next
  case (CallSend sel i m)
  then show ?thesis using assms by (auto simp: sdk_inv_Send split: if_splits)
next
  case WriteLoop
  then show ?thesis
    using assms sdk_inv_cong [of c c'] by (auto simp: writeLoop_def split: list.splits)
next
  case PingLoop
  then show ?thesis
    using assms sdk_inv_cong [of c c'] by (auto simp: pingLoop_def)
next
  case CancelRequest
  then show ?thesis
    using assms sdk_inv_cong [of c c'] by (auto simp: removePairWaiter_def)
next
  case (CancelAccept code)
  then show ?thesis
    using assms sdk_inv_cong [of c c'] by (auto simp: removePairWaiter_def)
qed (use assms in \<open>auto simp: sdk_inv_dial sdk_inv_Send intro: same_core_inv [OF same_core_requests(1)]
  same_core_inv [OF same_core_requests(2)] same_core_inv [OF same_core_requests(3)]
  same_core_inv [OF same_core_requests(4)] same_core_inv [of c "Close c"]\<close>)

section \<open>The waiters\<close>

text \<open>
  Every channel somebody will still be notified on is empty and has exactly one place that
  notifies it; no channel holds more than the one result its buffer has room for.
\<close>

definition chan_inv :: "('h, 'c) Client \<Rightarrow> bool" where
  "chan_inv c \<longleftrightarrow> distinct (waiterChans c) \<and> (\<forall>ch \<in> set (waiterChans c). chans c ch = []) \<and>
     (\<forall>i ch. firstWaiter c i = Some ch \<longrightarrow> chans c ch = [] \<and> ch \<notin> set (waiterChans c)) \<and>
     (\<forall>i j ch. firstWaiter c i = Some ch \<longrightarrow> firstWaiter c j = Some ch \<longrightarrow> i = j) \<and>
     (\<forall>ch. length (chans c ch) \<le> 1)"

text \<open>The invariant under fewer waiters, under a result for a channel nobody else waits on, and under a new waiter.\<close>

lemma chan_inv_fewer:
  assumes "chan_inv c" and "subseq (waiterChans c') (waiterChans c)" and "chans c' = chans c"
    and "\<And>i ch. firstWaiter c' i = Some ch \<Longrightarrow> firstWaiter c i = Some ch"
  shows "chan_inv c'"
proof -
  have "set (waiterChans c') \<subseteq> set (waiterChans c)" "distinct (waiterChans c')"
    using assms(1,2) set_nths_subset by (fastforce simp: chan_inv_def subseq_conv_nths)+
  with assms(1,3,4) show ?thesis unfolding chan_inv_def by (metis subsetD)
qed

lemma chan_inv_notify:
  assumes "chan_inv c" and "ch \<notin> set (waiterChans c)" and "\<And>i. firstWaiter c i \<noteq> Some ch" and "chans c ch = []"
  shows "chan_inv (notify ch r c)"
proof -
  have "waiterChans (notify ch r c) = waiterChans c" "firstWaiter (notify ch r c) = firstWaiter c"
    by (simp_all add: waiterChans_def firstWaiter_def notify_def fun_eq_iff)
  moreover have "chans (notify ch r c) = (chans c)(ch := [r])"
    using assms(4) by (simp add: notify_def)
  ultimately show ?thesis
    using assms(1-3) unfolding chan_inv_def by auto
qed

lemma waiterChans_filter: "subseq (map (wt_ch \<circ> snd) (filter P ws)) (map (wt_ch \<circ> snd) ws)"
  by (intro subseq_map subseq_filter_left)

lemma chan_inv_put:
  assumes "chan_inv c" and "ch \<notin> set (waiterChans c)" and "\<And>i. firstWaiter c i \<noteq> Some ch" and "chans c ch = []"
  shows "chan_inv (putPairWaiter key \<lparr>wt_ch = ch, weAreAcceptor = b\<rparr> c)"
proof -
  let ?c = "removePairWaiter key c"
  have "chan_inv ?c"
    by (rule chan_inv_fewer [OF assms(1)])
      (simp_all add: removePairWaiter_def waiterChans_def waiterChans_filter firstWaiter_def)
  moreover have "waiterChans (putPairWaiter key \<lparr>wt_ch = ch, weAreAcceptor = b\<rparr> c) = ch # waiterChans ?c"
    "set (waiterChans ?c) \<subseteq> set (waiterChans c)"
    by (auto simp: putPairWaiter_def removePairWaiter_def waiterChans_def)
  ultimately show ?thesis
    using assms(2-4) unfolding chan_inv_def
    by (auto simp: putPairWaiter_def removePairWaiter_def firstWaiter_def)
qed

definition same_chans :: "('h, 'c) Client \<Rightarrow> ('h, 'c) Client \<Rightarrow> bool" where
  "same_chans c c' \<longleftrightarrow> pairWaiters c' = pairWaiters c \<and> chans c' = chans c \<and> firstWaiter c' = firstWaiter c"

lemma chan_inv_same: "same_chans c c' \<Longrightarrow> chan_inv c \<Longrightarrow> chan_inv c'"
  by (simp add: same_chans_def chan_inv_def waiterChans_def)

text \<open>A peer entry that keeps its waiter, or drops it.\<close>

lemma chan_inv_setPeer:
  assumes "chan_inv c" and "pairWaiters c' = pairWaiters c" and "chans c' = chans c" and "peers c' = (peers c)(i \<mapsto> p)"
    and "firstPairWaiter p = None \<or> firstPairWaiter p = firstWaiter c i"
  shows "chan_inv c'"
  by (rule chan_inv_fewer [OF assms(1)])
    (use assms(2-5) in \<open>auto simp: waiterChans_def firstWaiter_def split: if_splits\<close>)

text \<open>A waiter that was taken out of the map is free to be notified, or to be handed to a peer.\<close>

definition free_chan :: "chan \<Rightarrow> ('h, 'c) Client \<Rightarrow> bool" where
  "free_chan ch c \<longleftrightarrow> ch \<notin> set (waiterChans c) \<and> (\<forall>i. firstWaiter c i \<noteq> Some ch) \<and> chans c ch = []"

lemma takePairWaiter_free:
  assumes inv: "chan_inv c" and take: "takePairWaiter key c = (w, c1)"
  shows "chan_inv c1" and "w = Some w' \<Longrightarrow> free_chan (wt_ch w') c1"
proof -
  have c1: "c1 = c\<lparr>pairWaiters := filter (\<lambda>(k, w). k \<noteq> key) (pairWaiters c)\<rparr>" and w: "w = map_of (pairWaiters c) key"
    using take by (auto simp: takePairWaiter_def)
  show "chan_inv c1"
    by (rule chan_inv_fewer [OF inv]) (simp_all add: c1 waiterChans_def waiterChans_filter firstWaiter_def)
  assume "w = Some w'"
  then have mem: "(key, w') \<in> set (pairWaiters c)" using w by (simp add: map_of_SomeD)
  have "inj_on (wt_ch \<circ> snd) (set (pairWaiters c))"
    using inv by (simp add: chan_inv_def waiterChans_def distinct_map)
  then have "(k, v) = (key, w')" if "(k, v) \<in> set (pairWaiters c)" "wt_ch v = wt_ch w'" for k v
    using inj_onD [of "wt_ch \<circ> snd" "set (pairWaiters c)" "(k, v)" "(key, w')"] that mem by simp
  then have "wt_ch w' \<notin> set (waiterChans c1)"
    by (auto simp: c1 waiterChans_def)
  moreover have "wt_ch w' \<in> set (waiterChans c)"
    using mem by (force simp: waiterChans_def)
  ultimately show "free_chan (wt_ch w') c1"
    using inv by (auto simp: free_chan_def chan_inv_def c1 firstWaiter_def)
qed

lemma chan_inv_notify_free: "chan_inv c \<Longrightarrow> free_chan ch c \<Longrightarrow> chan_inv (notify ch r c)"
  by (rule chan_inv_notify) (simp_all add: free_chan_def)

lemma chan_inv_setPeer_free:
  assumes "chan_inv c" and "free_chan ch c" and "pairWaiters c' = pairWaiters c" and "chans c' = chans c"
    and "peers c' = (peers c)(i \<mapsto> p)" and "firstPairWaiter p = Some ch"
  shows "chan_inv c'"
  using assms by (auto simp: chan_inv_def free_chan_def waiterChans_def firstWaiter_def split: if_splits)

lemma free_chan_setPeer:
  "free_chan ch c \<Longrightarrow> firstPairWaiter p = None \<Longrightarrow> free_chan ch (setPeerConn i p c)"
  by (auto simp: free_chan_def setPeerConn_def waiterChans_def firstWaiter_def split: if_splits)

lemma firstWaiter_free_after_take:
  assumes "chan_inv c" and "firstWaiter c i = Some ch" and "firstPairWaiter p = None"
    and "pairWaiters c' = pairWaiters c" and "chans c' = chans c" and "peers c' = (peers c)(i \<mapsto> p)"
  shows "free_chan ch c'"
  using assms by (auto simp: chan_inv_def free_chan_def waiterChans_def firstWaiter_def split: if_splits)

lemma chan_inv_handlePairCode: "chan_inv c \<Longrightarrow> chan_inv (handlePairCode frame c)"
  using takePairWaiter_free [of c requestKey]
  by (auto simp: handlePairCode_def chan_inv_notify_free split: prod.split option.split)

lemma chan_inv_handlePairComplete:
  assumes inv: "chan_inv c"
  shows "chan_inv (handlePairComplete lib rnd n frame c)"
proof -
  obtain w c1 where tk: "takePairWaiter (m_Code frame) c = (w, c1)" by (meson surj_pair)
  note free = takePairWaiter_free [OF inv tk]
  let ?i = "m_PeerID frame"
  let ?new = "newPeerConn ?i (m_PeerStaticKey frame)"
  show ?thesis
  proof (cases w)
    case None
    then show ?thesis using free(1) by (simp add: handlePairComplete_def tk)
  next
    case (Some w')
    note fr = free(2) [OF Some]
    note defs = handlePairComplete_def tk Some Let_def startAsInitiator_def takeFirstPairWaiter_def setFirstPairWaiter_def
    have put: "chan_inv c'" if "pairWaiters c' = pairWaiters c1" "chans c' = chans c1" "peers c' = (peers c1)(?i \<mapsto> p)"
      "firstPairWaiter p = Some (wt_ch w')" for c' p
      using chan_inv_setPeer_free [OF free(1) fr that] .
    have fail: "chan_inv (notify (wt_ch w') r c')" if "pairWaiters c' = pairWaiters c1" "chans c' = chans c1"
      "peers c' = (peers c1)(?i \<mapsto> p)" "firstPairWaiter p = None" for c' p r
    proof (rule chan_inv_notify_free)
      show "chan_inv c'" using chan_inv_setPeer [OF free(1) that(1-3)] that(4) by simp
      show "free_chan (wt_ch w') c'"
        using fr that by (auto simp: free_chan_def waiterChans_def firstWaiter_def split: if_splits)
    qed
    show ?thesis
    proof (cases "weAreAcceptor w' \<and> (\<exists>e. newInitiatorSession lib rnd (opt_PrivateKey (opts c1)) = Inl e)")
      case True
      then show ?thesis
        by (auto simp: defs setPeerConn_def intro!: fail)
    next
      case False
      then show ?thesis
        by (cases "newInitiatorSession lib rnd (opt_PrivateKey (opts c1))")
          (auto simp: defs setPeerConn_def enqueueBinary_def pushSend_def intro!: put)
    qed
  qed
qed

lemma chan_inv_handlePeerStatus:
  assumes "chan_inv c"
  shows "chan_inv (handlePeerStatus lib rnd n frame c)"
  by (rule chan_inv_same [OF _ assms])
    (auto simp: handlePeerStatus_def Let_def getPeerConn_def setPeerConn_def startRekeyAsInitiator_def enqueueBinary_def
      pushSend_def same_chans_def firstWaiter_def fun_eq_iff split: option.split sum.split prod.split)

lemma fold_notify_peers [simp]: "peers (fold (\<lambda>(code, w). notify (wt_ch w) r) ws c) = peers c"
  by (induction ws arbitrary: c) auto

lemma fold_notify_chans:
  assumes "distinct (map (wt_ch \<circ> snd) ws)" and "\<And>ch. ch \<in> set (map (wt_ch \<circ> snd) ws) \<Longrightarrow> chans c ch = []"
  shows "chans (fold (\<lambda>(code, w). notify (wt_ch w) r) ws c) =
    (\<lambda>ch. if ch \<in> set (map (wt_ch \<circ> snd) ws) then [r] else chans c ch)"
  using assms
proof (induction ws arbitrary: c)
  case (Cons x ws)
  obtain code w where x: "x = (code, w)" by (meson surj_pair)
  have d: "distinct (map (wt_ch \<circ> snd) ws)" and nin: "wt_ch w \<notin> set (map (wt_ch \<circ> snd) ws)"
    and e: "chans c (wt_ch w) = []"
    using Cons.prems x by (simp_all add: comp_def)
  have em: "chans (notify (wt_ch w) r c) ch = []" if "ch \<in> set (map (wt_ch \<circ> snd) ws)" for ch
  proof -
    have "ch \<noteq> wt_ch w" using that nin by blast
    then show ?thesis using that Cons.prems(2) [of ch] by (simp add: notify_def)
  qed
  show ?case
    using Cons.IH [OF d em] nin e by (auto simp: x fun_eq_iff notify_def)
qed simp

lemma chan_inv_handleError:
  assumes "chan_inv c"
  shows "chan_inv (handleError frame c)"
proof -
  have d: "distinct (map (wt_ch \<circ> snd) (pairWaiters c))"
    and e: "\<And>ch. ch \<in> set (map (wt_ch \<circ> snd) (pairWaiters c)) \<Longrightarrow> chans c ch = []"
    using assms by (auto simp: chan_inv_def waiterChans_def)
  show ?thesis
    using assms
    unfolding handleError_def Let_def chan_inv_def waiterChans_def firstWaiter_def
    by (simp add: fold_notify_chans [OF d e, simplified])
qed

lemma chan_inv_dispatch: "chan_inv c \<Longrightarrow> chan_inv (dispatch lib rnd n frame c)"
  by (simp add: dispatch_def chan_inv_handlePairCode chan_inv_handlePairComplete chan_inv_handlePeerStatus
      chan_inv_handleError)

lemma peerHandleHandshake_waiter:
  "firstPairWaiter (fst (snd (peerHandleHandshake lib rnd now n priv msg (p, H)))) = firstPairWaiter p"
  by (simp add: peerHandleHandshake_def chooseSession_def Let_def split: option.split sum.split prod.split)

text \<open>Resolution notifies the waiter of the peer, if any, after taking it away.\<close>

lemma chan_inv_resolveHandshake:
  assumes inv: "chan_inv c" and p: "firstPairWaiter p = firstWaiter c i"
  shows "chan_inv (resolveHandshake res t i p k s w e c)"
proof -
  obtain r c1 where step: "(case e of
        Some e \<Rightarrow> (emptyResult\<lparr>res_PeerID := pc_id p\<rparr>\<lparr>res_Error := Some (Wrapped e ''relayly: handshake failed'')\<rparr>, c)
      | None \<Rightarrow> (case verifyAndPin res t p s (peerStore c) of
          (Inl e, st) \<Rightarrow> (emptyResult\<lparr>res_PeerID := pc_id p\<rparr>\<lparr>res_Error := Some e\<rparr>, c\<lparr>peerStore := st,
            c_sessions := (c_sessions c)(k \<mapsto> s\<lparr>session_status := statusFailed, session_err := Some e\<rparr>)\<rparr>)
        | (Inr pub, st) \<Rightarrow> (emptyResult\<lparr>res_PeerID := pc_id p\<rparr>\<lparr>res_PeerPublicKey := pub\<rparr>, c\<lparr>peerStore := st\<rparr>))) = (r, c1)"
    by (meson surj_pair)
  have c1: "pairWaiters c1 = pairWaiters c" "chans c1 = chans c" "peers c1 = peers c"
    using step by (auto split: option.splits prod.splits sum.splits)
  have quiet: "chan_inv (setPeerConn i q c1)" if "firstPairWaiter q = None \<or> firstPairWaiter q = firstPairWaiter p" for q
    by (rule chan_inv_setPeer [OF inv, where i = i and p = q]) (use c1 p that in \<open>auto simp: setPeerConn_def\<close>)
  let ?q = "(if w then promote k p else p)\<lparr>firstPairWaiter := None\<rparr>"
  have told: "chan_inv (notify ch r (setPeerConn i ?q c1))" if "firstPairWaiter p = Some ch" for ch
  proof (rule chan_inv_notify_free [OF quiet])
    show "free_chan ch (setPeerConn i ?q c1)"
      by (rule firstWaiter_free_after_take [OF inv, where i = i and p = ?q]) (use that p c1 in \<open>simp_all add: setPeerConn_def\<close>)
  qed simp
  have calls: "chan_inv (x\<lparr>calls := cs\<rparr>) = chan_inv x" for x :: "('a, 'b) Client" and cs
    by (simp add: chan_inv_def waiterChans_def firstWaiter_def)
  have same: "firstPairWaiter (promote k p) = firstPairWaiter p" "firstPairWaiter (abandon k p) = firstPairWaiter p"
    by (simp_all add: promote_def abandon_def)
  show ?thesis
    unfolding resolveHandshake_def Let_def step prod.case
    using quiet told same
    by (auto simp: takeFirstPairWaiter_def calls split: option.split)
qed

lemma chan_inv_handleHandshakeEnvelope:
  assumes inv: "chan_inv c"
  shows "chan_inv (handleHandshakeEnvelope lib res t rnd now n pick payload c)"
proof (cases "peers c pick")
  case None
  then show ?thesis using inv by (simp add: handleHandshakeEnvelope_def getSolePeer_def)
next
  case (Some p)
  obtain reply completed w err p1 H1 where run:
    "peerHandleHandshake lib rnd now n (opt_PrivateKey (opts c)) payload (p, c_sessions c) = ((reply, completed, w, err), p1, H1)"
    by (metis surj_pair)
  let ?c1 = "(setPeerConn pick p1 c)\<lparr>c_sessions := H1\<rparr>"
  let ?c2 = "case reply of None \<Rightarrow> ?c1 | Some m \<Rightarrow> enqueueBinary envelopeHandshake m ?c1"
  have fw: "firstPairWaiter p1 = firstWaiter c pick"
    using peerHandleHandshake_waiter [of lib rnd now n "opt_PrivateKey (opts c)" payload p "c_sessions c"] run Some
    by (simp add: firstWaiter_def)
  have c2: "pairWaiters ?c2 = pairWaiters c" "chans ?c2 = chans c" "peers ?c2 = (peers c)(pick \<mapsto> p1)"
    by (auto simp: setPeerConn_def enqueueBinary_def pushSend_def split: option.split)
  have inv2: "chan_inv ?c2"
    by (rule chan_inv_setPeer [OF inv c2]) (simp add: fw)
  have fw2: "firstPairWaiter p1 = firstWaiter ?c2 pick"
    using c2(3) by (simp add: firstWaiter_def)
  have eq: "handleHandshakeEnvelope lib res t rnd now n pick payload c = (case completed of None \<Rightarrow> ?c2 | Some k \<Rightarrow>
      (case H1 k of None \<Rightarrow> ?c2 | Some s \<Rightarrow> resolveHandshake res t pick p1 k s w err ?c2))"
    by (simp only: handleHandshakeEnvelope_def getSolePeer_def Some run option.map option.case prod.case Let_def)
  show ?thesis
  proof (cases completed)
    case None
    show ?thesis unfolding eq None option.case by (rule inv2)
  next
    case k: (Some k)
    show ?thesis
      unfolding eq k option.case using inv2 chan_inv_resolveHandshake [OF inv2 fw2]
      by (cases "H1 k") (simp_all only: option.case)
  qed
qed

lemma chan_inv_handleTransportEnvelope: "chan_inv c \<Longrightarrow> chan_inv (handleTransportEnvelope lib now pick ct c)"
  by (erule chan_inv_same [rotated])
    (auto simp: handleTransportEnvelope_def same_chans_def deliver_def firstWaiter_def fun_eq_iff
      split: option.split prod.split sum.split)

lemma chan_inv_Send: "chan_inv c \<Longrightarrow> chan_inv (snd (Send lib sel i m c))"
  by (erule chan_inv_same [rotated])
    (auto simp: Send_def same_chans_def firstWaiter_def fun_eq_iff Let_def
      split: option.split prod.split sum.split selected.split)

lemma chan_inv_applyWelcomePeers: "chan_inv c \<Longrightarrow> chan_inv (applyWelcomePeers ps c)"
proof (induction ps arbitrary: c)
  case (Cons p ps)
  have "chan_inv (setPeerConn (wp_ID p) (newPeerConn (wp_ID p) (wp_StaticKey p)) c)"
    by (rule chan_inv_setPeer [OF Cons.prems, where i = "wp_ID p" and p = "newPeerConn (wp_ID p) (wp_StaticKey p)"])
      (simp_all add: setPeerConn_def newPeerConn_def)
  with Cons show ?case by simp
qed simp

lemma chan_inv_pushSend: "chan_inv (pushSend f c) = chan_inv c"
  by (simp add: pushSend_def chan_inv_def waiterChans_def firstWaiter_def)

lemma chan_inv_remove: "chan_inv c \<Longrightarrow> chan_inv (removePairWaiter key c)"
  by (erule chan_inv_fewer) (simp_all add: removePairWaiter_def waiterChans_def waiterChans_filter firstWaiter_def)

text \<open>The application takes a result out of a channel.\<close>

lemma chan_inv_receive:
  assumes "chan_inv c" and "chans c ch = r # rs"
  shows "chan_inv (c\<lparr>chans := (chans c)(ch := rs)\<rparr>)"
proof -
  have "rs = []" using assms by (auto simp: chan_inv_def dest: spec [of _ ch])
  with assms show ?thesis by (simp add: chan_inv_def waiterChans_def firstWaiter_def)
qed

lemma chan_inv_do:
  assumes inv: "chan_inv c" and run: "sdk_do lib sbm e c = Some c'" and fresh: "fresh_chan e c"
  shows "chan_inv c'"
proof (cases e)
  case (FromServer rnd n frame)
  then show ?thesis using inv run by (auto simp: chan_inv_dispatch split: if_splits)
next
  case (BinaryFromServer res t rnd now n pick frame)
  then show ?thesis using inv run
    by (auto simp: readBinary_def chan_inv_handleHandshakeEnvelope chan_inv_handleTransportEnvelope
        split: if_splits prod.splits)
next
  case (Redial first ok)
  then show ?thesis using inv run
    by (auto simp: dial_def Let_def chan_inv_applyWelcomePeers split: option.split sum.split)
next
  case (CallSend sel i m)
  then show ?thesis using inv run by (auto simp: chan_inv_Send split: if_splits)
next
  case CancelRequest
  then show ?thesis using inv run by (auto simp: chan_inv_remove)
next
  case (CancelAccept code)
  then show ?thesis using inv run by (auto simp: chan_inv_remove)
next
  case WriteLoop
  show ?thesis
    by (rule chan_inv_same [OF _ inv])
      (use run WriteLoop in \<open>auto simp: writeLoop_def same_chans_def firstWaiter_def fun_eq_iff split: list.splits\<close>)
next
  case PingLoop
  show ?thesis
    by (rule chan_inv_same [OF _ inv])
      (use run PingLoop in \<open>auto simp: pingLoop_def same_chans_def firstWaiter_def fun_eq_iff\<close>)
next
  case (CallRequest ch)
  then show ?thesis using inv run fresh
    by (auto simp: RequestPairCode_def Let_def fresh_chan_def chan_inv_pushSend intro!: chan_inv_put chan_inv_remove)
next
  case (CallAccept ch code)
  then show ?thesis using inv run fresh
    by (auto simp: AcceptPair_def Let_def fresh_chan_def chan_inv_pushSend intro!: chan_inv_put chan_inv_remove)
next
  case (RequestDone ch ch')
  show ?thesis
  proof (cases "chans c ch")
    case Nil
    then show ?thesis using inv run RequestDone by (simp add: RequestPairCode_result_def)
  next
    case (Cons r rs)
    have c1: "chan_inv (c\<lparr>chans := (chans c)(ch := rs)\<rparr>)" by (rule chan_inv_receive [OF inv Cons])
    have rs: "rs = []" using inv Cons by (auto simp: chan_inv_def dest: spec [of _ ch])
    show ?thesis
      using run RequestDone fresh c1
      by (auto simp: RequestPairCode_result_def Cons Let_def fresh_chan_def waiterChans_def firstWaiter_def rs
          intro!: chan_inv_put split: option.splits)
  qed
next
  case (WaitDone ch)
  then show ?thesis using inv run chan_inv_receive [OF inv, of ch]
    by (auto simp: waitPair_def split: list.splits)
next
  case TakeMessage
  show ?thesis
    by (rule chan_inv_same [OF _ inv])
      (use run TakeMessage in \<open>auto simp: same_chans_def firstWaiter_def fun_eq_iff split: list.splits\<close>)
next
  case CallClose
  show ?thesis
    by (rule chan_inv_same [OF _ inv])
      (use run CallClose in \<open>auto simp: Close_def same_chans_def firstWaiter_def fun_eq_iff\<close>)
qed

section \<open>Reachable states\<close>

lemma chan_inv_initial: "sdk_initial c \<Longrightarrow> chan_inv c"
  by (auto simp: sdk_initial_def newClient_def chan_inv_def waiterChans_def firstWaiter_def)

interpretation sdk_sys: inductive_invariant sdk_initial "sdk_step lib sbm" "\<lambda>c. sdk_inv c \<and> chan_inv c"
  for lib :: "('h, 'c) noiseLib" and sbm :: "bytes \<Rightarrow> bytes"
  by unfold_locales (auto intro: sdk_inv_initial chan_inv_initial sdk_inv_do chan_inv_do)

text \<open>A client that \<open>SdkConnect\<close> returns is such a state.\<close>

lemma SdkConnect_reach:
  assumes "SdkConnect sbm home readOk scheme first announced o' fs = Inr (sch, c)"
  shows "reach sdk_initial (sdk_step lib sbm) c"
proof -
  obtain ps msg where ok: "validateOptions o' = None" and d: "dial sbm first announced (newClient o' (ps, fs)) = (Inr msg, c)"
    using assms by (auto simp: SdkConnect_def split: option.splits sum.splits prod.splits)
  have "sdk_initial (newClient o' (ps, fs))" using ok unfolding sdk_initial_def by blast
  moreover have "sdk_step lib sbm (newClient o' (ps, fs)) c"
    by (rule sdk_event [of _ _ "Redial first announced"]) (simp_all add: d fresh_chan_def)
  ultimately show ?thesis by (blast intro: reach_init reach_step)
qed

section \<open>What reaches the application\<close>

lemma messages_simps [simp]:
  "messages (notify ch r c) = messages c" "messages (pushSend f c) = messages c"
  "messages (enqueueBinary k b c) = messages c" "messages (setPeerConn i p c) = messages c"
  "messages (putPairWaiter key w c) = messages c" "messages (removePairWaiter key c) = messages c"
  "messages (snd (takePairWaiter key c)) = messages c"
  by (simp_all add: notify_def pushSend_def enqueueBinary_def setPeerConn_def putPairWaiter_def removePairWaiter_def
      takePairWaiter_def)

lemma messages_applyWelcomePeers [simp]: "messages (applyWelcomePeers ps c) = messages c"
  by (induction ps arbitrary: c) auto

lemma messages_fold_notify [simp]: "messages (fold (\<lambda>(code, w). notify (wt_ch w) r) ws c) = messages c"
  by (induction ws arbitrary: c) auto

lemma messages_control:
  "messages (handlePairCode frame c) = messages c" "messages (handleError frame c) = messages c"
  "messages (handlePeerStatus lib rnd n frame c) = messages c"
  "messages (handlePairComplete lib rnd n frame c) = messages c"
  by (auto simp: handlePairCode_def handleError_def handlePeerStatus_def handlePairComplete_def takePairWaiter_def Let_def
      split: option.split prod.split sum.split)

lemma messages_resolve [simp]: "messages (resolveHandshake res t i p k s w e c) = messages c"
  by (auto simp: resolveHandshake_def Let_def split: option.split prod.split sum.split)

lemma messages_handshake: "messages (handleHandshakeEnvelope lib res t rnd now n pick payload c) = messages c"
  by (auto simp: handleHandshakeEnvelope_def Let_def split: option.split prod.split)

lemma messages_calls:
  "messages (snd (dial sbm first ok c)) = messages c" "messages (snd (Send lib sel i m c)) = messages c"
  "messages (RequestPairCode ch c) = messages c" "messages (AcceptPair ch code c) = messages c"
  "messages (snd (RequestPairCode_result ch ch' c)) = messages c" "messages (snd (waitPair ch c)) = messages c"
  "messages (Close c) = messages c"
  by (auto simp: dial_def Send_def RequestPairCode_def AcceptPair_def RequestPairCode_result_def waitPair_def Close_def
      Let_def split: option.split sum.split prod.split list.split selected.split)

lemma messages_loops:
  "messages (pingLoop c) = messages c" "writeLoop c = Some (f, c') \<Longrightarrow> messages c' = messages c"
  by (auto simp: pingLoop_def writeLoop_def split: list.splits)

lemma decrypt_okD: "decrypt lib ct s = (Inr m, s') \<Longrightarrow> ready s"
  by (auto simp: decrypt_def ready_def split: if_splits)

lemma encrypt_okD: "encrypt lib m s = (Inr ct, s') \<Longrightarrow> ready s"
  by (auto simp: encrypt_def ready_def split: if_splits)

lemma delivered_by_transport:
  assumes "sdk_do lib sbm e c = Some c'" and "messages c' = messages c @ [m]"
  obtains pick p ct where "peers c pick = Some p" and "From m = pc_id p"
    and "fst (peerRecv lib ct (p, c_sessions c)) = Inr (Payload m)"
proof (cases e)
  case (BinaryFromServer res t rnd now n pick frame)
  obtain kind payload ok where dec: "decodeEnvelope frame = (kind, payload, ok)" by (metis surj_pair)
  have "messages (readBinary lib res t rnd now n pick frame c) = messages c @ [m]"
    using assms BinaryFromServer by (auto split: if_splits)
  then have tr: "messages (handleTransportEnvelope lib now pick payload c) = messages c @ [m]"
    by (auto simp: readBinary_def dec messages_handshake split: if_splits)
  obtain p where p: "peers c pick = Some p"
    using tr by (cases "peers c pick") (auto simp: handleTransportEnvelope_def getSolePeer_def)
  obtain r H where rv: "peerRecv lib payload (p, c_sessions c) = (r, H)" by (meson surj_pair)
  have "r = Inr (Payload m) \<and> From m = pc_id p"
    using tr by (cases r) (auto simp: handleTransportEnvelope_def getSolePeer_def p rv deliver_def split: if_splits)
  then show ?thesis using that [OF p, of payload] rv by simp
qed (use assms in \<open>auto simp: dispatch_def messages_control messages_calls messages_loops split: if_splits list.splits\<close>)

lemma peerRecv_session:
  assumes "fst (peerRecv lib ct (p, H)) = Inr m"
  obtains k s where "active p = Some k" "H k = Some s" "ready s" "fst (decrypt lib ct s) = Inr m"
  using assms decrypt_okD [of lib ct] that
  by (auto simp: peerRecv_def split: option.splits prod.splits bind_splits)

lemma peerSend_session:
  assumes "fst (peerSend lib m (p, H)) = Inr ct"
  obtains k s where "active p = Some k" "H k = Some s" "ready s"
  using assms encrypt_okD [of lib m] that
  by (auto simp: peerSend_def split: option.splits prod.splits bind_splits)

lemma ready_session_pinned:
  assumes "sdk_inv c" and "peers c i = Some p" and "active p = Some k" and "c_sessions c k = Some s" and "ready s"
  shows "pinned c i = Some (encodeBase64 (peerStatic s)) \<and> pc_id p = i"
  using sdk_inv_peer [OF assms(1,2)] assms(3-5) by (auto simp: peer_ok_def active_ok_def)

section \<open>Backoff\<close>

lemma wrap64_id: "0 \<le> x \<Longrightarrow> x < 2 ^ 63 \<Longrightarrow> wrap64 x = x"
  by (simp add: wrap64_def)

text \<open>The first and the longest wait of \<open>reconnectWithBackoff\<close>.\<close>

definition firstWait :: "Options \<Rightarrow> duration" where
  "firstWait o' = (if opt_ReconnectDelay o' = 0 then DefaultReconnectDelay else opt_ReconnectDelay o')"

definition longestWait :: "Options \<Rightarrow> duration" where
  "longestWait o' = (if opt_MaxReconnectDelay o' = 0 then DefaultMaxReconnectDelay else opt_MaxReconnectDelay o')"

lemma reconnectWithBackoff_eq:
  "reconnectWithBackoff o' rs =
     (if opt_ReconnectDelay o' < 0 then ([], Some False) else backoffLoop (firstWait o') (longestWait o') rs)"
  by (simp add: reconnectWithBackoff_def firstWait_def longestWait_def Let_def)

lemma nextDelay_min:
  assumes "0 < x" and "0 < mx" and "mx \<le> 2 ^ 61"
  shows "nextDelay mx (min mx x) = min mx (x * 2)"
  using assms wrap64_id [of "min mx x * 2"] by (auto simp: nextDelay_def Let_def min_def)

lemma nextDelay_funpow:
  assumes "0 < d" and "d \<le> mx" and "mx \<le> 2 ^ 61"
  shows "(nextDelay mx ^^ k) d = min mx (d * 2 ^ k)"
proof (induction k)
  case (Suc k)
  then show ?case using nextDelay_min [of "d * 2 ^ k" mx] assms by (simp add: mult.assoc mult.commute)
qed (use assms in simp)

lemma backoffLoop_succeeds:
  "backoffLoop d mx (replicate n (Dialled False) @ Dialled True # rs) =
    (map (\<lambda>k. (nextDelay mx ^^ k) d) [0..<Suc n], Some True)"
proof (induction n arbitrary: d)
  case (Suc n)
  have "[0..<Suc (Suc n)] = 0 # map Suc [0..<Suc n]" by (metis map_Suc_upt upt_conv_Cons zero_less_Suc)
  with Suc show ?case by (simp add: funpow_swap1 comp_def del: upt_Suc)
qed simp

lemma backoffLoop_pending: "snd (backoffLoop d mx rs) = None \<longleftrightarrow> set rs \<subseteq> {Dialled False}"
  by (induction d mx rs rule: backoffLoop.induct) (auto simp: case_prod_beta)

lemma backoffLoop_stopped:
  "snd (backoffLoop d mx rs) = Some False \<longleftrightarrow> (\<exists>n rs'. rs = replicate n (Dialled False) @ Shutdown # rs')"
proof (induction d mx rs rule: backoffLoop.induct)
  case (2 d mx rs)
  have "Shutdown # rs = replicate 0 (Dialled False) @ Shutdown # rs" by simp
  then show ?case by (metis backoffLoop.simps(2) snd_conv)
next
  case (3 d mx ok rs)
  have "(\<exists>n rs'. Dialled ok # rs = replicate n (Dialled False) @ Shutdown # rs') \<longleftrightarrow>
      \<not> ok \<and> (\<exists>n rs'. rs = replicate n (Dialled False) @ Shutdown # rs')" (is "?l \<longleftrightarrow> ?r")
  proof
    assume ?l
    then obtain n rs' where n: "Dialled ok # rs = replicate n (Dialled False) @ Shutdown # rs'" by blast
    then show ?r by (cases n) auto
  next
    assume ?r
    then obtain n rs' where "Dialled ok # rs = replicate (Suc n) (Dialled False) @ Shutdown # rs'" by auto
    then show ?l by blast
  qed
  with 3 show ?case by (simp add: case_prod_beta)
qed simp

section \<open>Sample runs\<close>

fun sdk_runs :: "('h, 'c) noiseLib \<Rightarrow> (bytes \<Rightarrow> bytes) \<Rightarrow> client_event list \<Rightarrow> ('h, 'c) Client \<Rightarrow> ('h, 'c) Client option" where
  "sdk_runs lib sbm [] c = Some c"
| "sdk_runs lib sbm (e # es) c = (case sdk_do lib sbm e c of None \<Rightarrow> None | Some c' \<Rightarrow> sdk_runs lib sbm es c')"

lemma sdk_runs_reach:
  assumes "sdk_runs lib sbm es c = Some c'" and "reach sdk_initial (sdk_step lib sbm) c" and "list_all (\<lambda>e. new_chan e = None) es"
  shows "reach sdk_initial (sdk_step lib sbm) c'"
  using assms
proof (induction es arbitrary: c)
  case (Cons e es)
  then obtain u where u: "sdk_do lib sbm e c = Some u" and rest: "sdk_runs lib sbm es u = Some c'"
    by (auto split: option.splits)
  have "fresh_chan e c" using Cons.prems(3) by (simp add: fresh_chan_def)
  with u have "reach sdk_initial (sdk_step lib sbm) u"
    using Cons.prems(2) by (blast intro: reach_step sdk_event)
  with Cons.IH [OF rest] Cons.prems(3) show ?case by simp
qed simp

definition sample_options :: Options where
  "sample_options = \<lparr>opt_DeviceID = ''b'', opt_DeviceToken = ''t'', opt_PrivateKey = replicate 32 2, opt_PeerStorePath = '''',
     opt_PingInterval = 0, opt_ReconnectDelay = 0, opt_MaxReconnectDelay = 0\<rparr>"

definition sample_client :: "(bool \<times> nat \<times> bytes \<times> bytes, nat) Client" where
  "sample_client = newClient sample_options (\<lparr>ps_path = ''p'', ps_peers = Map.empty\<rparr>, Map.empty)"

text \<open>The device learns of its peer, answers the peer's handshake, and pins its key.\<close>

definition sample_handshake :: "client_event list" where
  "sample_handshake =
     [Redial (Some (Inr ((emptyMessage ''welcome'')\<lparr>m_ProtocolVersion := 1, m_Peers := [\<lparr>wp_ID = ''a'', wp_StaticKey = ''''\<rparr>]\<rparr>))) True,
      BinaryFromServer SaveOk ''now'' [] 0 0 ''a'' [1, 9],
      BinaryFromServer SaveOk ''now'' [] 0 1 ''a'' (1 # replicate 32 5)]"

lemma sample_client_initial: "reach sdk_initial (sdk_step lib sbm) sample_client"
proof (rule reach_init)
  have "validateOptions sample_options = None" by (simp add: sample_options_def validateOptions_def)
  then show "sdk_initial sample_client" unfolding sdk_initial_def sample_client_def by blast
qed

definition sampleSession :: "bytes \<Rightarrow> (unit, unit) noiseSession" where
  "sampleSession key = \<lparr>session_status = statusReady, session_err = None, initiator = False, hs = (),
     gotMsg1 = True, cipherStates = Some ((), ()), peerStatic = key, readyClosed = 1\<rparr>"

lemma publicKey_roundtrip: "length k = 32 \<Longrightarrow> publicKeyFromBase64 (encodeBase64 k) = Inr k"
  by (simp add: publicKeyFromBase64_def decode_encode)

lemma verifyAndPin_first:
  assumes "ps_peers (fst st) (pc_id p) = None" and "announcedStaticKey p = ''''" and "length (peerStatic s) = 32"
  shows "fst (verifyAndPin SaveOk t p s st) = Inr (peerStatic s)"
  using assms by (simp add: verifyAndPin_def PinOrVerify_def saveLocked_def publicKey_roundtrip Let_def case_prod_beta)

lemmas sdk_defs = getSolePeer_def getPeerConn_def setPeerConn_def pushSend_def enqueueBinary_def newPeerConn_def takeFirstPairWaiter_def
  promote_def abandon_def chooseSession_def peerHandleHandshake_def handleHandshakeMessage_def newResponderSession_def finishLocked_def
  handleHandshakeEnvelope_def resolveHandshake_def readBinary_def decodeEnvelope_def dial_def emptyMessage_def emptyResult_def protocolVersion_def
  envelopeHandshake_def envelopeTransport_def readyAt_def ready_def Let_def plainLib_def sample_client_def sample_options_def newClient_def

lemma sample_ready:
  obtains c p s where "sdk_runs plainLib id sample_handshake sample_client = Some c"
    and "messages c = []" and "\<not> c_closed c" and "c_sessions c 2 = None" and "peers c ''a'' = Some p" and "active p = Some 0" and "pc_id p = ''a''"
    and "c_sessions c 0 = Some s" and "ready s" and "peerStatic s = replicate 32 5" and "cipherStates s = Some (0, 0)"
proof -
  let ?c = "sdk_runs plainLib id sample_handshake sample_client"
  have "case ?c of None \<Rightarrow> False | Some c \<Rightarrow> messages c = [] \<and> \<not> c_closed c \<and> c_sessions c 2 = None \<and>
      (case peers c ''a'' of None \<Rightarrow> False | Some p \<Rightarrow> active p = Some 0 \<and> pc_id p = ''a'') \<and>
      (case c_sessions c 0 of None \<Rightarrow> False | Some s \<Rightarrow> ready s \<and> peerStatic s = replicate 32 5 \<and> cipherStates s = Some (0, 0))"
    apply (simp add: sample_handshake_def dial_def emptyMessage_def protocolVersion_def getPeerConn_def setPeerConn_def newPeerConn_def sample_client_def newClient_def)
    apply (simp add: sdk_defs)
    by (simp add: sdk_defs verifyAndPin_first case_prod_beta swapPair_def)
  then show thesis by (auto split: option.splits intro: that simp del: sdk_runs.simps)
qed

section \<open>Properties\<close>

text \<open>
  C7: the application only receives what the pinned peer sent. In every reachable state,
  when an event adds a message to the message channel, the message names a known peer, and
  its payload was decrypted by that peer's active session, whose handshake authenticated
  exactly the key pinned for that peer.
\<close>

theorem delivered_is_pinned:
  assumes "reach sdk_initial (sdk_step lib sbm) c" and "sdk_do lib sbm e c = Some c'" and "messages c' = messages c @ [m]"
  shows "\<exists>p k s ct. peers c (From m) = Some p \<and> active p = Some k \<and> c_sessions c k = Some s \<and> ready s \<and>
    pinned c (From m) = Some (encodeBase64 (peerStatic s)) \<and> fst (decrypt lib ct s) = Inr (Payload m)"
proof -
  have inv: "sdk_inv c" using sdk_sys.reach_inv [OF assms(1)] by simp
  obtain pick p ct where p: "peers c pick = Some p" "From m = pc_id p"
    and rv: "fst (peerRecv lib ct (p, c_sessions c)) = Inr (Payload m)"
    using delivered_by_transport [OF assms(2,3)] .
  obtain k s where s: "active p = Some k" "c_sessions c k = Some s" "ready s" "fst (decrypt lib ct s) = Inr (Payload m)"
    using peerRecv_session [OF rv] .
  with p ready_session_pinned [OF inv p(1) s(1-3)] show ?thesis by auto
qed

theorem delivered_is_pinned_witness:
  "\<exists>c. sdk_runs plainLib id sample_handshake sample_client = Some c \<and>
     pinned c ''a'' = Some (encodeBase64 (replicate 32 5))"
proof -
  obtain c p s where c: "sdk_runs plainLib id sample_handshake sample_client = Some c"
    and m: "messages c = []" and cl: "\<not> c_closed c" and n: "c_sessions c 2 = None"
    and p: "peers c ''a'' = Some p" "active p = Some 0" "pc_id p = ''a''"
    and s: "c_sessions c 0 = Some s" "ready s" "peerStatic s = replicate 32 5" "cipherStates s = Some (0, 0)"
    by (rule sample_ready)
  have "reach sdk_initial (sdk_step plainLib id) c"
    by (rule sdk_runs_reach [OF c sample_client_initial]) (simp add: sample_handshake_def)
  moreover obtain c' where "sdk_do plainLib id (BinaryFromServer SaveOk ''now'' [] 7 2 ''a'' [2, 8]) c = Some c'"
    "messages c' = messages c @ [\<lparr>From = ''a'', Payload = [8], Timestamp = 7\<rparr>]"
    using m n p s by (auto simp: sdk_defs handleTransportEnvelope_def peerRecv_def decrypt_def deliver_def messagesCapacity_def)
  ultimately show ?thesis using delivered_is_pinned [of plainLib id c] c p s by fastforce
qed



text \<open>
  The read loop never blocks on a pairing result. Result channels have room for one
  result; in every reachable state no channel holds more than one, and a channel some call is
  still registered on is empty, so the send that resolves the registration goes through.
\<close>

theorem waiters_never_block:
  assumes "reach sdk_initial (sdk_step lib sbm) c"
  shows "length (chans c ch) \<le> 1 \<and> (ch \<in> set (waiterChans c) \<or> firstWaiter c i = Some ch \<longrightarrow> chans c ch = [])"
  using sdk_sys.reach_inv [OF assms] by (auto simp: chan_inv_def)

theorem waiters_never_block_witness:
  "length (chans (the (sdk_do plainLib id (CallRequest 4) sample_client)) 4) \<le> 1"
proof -
  let ?c = "the (sdk_do plainLib id (CallRequest 4) sample_client)"
  have "fresh_chan (CallRequest 4) sample_client"
    by (simp add: fresh_chan_def sample_client_def newClient_def waiterChans_def firstWaiter_def)
  moreover have "sdk_do plainLib id (CallRequest 4) sample_client = Some ?c" by simp
  ultimately have "reach sdk_initial (sdk_step plainLib id) ?c"
    using sample_client_initial by (blast intro: reach_step sdk_event)
  from waiters_never_block [OF this, of 4] show ?thesis by simp
qed

text \<open>
  C29: reconnecting makes progress. With a positive first delay that does not exceed the
  maximum, after any number \<open>n\<close> of failed dials followed by a successful one the loop returns
  true, having waited \<open>n + 1\<close> times, the \<open>k\<close>-th time for the first delay doubled \<open>k\<close> times
  and capped at the maximum.
\<close>

theorem reconnect_succeeds:
  assumes "0 < firstWait o'" and "firstWait o' \<le> longestWait o'" and "longestWait o' \<le> 2 ^ 61"
  shows "reconnectWithBackoff o' (replicate n (Dialled False) @ Dialled True # rs) =
    (map (\<lambda>k. min (longestWait o') (firstWait o' * 2 ^ k)) [0..<Suc n], Some True)"
proof -
  have "\<not> opt_ReconnectDelay o' < 0" using assms(1) by (auto simp: firstWait_def split: if_splits)
  then show ?thesis
    unfolding reconnectWithBackoff_eq backoffLoop_succeeds
    using nextDelay_funpow [OF assms] by (simp del: upt_Suc)
qed

theorem reconnect_succeeds_witness:
  "fst (reconnectWithBackoff sample_options (replicate 6 (Dialled False) @ [Dialled True])) =
     map (\<lambda>s. s * Second) [1, 2, 4, 8, 16, 32, 60]"
  using reconnect_succeeds [of sample_options 6 "[]"]
  by (simp add: firstWait_def longestWait_def sample_options_def DefaultReconnectDelay_def DefaultMaxReconnectDelay_def
      upt_rec)

text \<open>
  C30: reconnecting ends when it should, and only then. The loop is still running exactly when
  reconnecting is enabled and every dial so far failed; it gives up exactly when reconnecting
  is disabled or a shutdown was requested before any dial succeeded.
\<close>

theorem reconnect_ends:
  "(snd (reconnectWithBackoff o' rs) = None \<longleftrightarrow> 0 \<le> opt_ReconnectDelay o' \<and> set rs \<subseteq> {Dialled False}) \<and>
   (snd (reconnectWithBackoff o' rs) = Some False \<longleftrightarrow>
      opt_ReconnectDelay o' < 0 \<or> (\<exists>n rs'. rs = replicate n (Dialled False) @ Shutdown # rs'))"
  by (simp add: reconnectWithBackoff_eq backoffLoop_pending backoffLoop_stopped not_less)

text \<open>
  A key the announcement contradicts stays pinned. When no key is pinned yet and the
  authenticated key differs from the announced one, \<open>verifyAndPin\<close> reports the mismatch, but
  the rejected key has been pinned already: from then on the announced key itself is refused
  with \<open>ErrPeerKeyMismatch\<close>.
\<close>

theorem rejected_key_stays_pinned:
  assumes "ps_peers (fst st) (pc_id p) = None" and "announcedStaticKey p = encodeBase64 (peerStatic good)"
    and "peerStatic bad \<noteq> peerStatic good" and "peerStatic good \<noteq> []"
  shows "\<exists>st'. verifyAndPin SaveOk t p bad st = (Inl (Wrapped (Sentinel ErrKeyMismatch) (pc_id p)), st') \<and>
    fst (verifyAndPin res t' p good st') = Inl (Wrapped (Sentinel ErrPeerKeyMismatch) (pc_id p))"
proof -
  have "encodeBase64 (peerStatic bad) \<noteq> encodeBase64 (peerStatic good)"
    using assms(3) decode_encode by (metis option.inject)
  moreover have "encodeBase64 (peerStatic good) \<noteq> ''''"
    using assms(4) decode_encode [of "[]"] decode_encode [of "peerStatic good"]
    by (metis encodeBase64.simps(1) option.inject)
  ultimately show ?thesis
    using assms(1,2)
    by (simp add: verifyAndPin_def PinOrVerify_def saveLocked_def pinError_def Let_def case_prod_beta)
qed

theorem rejected_key_stays_pinned_witness:
  "\<exists>st'. verifyAndPin SaveOk ''now'' (newPeerConn ''a'' (encodeBase64 [1])) (sampleSession [2]) (\<lparr>ps_path = ''p'', ps_peers = Map.empty\<rparr>, Map.empty)
      = (Inl (Wrapped (Sentinel ErrKeyMismatch) ''a''), st') \<and>
    fst (verifyAndPin SaveOk ''now'' (newPeerConn ''a'' (encodeBase64 [1])) (sampleSession [1]) st') = Inl (Wrapped (Sentinel ErrPeerKeyMismatch) ''a'')"
  using rejected_key_stays_pinned [of "(\<lparr>ps_path = ''p'', ps_peers = Map.empty\<rparr>, Map.empty)" "newPeerConn ''a'' (encodeBase64 [1])"
      "sampleSession [1]" "sampleSession [2]"]
  by (simp add: newPeerConn_def sampleSession_def)

end
