(* ===== verification/Interop_Client.thy ===== *)
theory Interop_Client
  imports Sdk_System Interop_Harness
begin

text \<open>
  The Go client program of the interoperability harness (\<^verbatim>\<open>interop/clients/go/main.go\<close>): a command
  on its input starts a goroutine that calls the library, and what the calls, the callbacks and
  the message channel give is written out as events. With it, an invariant of the library: a pairing
  is reported only with the key that is pinned for the peer.
\<close>

section \<open>Goroutines and events\<close>

text \<open>A goroutine, at the call it makes next or waits in.\<close>

datatype task =
    RequestTask
  | CodeTask chan
  | WaitTask chan
  | AcceptTask string
  | AcceptWaitTask chan string
  | SendTask device_id string

record ('h, 'c) shim =
  sh_client :: "('h, 'c) Client"
  sh_tasks :: "task list"
  sh_out :: "Event list"
  sh_exit :: "nat option"

definition emit :: "Event \<Rightarrow> ('h, 'c) shim \<Rightarrow> ('h, 'c) shim" where
  "emit v sh = sh\<lparr>sh_out := sh_out sh @ [v]\<rparr>"

definition failureEvent :: "string \<Rightarrow> string \<Rightarrow> Event" where
  "failureEvent ty msg = [''event'' \<mapsto> JStr ty, ''message'' \<mapsto> JStr msg]"

definition pairedEvent :: "device_id \<Rightarrow> bytes \<Rightarrow> Event" where
  "pairedEvent i key = [''event'' \<mapsto> JStr ''paired'', ''peer_id'' \<mapsto> JStr i, ''peer_public_key_b64'' \<mapsto> JStr (encodeBase64 key)]"

definition callbackEvent :: "callback \<Rightarrow> Event" where
  "callbackEvent cb =
     (case cb of
        OnReady i \<Rightarrow> [''event'' \<mapsto> JStr ''ready_signal'', ''peer_id'' \<mapsto> JStr i]
      | OnPeerStatus i online \<Rightarrow> [''event'' \<mapsto> JStr ''peer_status'', ''peer_id'' \<mapsto> JStr i, ''online'' \<mapsto> JBool online])"

definition messageEvent :: "Message \<Rightarrow> Event" where
  "messageEvent m = [''event'' \<mapsto> JStr ''message'', ''from'' \<mapsto> JStr (From m), ''payload_b64'' \<mapsto> JStr (encodeBase64 (Payload m))]"

section \<open>Commands\<close>

definition spawn :: "task \<Rightarrow> ('h, 'c) shim \<Rightarrow> ('h, 'c) shim" where
  "spawn t sh = sh\<lparr>sh_tasks := sh_tasks sh @ [t]\<rparr>"

definition handleCommand :: "Event \<Rightarrow> ('h, 'c) shim \<Rightarrow> ('h, 'c) shim" where
  "handleCommand cmd sh =
     (if cmd ''cmd'' = Some (JStr ''request_pair_code'') then spawn RequestTask sh
      else if cmd ''cmd'' = Some (JStr ''accept_pair'') then spawn (AcceptTask (Str ''code'' cmd)) sh
      else if cmd ''cmd'' = Some (JStr ''send'') then spawn (SendTask (Str ''peer_id'' cmd) (Str ''payload_b64'' cmd)) sh
      else if cmd ''cmd'' = Some (JStr ''close'') then sh\<lparr>sh_client := Close (sh_client sh)\<rparr>
      else sh)"

text \<open>A line of the input, \<open>None\<close> when it is not a JSON object. Returning closes the client.\<close>

definition scanLine :: "Event option \<Rightarrow> ('h, 'c) shim \<Rightarrow> ('h, 'c) shim" where
  "scanLine line sh =
     (case line of
        None \<Rightarrow> sh
      | Some cmd \<Rightarrow>
          (let sh1 = handleCommand cmd sh
           in if cmd ''cmd'' = Some (JStr ''close'') then sh1\<lparr>sh_client := Close (sh_client sh1), sh_exit := Some 0\<rparr> else sh1))"

text \<open>
  One call of a goroutine: \<open>None\<close> while it waits, otherwise what it goes on as, the events it writes
  and the client. \<open>ch\<close> is the channel a call makes, \<open>sel\<close> the case its select takes, \<open>errText\<close> the text
  of an error.
\<close>

definition pairOutcome ::
  "(sdk_error \<Rightarrow> string) \<Rightarrow> chan \<Rightarrow> ('h, 'c) Client \<Rightarrow> (task option \<times> Event list \<times> ('h, 'c) Client) option" where
  "pairOutcome errText ch0 c =
     (case waitPair ch0 c of
        (None, _) \<Rightarrow> None
      | (Some (Inl e), c1) \<Rightarrow> Some (None, [failureEvent ''pair_error'' (errText e)], c1)
      | (Some (Inr (i, key)), c1) \<Rightarrow> Some (None, [pairedEvent i key], c1))"

definition closedOutcome :: "('h, 'c) Client \<Rightarrow> (task option \<times> Event list \<times> ('h, 'c) Client) option" where
  "closedOutcome c = Some (None, [failureEvent ''pair_error'' ''relayly: client is closed''], c)"

definition runTask ::
  "('h, 'c) noiseLib \<Rightarrow> (sdk_error \<Rightarrow> string) \<Rightarrow> chan \<Rightarrow> selected \<Rightarrow> task \<Rightarrow> ('h, 'c) Client \<Rightarrow>
    (task option \<times> Event list \<times> ('h, 'c) Client) option" where
  "runTask lib errText ch sel t c =
     (case t of
        RequestTask \<Rightarrow>
          (if c_closed c then closedOutcome (RequestPairCode ch c) else Some (Some (CodeTask ch), [], RequestPairCode ch c))
      | CodeTask ch0 \<Rightarrow>
          (if sel = DoneCase \<and> c_closed c then closedOutcome (removePairWaiter requestKey c)
           else case RequestPairCode_result ch0 ch c of
             (None, _) \<Rightarrow> None
           | (Some (Inl e), c1) \<Rightarrow> Some (None, [failureEvent ''pair_error'' (errText e)], c1)
           | (Some (Inr (code, expires)), c1) \<Rightarrow>
               Some (Some (WaitTask ch), [[''event'' \<mapsto> JStr ''pair_code'', ''code'' \<mapsto> JStr code, ''expires_in'' \<mapsto> JOther]], c1))
      | WaitTask ch0 \<Rightarrow> (if sel = DoneCase \<and> c_closed c then closedOutcome c else pairOutcome errText ch0 c)
      | AcceptTask code \<Rightarrow>
          (if c_closed c then closedOutcome (AcceptPair ch code c) else Some (Some (AcceptWaitTask ch code), [], AcceptPair ch code c))
      | AcceptWaitTask ch0 code \<Rightarrow>
          (if sel = DoneCase \<and> c_closed c then closedOutcome (removePairWaiter code c) else pairOutcome errText ch0 c)
      | SendTask i payloadB64 \<Rightarrow>
          (case decodeBase64 payloadB64 of
             None \<Rightarrow> Some (None, [failureEvent ''send_error'' ''illegal base64 data''], c)
           | Some payload \<Rightarrow>
               (if sel = DoneCase \<and> \<not> c_closed c then None
                else case Send lib sel i payload c of
                  (Some e, c1) \<Rightarrow> Some (None, [failureEvent ''send_error'' (errText e)], c1)
                | (None, c1) \<Rightarrow> Some (None, [[''event'' \<mapsto> JStr ''sent'']], c1))))"

section \<open>The process\<close>

text \<open>
  The options the flags give, and the start: a failed connection is reported and ends the process
  with status 1.
\<close>

definition shimOptions :: "device_id \<Rightarrow> string \<Rightarrow> string \<Rightarrow> bytes \<Rightarrow> Options" where
  "shimOptions deviceID token path key =
     \<lparr>opt_DeviceID = deviceID, opt_DeviceToken = token, opt_PrivateKey = key, opt_PeerStorePath = path,
      opt_PingInterval = 0, opt_ReconnectDelay = 0, opt_MaxReconnectDelay = 0\<rparr>"

definition startShim ::
  "(bytes \<Rightarrow> bytes) \<Rightarrow> (connect_error \<Rightarrow> string) \<Rightarrow> bytes option \<Rightarrow> string option \<Rightarrow> bool \<Rightarrow> string option \<Rightarrow> (unit + sdkMessage) option \<Rightarrow> bool \<Rightarrow>
    device_id \<Rightarrow> string \<Rightarrow> string \<Rightarrow> disk \<Rightarrow> Event list \<times> nat + ('h, 'c) shim" where
  "startShim sbm errText rnd home readOk scheme first announced deviceID token path fs =
     (case GenerateKey rnd of
        Inl e \<Rightarrow> Inl ([failureEvent ''connect_error'' ''generating key''], 1)
      | Inr key \<Rightarrow>
          (case SdkConnect sbm home readOk scheme first announced (shimOptions deviceID token path key) fs of
             Inl e \<Rightarrow> Inl ([failureEvent ''connect_error'' (errText e)], 1)
           | Inr (_, c) \<Rightarrow> Inr \<lparr>sh_client = c, sh_tasks = [], sh_out = [[''event'' \<mapsto> JStr ''ready'']], sh_exit = None\<rparr>))"

datatype shim_event =
    Line "Event option"
  | Run nat chan selected
  | CallbackOut
  | MessageOut
  | Library client_event

text \<open>
  \<open>Run k\<close> is a call of the \<open>k\<close>-th goroutine. \<open>Library\<close> is the work of the library's own loops; the
  calls are the business of the goroutines.
\<close>

fun isCall :: "client_event \<Rightarrow> bool" where
  "isCall (CallSend _ _ _) = True"
| "isCall (CallRequest _) = True"
| "isCall (RequestDone _ _) = True"
| "isCall (CallAccept _ _) = True"
| "isCall (WaitDone _) = True"
| "isCall CancelRequest = True"
| "isCall (CancelAccept _) = True"
| "isCall TakeMessage = True"
| "isCall CallClose = True"
| "isCall _ = False"

fun shim_do ::
  "('h, 'c) noiseLib \<Rightarrow> (bytes \<Rightarrow> bytes) \<Rightarrow> (sdk_error \<Rightarrow> string) \<Rightarrow> shim_event \<Rightarrow> ('h, 'c) shim \<Rightarrow> ('h, 'c) shim option" where
  "shim_do lib sbm errText (Line l) sh = (if sh_exit sh \<noteq> None then None else Some (scanLine l sh))"
| "shim_do lib sbm errText (Run k ch sel) sh =
     (if sh_exit sh \<noteq> None \<or> k \<ge> length (sh_tasks sh) then None
      else case runTask lib errText ch sel (sh_tasks sh ! k) (sh_client sh) of
        None \<Rightarrow> None
      | Some (t, evs, c) \<Rightarrow>
          Some (sh\<lparr>sh_client := c, sh_out := sh_out sh @ evs,
            sh_tasks := take k (sh_tasks sh) @ (case t of None \<Rightarrow> [] | Some t' \<Rightarrow> [t']) @ drop (k + 1) (sh_tasks sh)\<rparr>))"
| "shim_do lib sbm errText CallbackOut sh =
     (case calls (sh_client sh) of
        [] \<Rightarrow> None
      | cb # cbs \<Rightarrow> Some (emit (callbackEvent cb) (sh\<lparr>sh_client := (sh_client sh)\<lparr>calls := cbs\<rparr>\<rparr>)))"
| "shim_do lib sbm errText MessageOut sh =
     (case messages (sh_client sh) of
        [] \<Rightarrow> None
      | m # ms \<Rightarrow> Some (emit (messageEvent m) (sh\<lparr>sh_client := (sh_client sh)\<lparr>messages := ms\<rparr>\<rparr>)))"
| "shim_do lib sbm errText (Library e) sh =
     (if isCall e then None else map_option (\<lambda>c. sh\<lparr>sh_client := c\<rparr>) (sdk_do lib sbm e (sh_client sh)))"

section \<open>Results of pairing\<close>

text \<open>
  A result without error in a channel is a code, or a peer with the key that is pinned for it.
\<close>

definition result_ok :: "('h, 'c) Client \<Rightarrow> PairResult \<Rightarrow> bool" where
  "result_ok c r \<longleftrightarrow> res_Error r = None \<longrightarrow> res_PeerID r = '''' \<and> res_PeerPublicKey r = [] \<or>
     pinned c (res_PeerID r) = Some (encodeBase64 (res_PeerPublicKey r))"

definition results_inv :: "('h, 'c) Client \<Rightarrow> bool" where
  "results_inv c \<longleftrightarrow> (\<forall>ch. \<forall>r \<in> set (chans c ch). result_ok c r)"

lemma results_frame:
  assumes "results_inv c" and "\<And>ch. set (chans c' ch) \<subseteq> set (chans c ch)" and "peerStore c' = peerStore c"
  shows "results_inv c'"
  using assms by (auto simp: results_inv_def result_ok_def pinned_def subset_iff)

lemma results_notify: "results_inv (notify ch r c) \<longleftrightarrow> results_inv c \<and> result_ok c r"
  by (auto simp: results_inv_def notify_def result_ok_def pinned_def split: if_splits)

lemma results_core:
  "results_inv (setPeerConn i p c) = results_inv c" "results_inv (pushSend f c) = results_inv c"
  "results_inv (enqueueBinary k b c) = results_inv c" "results_inv (c\<lparr>c_sessions := H\<rparr>) = results_inv c"
  "results_inv (c\<lparr>calls := cs\<rparr>) = results_inv c" "results_inv (c\<lparr>pairWaiters := ws\<rparr>) = results_inv c"
  "results_inv (c\<lparr>sends := fs\<rparr>) = results_inv c" "results_inv (c\<lparr>messages := ms\<rparr>) = results_inv c"
  "results_inv (putPairWaiter key w c) = results_inv c" "results_inv (removePairWaiter key c) = results_inv c"
  "results_inv (Close c) = results_inv c" "results_inv (pingLoop c) = results_inv c"
  by (simp_all add: results_inv_def result_ok_def pinned_def setPeerConn_def pushSend_def enqueueBinary_def putPairWaiter_def
      removePairWaiter_def Close_def pingLoop_def)

lemma failed_ok [simp]: "res_Error r = Some e \<Longrightarrow> result_ok c r"
  by (simp add: result_ok_def)

lemma results_handlePairCode: "results_inv c \<Longrightarrow> results_inv (handlePairCode frame c)"
  by (auto simp: handlePairCode_def takePairWaiter_def results_notify results_core result_ok_def emptyResult_def split: option.split)

lemma results_handlePairComplete: "results_inv c \<Longrightarrow> results_inv (handlePairComplete lib rnd n frame c)"
  by (auto simp: handlePairComplete_def takePairWaiter_def results_notify results_core Let_def split: option.split sum.split prod.split)

lemma results_handlePeerStatus: "results_inv c \<Longrightarrow> results_inv (handlePeerStatus lib rnd n frame c)"
  by (auto simp: handlePeerStatus_def results_core Let_def getPeerConn_def split: option.split sum.split prod.split)

lemma results_handleError: "results_inv c \<Longrightarrow> results_inv (handleError frame c)"
proof -
  have "results_inv c \<Longrightarrow> results_inv (fold (\<lambda>(code, w). notify (wt_ch w) (emptyResult\<lparr>res_Error := Some e\<rparr>)) ws c)" for e ws
    by (induction ws arbitrary: c) (auto simp: results_notify)
  then show "results_inv c \<Longrightarrow> results_inv (handleError frame c)" by (simp add: handleError_def Let_def results_core)
qed

text \<open>The one place where a peer is reported: its key was verified or pinned just before.\<close>

lemma verifyAndPin_key:
  assumes "verifyAndPin res t p s st = (Inr pub, st')"
  shows "Get (pc_id p) (fst st') = Some (encodeBase64 pub)"
proof -
  have "pub = peerStatic s"
    using assms by (auto simp: verifyAndPin_def Let_def publicKeyFromBase64_def decode_encode split: option.splits if_splits sum.splits prod.splits)
  with verifyAndPin_pins(2) [OF assms] show ?thesis by simp
qed

lemma results_store:
  assumes "results_inv c" and "\<And>j v. Get j (fst (peerStore c)) = Some v \<Longrightarrow> Get j (fst st) = Some v"
  shows "results_inv (c\<lparr>peerStore := st\<rparr>)"
  using assms by (auto simp: results_inv_def result_ok_def pinned_def)

lemma results_resolve: "results_inv c \<Longrightarrow> results_inv (resolveHandshake res t i p k s w e c)"
proof -
  assume inv: "results_inv c"
  obtain vr st where vp: "verifyAndPin res t p s (peerStore c) = (vr, st)" by (meson surj_pair)
  have st: "results_inv (c\<lparr>peerStore := st\<rparr>)" by (rule results_store [OF inv]) (rule verifyAndPin_pins(1) [OF vp])
  have ok: "result_ok c' (emptyResult\<lparr>res_PeerID := pc_id p, res_PeerPublicKey := pub\<rparr>)"
    if "vr = Inr pub" "peerStore c' = st" for pub and c' :: "('a, 'b) Client"
    using verifyAndPin_key [of res t p s "peerStore c" pub st] vp that by (simp add: result_ok_def emptyResult_def pinned_def)
  have store: "peerStore (setPeerConn j q x) = peerStore x" for j q and x :: "('a, 'b) Client" by (simp add: setPeerConn_def)
  have sess: "results_inv (c\<lparr>peerStore := st, c_sessions := H\<rparr>)" for H using st by (simp add: results_core)
  show ?thesis
    using inv st sess ok store
    by (auto simp: resolveHandshake_def vp Let_def results_core results_notify takeFirstPairWaiter_def emptyResult_def
        split: option.split sum.split prod.split)
qed


lemma results_envelopes:
  "results_inv c \<Longrightarrow> results_inv (handleHandshakeEnvelope lib res t rnd now n pick payload c)"
  "results_inv c \<Longrightarrow> results_inv (handleTransportEnvelope lib now pick payload c)"
  by (auto simp: handleHandshakeEnvelope_def handleTransportEnvelope_def results_core results_resolve deliver_def Let_def
      split: option.split prod.split sum.split)

lemma results_welcome: "results_inv c \<Longrightarrow> results_inv (applyWelcomePeers ps c)"
  by (induction ps arbitrary: c) (simp_all add: results_core)

lemma results_receive: "results_inv c \<Longrightarrow> chans c ch = r # rs \<Longrightarrow> results_inv (c\<lparr>chans := (chans c)(ch := rs)\<rparr>)"
  by (erule results_frame) auto

lemma results_calls:
  "results_inv c \<Longrightarrow> results_inv (snd (dial sbm first ok c))" "results_inv c \<Longrightarrow> results_inv (snd (Send lib sel i m c))"
  "results_inv c \<Longrightarrow> results_inv (RequestPairCode ch c)" "results_inv c \<Longrightarrow> results_inv (AcceptPair ch code c)"
  "results_inv c \<Longrightarrow> results_inv (snd (RequestPairCode_result ch ch' c))" "results_inv c \<Longrightarrow> results_inv (snd (waitPair ch c))"
  by (auto simp: dial_def Send_def RequestPairCode_def AcceptPair_def RequestPairCode_result_def waitPair_def Let_def results_core
      results_welcome results_receive split: option.split sum.split prod.split list.split selected.split)

lemma results_do: "results_inv c \<Longrightarrow> sdk_do lib sbm e c = Some c' \<Longrightarrow> results_inv c'"
  by (cases e) (auto simp: dispatch_def readBinary_def writeLoop_def results_handlePairCode results_handlePairComplete
      results_handlePeerStatus results_handleError results_envelopes results_calls results_core split: if_splits list.splits prod.splits)

text \<open>Pins are never taken back.\<close>

lemma store_simps [simp]:
  "peerStore (setPeerConn i p c) = peerStore c" "peerStore (pushSend f c) = peerStore c" "peerStore (enqueueBinary k b c) = peerStore c"
  "peerStore (notify ch r c) = peerStore c" "peerStore (putPairWaiter key w c) = peerStore c" "peerStore (removePairWaiter key c) = peerStore c"
  by (simp_all add: setPeerConn_def pushSend_def enqueueBinary_def notify_def putPairWaiter_def removePairWaiter_def)

lemma store_welcome [simp]: "peerStore (applyWelcomePeers ps c) = peerStore c"
  by (induction ps arbitrary: c) simp_all

lemma store_fold [simp]: "peerStore (fold (\<lambda>(code, w). notify (wt_ch w) r) ws c) = peerStore c"
  by (induction ws arbitrary: c) auto

lemma store_calls:
  "peerStore (snd (dial sbm first ok c)) = peerStore c" "peerStore (snd (Send lib sel i m c)) = peerStore c"
  "peerStore (RequestPairCode ch c) = peerStore c" "peerStore (AcceptPair ch code c) = peerStore c"
  "peerStore (snd (RequestPairCode_result ch ch' c)) = peerStore c" "peerStore (snd (waitPair ch c)) = peerStore c"
  "peerStore (dispatch lib rnd n frame c) = peerStore c" "peerStore (handleTransportEnvelope lib now pick payload c) = peerStore c"
  by (auto simp: dial_def Send_def RequestPairCode_def AcceptPair_def RequestPairCode_result_def waitPair_def Let_def dispatch_def
      handlePairCode_def handlePairComplete_def handlePeerStatus_def handleError_def handleTransportEnvelope_def deliver_def takePairWaiter_def
      split: option.split sum.split prod.split list.split selected.split)

lemma pins_handshake:
  assumes "pinned c j = Some v"
  shows "pinned (handleHandshakeEnvelope lib res t rnd now n pick payload c) j = Some v"
proof -
  have "pinned (resolveHandshake res t i p k s w e x) j = Some v" if "peerStore x = peerStore c" for i p k s w e and x :: "('a, 'b) Client"
  proof -
    obtain vr st where vp: "verifyAndPin res t p s (peerStore x) = (vr, st)" by (meson surj_pair)
    from verifyAndPin_pins(1) [OF vp] assms that show ?thesis by (simp add: pinned_def resolve_fields(3) [OF vp])
  qed
  moreover have "pinned x j = Some v" if "peerStore x = peerStore c" for x :: "('a, 'b) Client" using assms that by (simp add: pinned_def)
  ultimately show ?thesis
    by (auto simp: handleHandshakeEnvelope_def Let_def split: option.split prod.split)
qed

lemma pins_do: "sdk_do lib sbm e c = Some c' \<Longrightarrow> pinned c j = Some v \<Longrightarrow> pinned c' j = Some v"
proof (cases e)
  case (BinaryFromServer res t rnd now n pick frame)
  then show "sdk_do lib sbm e c = Some c' \<Longrightarrow> pinned c j = Some v \<Longrightarrow> pinned c' j = Some v"
    using pins_handshake [of c j v] by (auto simp: readBinary_def store_calls pinned_def split: if_splits prod.splits)
qed (auto simp: pinned_def store_calls writeLoop_def pingLoop_def Close_def split: if_splits list.splits)


section \<open>What the process reports\<close>

inductive shim_step :: "('h, 'c) noiseLib \<Rightarrow> (bytes \<Rightarrow> bytes) \<Rightarrow> (sdk_error \<Rightarrow> string) \<Rightarrow> ('h, 'c) shim \<Rightarrow> ('h, 'c) shim \<Rightarrow> bool"
  for lib :: "('h, 'c) noiseLib" and sbm :: "bytes \<Rightarrow> bytes" and errText :: "sdk_error \<Rightarrow> string" where
  shim_event: "shim_do lib sbm errText e sh = Some sh' \<Longrightarrow> shim_step lib sbm errText sh sh'"

inductive_cases shim_stepE [elim]: "shim_step lib sbm errText sh sh'"

definition shim_started :: "(bytes \<Rightarrow> bytes) \<Rightarrow> ('h, 'c) shim \<Rightarrow> bool" where
  "shim_started sbm sh \<longleftrightarrow> (\<exists>ctxt rnd home readOk scheme first announced deviceID token path fs.
     startShim sbm ctxt rnd home readOk scheme first announced deviceID token path fs = Inr sh)"

text \<open>A report of a pairing names a peer with the key that is pinned for it.\<close>

definition report_ok :: "('h, 'c) Client \<Rightarrow> Event \<Rightarrow> bool" where
  "report_ok c e \<longleftrightarrow> EventType e = ''paired'' \<longrightarrow> Str ''peer_id'' e = '''' \<or>
     pinned c (Str ''peer_id'' e) = Some (Str ''peer_public_key_b64'' e)"

definition shim_inv :: "('h, 'c) shim \<Rightarrow> bool" where
  "shim_inv sh \<longleftrightarrow> results_inv (sh_client sh) \<and> (\<forall>e \<in> set (sh_out sh). report_ok (sh_client sh) e)"

lemma store_Close [simp]: "peerStore (Close c) = peerStore c"
  by (simp add: Close_def)

lemma report_other [simp]:
  "EventType e \<noteq> ''paired'' \<Longrightarrow> report_ok c e"
  by (simp add: report_ok_def)

lemma event_types [simp]:
  "EventType (failureEvent ty msg) = ty" "EventType (callbackEvent cb) \<noteq> ''paired''" "EventType (messageEvent m) = ''message''"
  by (auto simp: EventType_def Str_def failureEvent_def callbackEvent_def messageEvent_def split: callback.split)

lemma report_keeps: "report_ok c e \<Longrightarrow> (\<And>j v. pinned c j = Some v \<Longrightarrow> pinned c' j = Some v) \<Longrightarrow> report_ok c' e"
  by (auto simp: report_ok_def)

lemma pairOutcome_ok:
  assumes "results_inv c" and "pairOutcome errText ch c = Some (t, evs, c')"
  shows "results_inv c'" and "peerStore c' = peerStore c" and "e \<in> set evs \<Longrightarrow> report_ok c' e"
proof -
  obtain r rs where ch: "chans c ch = r # rs" and c': "c' = c\<lparr>chans := (chans c)(ch := rs)\<rparr>"
    and evs: "evs = [case res_Error r of Some e \<Rightarrow> failureEvent ''pair_error'' (errText e) | None \<Rightarrow> pairedEvent (res_PeerID r) (res_PeerPublicKey r)]"
    using assms(2) by (auto simp: pairOutcome_def waitPair_def split: list.splits option.splits)
  show "results_inv c'" unfolding c' by (rule results_receive [OF assms(1) ch])
  show "peerStore c' = peerStore c" by (simp add: c')
  have "result_ok c r" using assms(1) ch unfolding results_inv_def by (metis list.set_intros(1))
  then show "report_ok c' e" if "e \<in> set evs"
    using that by (auto simp: evs c' result_ok_def report_ok_def pinned_def pairedEvent_def EventType_def Str_def failureEvent_def split: option.splits)
qed

lemma runTask_ok:
  assumes "results_inv c" and "runTask lib errText ch sel t c = Some (t', evs, c')"
  shows "results_inv c'" and "peerStore c' = peerStore c" and "e \<in> set evs \<Longrightarrow> report_ok c' e"
proof -
  note closed = closedOutcome_def results_calls results_core store_calls
  have "results_inv c' \<and> peerStore c' = peerStore c \<and> (\<forall>e \<in> set evs. report_ok c' e)"
  proof (cases t)
    case (WaitTask ch0)
    then show ?thesis using assms pairOutcome_ok [OF assms(1), of errText ch0 t' evs c'] by (auto simp: runTask_def closed split: if_splits)
  next
    case (AcceptWaitTask ch0 code)
    then show ?thesis using assms pairOutcome_ok [OF assms(1), of errText ch0 t' evs c'] by (auto simp: runTask_def closed split: if_splits)
  next
    case (CodeTask ch0)
    then show ?thesis using assms results_calls(5) [of c ch0 ch] store_calls(5) [of ch0 ch c]
      by (auto simp: runTask_def closedOutcome_def results_core EventType_def Str_def report_ok_def failureEvent_def
          split: if_splits prod.splits option.splits sum.splits)
  next
    case (SendTask i b64)
    then show ?thesis using assms results_calls(2) [of c lib sel i "the (decodeBase64 b64)"] store_calls(2) [of lib sel i "the (decodeBase64 b64)" c]
      by (auto simp: runTask_def EventType_def Str_def report_ok_def failureEvent_def split: if_splits prod.splits option.splits)
  qed (use assms in \<open>auto simp: runTask_def closed split: if_splits\<close>)
  then show "results_inv c'" and "peerStore c' = peerStore c" and "e \<in> set evs \<Longrightarrow> report_ok c' e" by auto
qed

lemma shim_inv_do:
  assumes inv: "shim_inv sh" and run: "shim_do lib sbm errText e sh = Some sh'"
  shows "shim_inv sh'"
proof (cases e)
  case (Line l)
  with inv run show ?thesis
    by (auto simp: scanLine_def handleCommand_def spawn_def Let_def shim_inv_def results_core report_ok_def pinned_def split: option.splits if_splits)
next
  case (Run k ch sel)
  with run obtain t evs c where t: "runTask lib errText ch sel (sh_tasks sh ! k) (sh_client sh) = Some (t, evs, c)"
    and sh': "sh_client sh' = c" "sh_out sh' = sh_out sh @ evs"
    by (auto split: if_splits option.splits)
  note ok = runTask_ok [OF _ t]
  from inv ok(1,3) report_keeps [of "sh_client sh" _ c] ok(2) show ?thesis
    by (auto simp: shim_inv_def sh' pinned_def)
next
  case (Library ev)
  with run obtain c where c: "sdk_do lib sbm ev (sh_client sh) = Some c" "sh' = sh\<lparr>sh_client := c\<rparr>" by (auto split: if_splits)
  with inv results_do [OF _ c(1)] report_keeps [OF _ pins_do [OF c(1)]] show ?thesis by (auto simp: shim_inv_def)
qed (use inv run in \<open>auto simp: shim_inv_def emit_def results_core report_ok_def pinned_def split: list.splits\<close>)

lemma shim_inv_started: "shim_started sbm sh \<Longrightarrow> shim_inv sh"
proof -
  assume "shim_started sbm sh"
  then obtain ctext rnd home readOk scheme first announced deviceID token path fs where
    st: "startShim sbm ctext rnd home readOk scheme first announced deviceID token path fs = Inr sh" unfolding shim_started_def by blast
  then obtain key where "GenerateKey rnd = Inr key" by (cases "GenerateKey rnd") (auto simp: startShim_def)
  with st obtain c o' sch where
    c: "SdkConnect sbm home readOk scheme first announced o' fs = Inr (sch, c)" and sh: "sh_client sh = c" "sh_out sh = [[''event'' \<mapsto> JStr ''ready'']]"
    by (cases "SdkConnect sbm home readOk scheme first announced (shimOptions deviceID token path key) fs :: connect_error + string \<times> ('a, 'b) Client")
      (auto simp: startShim_def)
  then obtain ps where "c = snd (dial sbm first announced (newClient o' (ps, fs)))"
    by (auto simp: SdkConnect_def split: option.splits sum.splits prod.splits) (metis snd_conv)
  moreover have "results_inv (newClient o' (ps, fs))" by (simp add: results_inv_def newClient_def)
  ultimately have "results_inv c" using results_calls(1) by blast
  with sh show ?thesis by (simp add: shim_inv_def report_ok_def EventType_def Str_def)
qed

interpretation shim_sys: inductive_invariant "shim_started sbm" "shim_step lib sbm errText" shim_inv
  for lib :: "('h, 'c) noiseLib" and sbm :: "bytes \<Rightarrow> bytes" and errText :: "sdk_error \<Rightarrow> string"
  by unfold_locales (auto intro: shim_inv_started shim_inv_do)


fun shim_runs ::
  "('h, 'c) noiseLib \<Rightarrow> (bytes \<Rightarrow> bytes) \<Rightarrow> (sdk_error \<Rightarrow> string) \<Rightarrow> shim_event list \<Rightarrow> ('h, 'c) shim \<Rightarrow> ('h, 'c) shim option" where
  "shim_runs lib sbm errText [] sh = Some sh"
| "shim_runs lib sbm errText (e # es) sh = (case shim_do lib sbm errText e sh of None \<Rightarrow> None | Some sh' \<Rightarrow> shim_runs lib sbm errText es sh')"

lemma shim_runs_reach:
  "shim_runs lib sbm errText es sh = Some sh' \<Longrightarrow> reach (shim_started sbm) (shim_step lib sbm errText) sh \<Longrightarrow>
     reach (shim_started sbm) (shim_step lib sbm errText) sh'"
proof (induction es arbitrary: sh)
  case (Cons e es)
  then obtain u where u: "shim_do lib sbm errText e sh = Some u" "shim_runs lib sbm errText es u = Some sh'" by (auto split: option.splits)
  from Cons.IH [OF u(2) reach_step [OF Cons.prems(2) shim_event [OF u(1)]]] show ?case .
qed simp

text \<open>A run: the process is asked for a code, gets it, and is paired by a peer that accepts it.\<close>

definition sample_shim_start :: "Event list \<times> nat + (bool \<times> nat \<times> bytes \<times> bytes, nat) shim" where
  "sample_shim_start = startShim id (\<lambda>_. '''') (Some (replicate 32 2)) None True (Some ''ws'')
     (Some (Inr ((emptyMessage ''welcome'')\<lparr>m_ProtocolVersion := 1\<rparr>))) True ''b'' ''t'' ''p'' Map.empty"

definition sample_commands :: "shim_event list" where
  "sample_commands =
     [Line (Some [''cmd'' \<mapsto> JStr ''request_pair_code'']),
      Run 0 0 SendCase,
      Library (FromServer [] 0 ((emptyMessage ''pair_code'')\<lparr>m_Code := ''123456''\<rparr>)),
      Run 0 1 SendCase,
      Library (FromServer [] 0 ((emptyMessage ''pair_complete'')\<lparr>m_Code := ''123456'', m_PeerID := ''a''\<rparr>)),
      Library (BinaryFromServer SaveOk ''now'' [] 0 0 ''a'' [1, 9]),
      Library (BinaryFromServer SaveOk ''now'' [] 0 1 ''a'' (1 # replicate 32 5)),
      Run 0 2 SendCase]"

definition sample_shim :: "(bool \<times> nat \<times> bytes \<times> bytes, nat) shim" where
  "sample_shim = \<lparr>sh_client = newClient (shimOptions ''b'' ''t'' ''p'' (replicate 32 2)) (\<lparr>ps_path = ''p'', ps_peers = Map.empty\<rparr>, Map.empty),
     sh_tasks = [], sh_out = [[''event'' \<mapsto> JStr ''ready'']], sh_exit = None\<rparr>"

lemma sample_shim_started: "sample_shim_start = Inr sample_shim"
  by (simp add: sample_shim_start_def startShim_def GenerateKey_def SdkConnect_def validateOptions_def shimOptions_def peerStorePath_def
      LoadPeerStore_def dial_def expandHome_def emptyMessage_def protocolVersion_def sample_shim_def newClient_def Let_def)

lemma sample_shim_reach: "reach (shim_started id) (shim_step lib id errText) sample_shim"
  by (rule reach_init) (use sample_shim_started in \<open>unfold sample_shim_start_def shim_started_def, blast\<close>)

lemma sample_paired:
  "\<exists>sh. shim_runs plainLib id (\<lambda>_. '''') sample_commands sample_shim = Some sh \<and> pairedEvent ''a'' (replicate 32 5) \<in> set (sh_out sh)"
  apply (simp add: sample_commands_def sample_shim_def newClient_def scanLine_def handleCommand_def spawn_def runTask_def
      RequestPairCode_def RequestPairCode_result_def putPairWaiter_def requestKey_def pushSend_def dispatch_def emptyMessage_def handlePairCode_def takePairWaiter_def
      notify_def emptyResult_def Let_def handlePairComplete_def setPeerConn_def setFirstPairWaiter_def newPeerConn_def)
  apply (simp add: sdk_defs shimOptions_def)
  by (simp add: sdk_defs verifyAndPin_first case_prod_beta swapPair_def notify_def pairOutcome_def waitPair_def)

section \<open>Properties\<close>

text \<open>C15: Whatever commands the Go client program is given and whatever the server and the peers
  send, a pairing it reports names the peer together with the very key that is pinned for that
  peer, then and ever after. (A report without a peer can only come from a server that hands out
  the library's internal name for a request as a code.)\<close>

theorem paired_event_is_pinned:
  assumes "reach (shim_started sbm) (shim_step lib sbm errText) sh" and "e \<in> set (sh_out sh)"
    and "EventType e = ''paired''" and "Str ''peer_id'' e \<noteq> ''''"
  shows "pinned (sh_client sh) (Str ''peer_id'' e) = Some (Str ''peer_public_key_b64'' e)"
  using shim_sys.reach_inv [OF assms(1)] assms(2-4) by (auto simp: shim_inv_def report_ok_def)

theorem paired_event_is_pinned_witness:
  "\<exists>sh. shim_runs plainLib id (\<lambda>_. '''') sample_commands sample_shim = Some sh \<and>
     pinned (sh_client sh) ''a'' = Some (encodeBase64 (replicate 32 5))"
proof -
  obtain sh where run: "shim_runs plainLib id (\<lambda>_. '''') sample_commands sample_shim = Some sh"
    and out: "pairedEvent ''a'' (replicate 32 5) \<in> set (sh_out sh)" using sample_paired by blast
  note fields = pairedEvent_def EventType_def Str_def
  from paired_event_is_pinned [OF shim_runs_reach [OF run sample_shim_reach] out] run show ?thesis by (simp add: fields)
qed


end
