(* ===== verification/Example_Programs.thy ===== *)
theory Example_Programs
  imports Relay_Control Sdk_Client
begin

text \<open>
  The example programs (\<^verbatim>\<open>examples/go\<close>): the credentials file they share (\<^verbatim>\<open>device.go\<close>, the same
  file in all four), the configuration and the echo loop of \<^verbatim>\<open>basic\<close>, the lines of \<^verbatim>\<open>chat\<close>, the
  clipboards of \<^verbatim>\<open>clipboard-sync\<close>, and \<^verbatim>\<open>pair-and-send\<close>. Console output is left out.
\<close>

section \<open>Device credentials\<close>

record exampleCreds =
  ex_DeviceID :: device_id
  ex_DeviceToken :: string

text \<open>A file that can be read either decodes to credentials (missing fields are empty) or does not.\<close>

datatype credFile = CredJSON exampleCreds | NotCreds

type_synonym credFiles = "string \<Rightarrow> credFile option"

record urlParts =
  u_Scheme :: string
  u_Host :: string
  u_Path :: string
  u_RawQuery :: string

text \<open>\<open>parsed\<close> is the result of \<^verbatim>\<open>url.Parse\<close>.\<close>

definition devicesEndpoint :: "urlParts option \<Rightarrow> string + urlParts" where
  "devicesEndpoint parsed =
     (case parsed of
        None \<Rightarrow> Inl ''invalid server URL''
      | Some u \<Rightarrow>
          Inr (u\<lparr>u_Scheme := (if u_Scheme u = ''ws'' then ''http'' else if u_Scheme u = ''wss'' then ''https'' else u_Scheme u),
                 u_Path := ''/api/v1/devices'', u_RawQuery := ''''\<rparr>))"

text \<open>
  \<open>post\<close> is the server: the status of its response and the credentials in the body, \<open>None\<close> when it
  does not decode. The second result says whether the server was asked.
\<close>

definition saveCreds :: "bool \<Rightarrow> write_result \<Rightarrow> string \<Rightarrow> exampleCreds \<Rightarrow> credFiles \<Rightarrow> (string + exampleCreds) \<times> credFiles" where
  "saveCreds mkdirOk res path creds fs =
     (if \<not> mkdirOk then (Inl ''creating credentials directory'', fs)
      else case res of
        WriteOk \<Rightarrow> (Inr creds, fs(path \<mapsto> CredJSON creds))
      | WriteFailed \<Rightarrow> (Inl ''saving device credentials'', fs)
      | WriteTorn n \<Rightarrow> (Inl ''saving device credentials'', fs(path \<mapsto> NotCreds)))"

definition savedCreds :: "string \<Rightarrow> credFiles \<Rightarrow> exampleCreds option" where
  "savedCreds path fs =
     (case fs path of
        Some (CredJSON creds) \<Rightarrow> (if ex_DeviceID creds \<noteq> '''' \<and> ex_DeviceToken creds \<noteq> '''' then Some creds else None)
      | _ \<Rightarrow> None)"

definition registerOrLoadDevice ::
  "string option \<Rightarrow> urlParts option \<Rightarrow> (urlParts \<Rightarrow> string \<Rightarrow> string + nat \<times> exampleCreds option) \<Rightarrow> bool \<Rightarrow> write_result \<Rightarrow>
    string \<Rightarrow> string \<Rightarrow> credFiles \<Rightarrow> (string + exampleCreds) \<times> bool \<times> credFiles" where
  "registerOrLoadDevice home parsed post mkdirOk res credsPath name fs =
     (let path = expandHome home credsPath in
      case savedCreds path fs of
        Some creds \<Rightarrow> (Inr creds, False, fs)
      | None \<Rightarrow>
          (case devicesEndpoint parsed of
             Inl e \<Rightarrow> (Inl e, False, fs)
           | Inr apiURL \<Rightarrow>
               (case post apiURL name of
                  Inl e \<Rightarrow> (Inl (''registering device: '' @ e), True, fs)
                | Inr (status, body) \<Rightarrow>
                    (if status \<noteq> 200 then (Inl ''registering device: server returned an error'', True, fs)
                     else case body of
                       None \<Rightarrow> (Inl ''decoding device response'', True, fs)
                     | Some creds \<Rightarrow> (let (r, fs') = saveCreds mkdirOk res path creds fs in (r, True, fs'))))))"

section \<open>Starting a program\<close>

datatype fatal =
    KeyFatal key_error
  | RegistrationFatal string
  | ConnectFatal connect_error
  | PairCodeFatal sdk_error
  | PairingFatal sdk_error
  | SendFatal sdk_error
  | UsageFatal

definition exampleOptions :: "exampleCreds \<Rightarrow> bytes \<Rightarrow> Options" where
  "exampleOptions d key =
     \<lparr>opt_DeviceID = ex_DeviceID d, opt_DeviceToken = ex_DeviceToken d, opt_PrivateKey = key, opt_PeerStorePath = '''',
      opt_PingInterval = 0, opt_ReconnectDelay = 0, opt_MaxReconnectDelay = 0\<rparr>"

text \<open>
  The part all four programs begin with: the key, then the credentials, then the connection. \<open>M\<close> is
  the machine's share of it, and the files are the key files and the credentials files.
\<close>

record machine =
  mc_home :: "string option"
  mc_readOk :: bool
  mc_mkdirOk :: bool
  mc_write :: write_result
  mc_rnd :: "bytes option"

definition openClient ::
  "machine \<Rightarrow> urlParts option \<Rightarrow> (urlParts \<Rightarrow> string \<Rightarrow> string + nat \<times> exampleCreds option) \<Rightarrow> (Options \<Rightarrow> connect_error + 'a) \<Rightarrow>
    string \<Rightarrow> string \<Rightarrow> string \<Rightarrow> filesystem \<times> credFiles \<Rightarrow> (fatal + exampleCreds \<times> 'a) \<times> filesystem \<times> credFiles" where
  "openClient M parsed post connect keyPath credsPath name fs =
     (case LoadOrGenerateKey (mc_home M) (mc_readOk M) (mc_mkdirOk M) (mc_write M) (mc_rnd M) keyPath (fst fs) of
        (Inl e, kf) \<Rightarrow> (Inl (KeyFatal e), kf, snd fs)
      | (Inr key, kf) \<Rightarrow>
          (case registerOrLoadDevice (mc_home M) parsed post (mc_mkdirOk M) (mc_write M) credsPath name (snd fs) of
             (Inl e, _, cf) \<Rightarrow> (Inl (RegistrationFatal e), kf, cf)
           | (Inr d, _, cf) \<Rightarrow>
               (case connect (exampleOptions d key) of
                  Inl e \<Rightarrow> (Inl (ConnectFatal e), kf, cf)
                | Inr client \<Rightarrow> (Inr (d, client), kf, cf))))"

text \<open>Pairing in \<^verbatim>\<open>chat\<close> and \<^verbatim>\<open>clipboard-sync\<close>: accept the code given, or ask for one and wait.\<close>

definition pairUp ::
  "(string \<Rightarrow> sdk_error + device_id) \<Rightarrow> (sdk_error + string) \<Rightarrow> (string \<Rightarrow> sdk_error + device_id) \<Rightarrow> string \<Rightarrow> fatal + device_id" where
  "pairUp accept request wait code =
     (if code \<noteq> '''' then (case accept code of Inl e \<Rightarrow> Inl (PairingFatal e) | Inr peer \<Rightarrow> Inr peer)
      else case request of
        Inl e \<Rightarrow> Inl (PairCodeFatal e)
      | Inr short \<Rightarrow> (case wait short of Inl e \<Rightarrow> Inl (PairingFatal e) | Inr peer \<Rightarrow> Inr peer))"

section \<open>The basic example\<close>

record basicConfig =
  bc_ServerURL :: string
  bc_Name :: string
  bc_KeyPath :: string
  bc_CredsPath :: string

text \<open>\<open>flag name\<close> is the value given on the command line, \<open>getenv\<close> the environment (empty when unset).\<close>

definition flagOr :: "(string \<Rightarrow> string option) \<Rightarrow> string \<Rightarrow> string \<Rightarrow> string" where
  "flagOr flag name dflt = (case flag name of Some v \<Rightarrow> v | None \<Rightarrow> dflt)"

definition envOr :: "(string \<Rightarrow> string) \<Rightarrow> string \<Rightarrow> string \<Rightarrow> string" where
  "envOr getenv name v = (if getenv name \<noteq> '''' then getenv name else v)"

definition LoadConfig :: "(string \<Rightarrow> string option) \<Rightarrow> (string \<Rightarrow> string) \<Rightarrow> basicConfig" where
  "LoadConfig flag getenv =
     \<lparr>bc_ServerURL = envOr getenv ''RELAYLY_SERVER'' (flagOr flag ''server'' ''wss://relay.example.com/ws''),
      bc_Name = envOr getenv ''RELAYLY_DEVICE_NAME'' (flagOr flag ''device-name'' ''my-laptop''),
      bc_KeyPath = envOr getenv ''RELAYLY_KEY_PATH'' (flagOr flag ''key-path'' ''~/.relayly/device.key''),
      bc_CredsPath = envOr getenv ''RELAYLY_CREDS_PATH'' (flagOr flag ''creds-path'' ''~/.relayly/basic-device.json'')\<rparr>"

definition asBytes :: "string \<Rightarrow> bytes" where
  "asBytes s = map of_char s"

datatype programInput = Incoming Message | MessagesClosed | Signal

definition echoReply :: "bytes \<Rightarrow> bytes" where
  "echoReply payload = asBytes ''echo: '' @ payload"

text \<open>What the echo loop sends, and whether it has returned. A failed send is only logged.\<close>

fun echoLoop :: "programInput list \<Rightarrow> (device_id \<times> bytes) list \<times> bool" where
  "echoLoop [] = ([], False)"
| "echoLoop (Incoming m # ins) = (let (out, fin) = echoLoop ins in ((From m, echoReply (Payload m)) # out, fin))"
| "echoLoop (MessagesClosed # ins) = ([], True)"
| "echoLoop (Signal # ins) = ([], True)"

section \<open>The chat example\<close>

text \<open>\<^verbatim>\<open>strings.TrimSpace\<close> on UTF-8 text: the characters Unicode counts as space, as their bytes.\<close>

definition spaces :: "string list" where
  "spaces =
     map (\<lambda>n. [char_of n]) [9, 10, 11, 12, 13, 32 :: nat] @
     map (map char_of) ([[0xC2, 0x85], [0xC2, 0xA0], [0xE1, 0x9A, 0x80]] @ map (\<lambda>n. [0xE2, 0x80, n]) ([0x80..<0x8B] @ [0xA8, 0xA9, 0xAF]) @
       [[0xE2, 0x81, 0x9F], [0xE3, 0x80, 0x80 :: nat]])"

definition startsWith :: "string \<Rightarrow> string \<Rightarrow> bool" where
  "startsWith t s \<longleftrightarrow> take (length t) s = t"

fun stripSpaces :: "string list \<Rightarrow> nat \<Rightarrow> string \<Rightarrow> string" where
  "stripSpaces toks 0 s = s"
| "stripSpaces toks (Suc k) s =
     (case find (\<lambda>t. startsWith t s) toks of None \<Rightarrow> s | Some t \<Rightarrow> stripSpaces toks k (drop (length t) s))"

definition trimSpace :: "string \<Rightarrow> string" where
  "trimSpace s =
     (let l = stripSpaces spaces (length s) s
      in rev (stripSpaces (map rev spaces) (length l) (rev l)))"

definition lowerASCII :: "char \<Rightarrow> char" where
  "lowerASCII c = (let n = of_char c :: nat in if 65 \<le> n \<and> n \<le> 90 then char_of (n + 32) else c)"

definition isQuit :: "string \<Rightarrow> bool" where
  "isQuit line \<longleftrightarrow> map lowerASCII line = ''/quit''"

text \<open>The loop over the lines typed: the lines sent, and whether it returned.\<close>

fun chatLoop :: "string list \<Rightarrow> string list \<times> bool" where
  "chatLoop [] = ([], False)"
| "chatLoop (l # ls) =
     (let line = trimSpace l in
      if line = '''' then chatLoop ls
      else if isQuit line then ([], True)
      else let (out, fin) = chatLoop ls in (line # out, fin))"

section \<open>The clipboard example\<close>

record clipSide =
  clip :: string
  lastClip :: string
  outgoing :: "string list"

text \<open>\<open>darwin\<close>: the platform; \<open>ok\<close>: whether \<^verbatim>\<open>pbpaste\<close> or \<^verbatim>\<open>pbcopy\<close> ran.\<close>

definition readClipboard :: "bool \<Rightarrow> bool \<Rightarrow> clipSide \<Rightarrow> string" where
  "readClipboard darwin ok s = (if \<not> darwin then '''' else if \<not> ok then '''' else clip s)"

definition writeClipboard :: "bool \<Rightarrow> bool \<Rightarrow> string \<Rightarrow> clipSide \<Rightarrow> clipSide" where
  "writeClipboard darwin ok text s = (if \<not> darwin \<or> \<not> ok then s else s\<lparr>clip := text\<rparr>)"

definition startClip :: "bool \<Rightarrow> bool \<Rightarrow> clipSide \<Rightarrow> clipSide" where
  "startClip darwin ok s = s\<lparr>lastClip := readClipboard darwin ok s\<rparr>"

definition pollClip :: "bool \<Rightarrow> bool \<Rightarrow> clipSide \<Rightarrow> clipSide" where
  "pollClip darwin ok s =
     (let current = readClipboard darwin ok s
      in if current \<noteq> lastClip s \<and> current \<noteq> '''' then s\<lparr>lastClip := current, outgoing := outgoing s @ [current]\<rparr> else s)"

text \<open>
  The program's two goroutines against what they meet: the poll timer, a message, the closed
  message channel or a signal. The result is the clipboard side and whether \<^verbatim>\<open>main\<close> returned.
\<close>

datatype clipInput = Poll bool | Text string bool | ClipClosed | ClipSignal

fun clipLoop :: "bool \<Rightarrow> clipInput list \<Rightarrow> clipSide \<Rightarrow> clipSide \<times> bool" where
  "clipLoop darwin [] s = (s, False)"
| "clipLoop darwin (Poll ok # ins) s = clipLoop darwin ins (pollClip darwin ok s)"
| "clipLoop darwin (Text text ok # ins) s = clipLoop darwin ins (writeClipboard darwin ok text s)"
| "clipLoop darwin (ClipClosed # ins) s = (s, True)"
| "clipLoop darwin (ClipSignal # ins) s = (s, True)"

section \<open>The programs\<close>

text \<open>
  \<open>opened\<close> is the outcome of \<open>openClient\<close>; the pairing calls take the client. The results are the
  peer and what the loop did.
\<close>

definition basicMain ::
  "fatal + exampleCreds \<times> 'a \<Rightarrow> ('a \<Rightarrow> sdk_error + string) \<Rightarrow> ('a \<Rightarrow> string \<Rightarrow> sdk_error + device_id) \<Rightarrow> programInput list \<Rightarrow>
    fatal + device_id \<times> (device_id \<times> bytes) list \<times> bool" where
  "basicMain opened request wait ins =
     (case opened of
        Inl f \<Rightarrow> Inl f
      | Inr (_, client) \<Rightarrow>
          (case request client of
             Inl e \<Rightarrow> Inl (PairCodeFatal e)
           | Inr short \<Rightarrow>
               (case wait client short of Inl e \<Rightarrow> Inl (PairingFatal e) | Inr peer \<Rightarrow> Inr (peer, echoLoop ins))))"

definition chatMain ::
  "fatal + exampleCreds \<times> 'a \<Rightarrow> ('a \<Rightarrow> string \<Rightarrow> sdk_error + device_id) \<Rightarrow> ('a \<Rightarrow> sdk_error + string) \<Rightarrow> ('a \<Rightarrow> string \<Rightarrow> sdk_error + device_id) \<Rightarrow>
    string \<Rightarrow> string list \<Rightarrow> fatal + device_id \<times> string list \<times> bool" where
  "chatMain opened accept request wait code ls =
     (case opened of
        Inl f \<Rightarrow> Inl f
      | Inr (_, client) \<Rightarrow>
          (case pairUp (accept client) (request client) (wait client) code of Inl f \<Rightarrow> Inl f | Inr peer \<Rightarrow> Inr (peer, chatLoop ls)))"

definition clipboardMain ::
  "fatal + exampleCreds \<times> 'a \<Rightarrow> ('a \<Rightarrow> string \<Rightarrow> sdk_error + device_id) \<Rightarrow> ('a \<Rightarrow> sdk_error + string) \<Rightarrow> ('a \<Rightarrow> string \<Rightarrow> sdk_error + device_id) \<Rightarrow>
    string \<Rightarrow> bool \<Rightarrow> bool \<Rightarrow> clipInput list \<Rightarrow> clipSide \<Rightarrow> fatal + device_id \<times> clipSide \<times> bool" where
  "clipboardMain opened accept request wait code darwin ok ins s =
     (case opened of
        Inl f \<Rightarrow> Inl f
      | Inr (_, client) \<Rightarrow>
          (case pairUp (accept client) (request client) (wait client) code of
             Inl f \<Rightarrow> Inl f
           | Inr peer \<Rightarrow> Inr (peer, clipLoop darwin ins (startClip darwin ok s))))"

section \<open>Pair and send\<close>

definition hello :: bytes where
  "hello = asBytes ''Hello from Go! '' @ [0xF0, 0x9F, 0x91, 0x8B]"

text \<open>
  \<open>args\<close> without the name of the program; \<open>reply\<close> is what the lastClip select meets, \<open>None\<close> for the
  five seconds. The result is the reply that was printed, if any.
\<close>

definition pairAndSend ::
  "(string \<Rightarrow> fatal + 'a) \<Rightarrow> ('a \<Rightarrow> string \<Rightarrow> sdk_error + device_id) \<Rightarrow> ('a \<Rightarrow> device_id \<Rightarrow> bytes \<Rightarrow> sdk_error option) \<Rightarrow>
    Message option option \<Rightarrow> string list \<Rightarrow> fatal + Message option" where
  "pairAndSend openIt accept sendIt reply args =
     (case args of
        serverURL # pairCode # _ \<Rightarrow>
          (case openIt serverURL of
             Inl f \<Rightarrow> Inl f
           | Inr client \<Rightarrow>
               (case accept client pairCode of
                  Inl e \<Rightarrow> Inl (PairingFatal e)
                | Inr peer \<Rightarrow>
                    (case sendIt client peer hello of
                       Some e \<Rightarrow> Inl (SendFatal e)
                     | None \<Rightarrow> Inr (case reply of Some (Some m) \<Rightarrow> Some m | _ \<Rightarrow> None))))
      | _ \<Rightarrow> Inl UsageFatal)"

section \<open>Lemmas\<close>

text \<open>Once credentials are saved, they are found again and the server is not asked.\<close>

lemma registerOrLoad_saved:
  assumes "registerOrLoadDevice home parsed post mkdirOk res path name fs = (Inr d, asked, fs')"
    and "ex_DeviceID d \<noteq> ''''" and "ex_DeviceToken d \<noteq> ''''"
  shows "registerOrLoadDevice home parsed' post' mkdirOk' res' path name' fs' = (Inr d, False, fs')"
proof -
  have "savedCreds (expandHome home path) fs' = Some d"
  proof (cases "savedCreds (expandHome home path) fs")
    case None
    then have "saveCreds mkdirOk res (expandHome home path) d fs = (Inr d, fs')"
      using assms(1) by (auto simp: registerOrLoadDevice_def saveCreds_def Let_def split: sum.splits if_splits option.splits write_result.splits)
    then show ?thesis using assms(2,3) by (auto simp: saveCreds_def savedCreds_def split: if_splits write_result.splits)
  qed (use assms in \<open>auto simp: registerOrLoadDevice_def Let_def\<close>)
  then show ?thesis by (simp add: registerOrLoadDevice_def Let_def)
qed

lemma openClient_again:
  assumes "openClient M parsed post connect kp cp name fs = (Inr (d, cl), fs')"
    and "ex_DeviceID d \<noteq> ''''" and "ex_DeviceToken d \<noteq> ''''" and "\<And>raw. mc_rnd M = Some raw \<Longrightarrow> length raw = 32"
    and "mc_home M' = mc_home M" and "mc_readOk M'"
    and "openClient M' parsed' post' connect' kp cp name' fs' = (Inr (d', cl'), fs'')"
  shows "d' = d" and "fs'' = fs'" and "\<exists>key. connect (exampleOptions d key) = Inr cl \<and> connect' (exampleOptions d key) = Inr cl'"
proof -
  obtain key kf asked cf where k: "LoadOrGenerateKey (mc_home M) (mc_readOk M) (mc_mkdirOk M) (mc_write M) (mc_rnd M) kp (fst fs) = (Inr key, kf)"
    and r: "registerOrLoadDevice (mc_home M) parsed post (mc_mkdirOk M) (mc_write M) cp name (snd fs) = (Inr d, asked, cf)"
    and fs': "fs' = (kf, cf)" and c: "connect (exampleOptions d key) = Inr cl"
    using assms(1) by (auto simp: openClient_def split: prod.splits sum.splits)
  note again = saved_key_found [OF k assms(4), folded assms(5)] registerOrLoad_saved [OF r assms(2,3), folded assms(5)]
  from assms(7) assms(6) show "d' = d" "fs'' = fs'" "\<exists>key. connect (exampleOptions d key) = Inr cl \<and> connect' (exampleOptions d key) = Inr cl'"
    using c by (auto simp: openClient_def fs' again split: sum.splits)
qed

text \<open>Trimming leaves no space at either end.\<close>

lemma stripSpaces_suffix: "\<exists>k. stripSpaces toks n s = drop k s"
proof (induction n arbitrary: s)
  case (Suc n)
  show ?case
  proof (cases "find (\<lambda>t. startsWith t s) toks")
    case None
    then show ?thesis by (auto intro: exI [of _ 0])
  next
    case (Some t)
    from Suc [of "drop (length t) s"] obtain k where "stripSpaces toks n (drop (length t) s) = drop k (drop (length t) s)" by blast
    with Some show ?thesis by (auto simp: drop_drop)
  qed
qed (auto intro: exI [of _ 0])

lemma stripSpaces_done:
  "list_all (\<lambda>t. t \<noteq> '''') toks \<Longrightarrow> length s \<le> n \<Longrightarrow> t \<in> set toks \<Longrightarrow> \<not> startsWith t (stripSpaces toks n s)"
proof (induction n arbitrary: s)
  case 0
  then show ?case by (auto simp: startsWith_def list_all_iff)
next
  case (Suc n)
  show ?case
  proof (cases "find (\<lambda>t. startsWith t s) toks")
    case None
    moreover have "\<not> startsWith t s" using None Suc.prems(3) by (auto simp: find_None_iff)
    ultimately show ?thesis by simp
  next
    case (Some u)
    then have "u \<in> set toks" by (auto simp: find_Some_iff)
    with Suc.prems(1) have "u \<noteq> ''''" by (auto simp: list_all_iff)
    with Suc.prems(2) have "length (drop (length u) s) \<le> n" by (cases u) auto
    from Suc.IH [OF Suc.prems(1) this Suc.prems(3)] Some show ?thesis by simp
  qed
qed

lemma startsWith_prefix: "startsWith t (take k s) \<Longrightarrow> startsWith t s"
proof -
  assume a: "startsWith t (take k s)"
  then have "length t \<le> length (take k s)" unfolding startsWith_def by (metis length_take min.cobounded1)
  then have "min (length t) k = length t" by simp
  with a show "startsWith t s" by (simp add: startsWith_def take_take)
qed

lemma spaces_nonempty: "list_all (\<lambda>t. t \<noteq> '''') spaces" "list_all (\<lambda>t. t \<noteq> '''') (map rev spaces)"
  by (auto simp: spaces_def list_all_iff)

lemma trimSpace_trimmed:
  assumes "t \<in> set spaces"
  shows "\<not> startsWith t (trimSpace s)" and "\<not> startsWith (rev t) (rev (trimSpace s))"
proof -
  let ?l = "stripSpaces spaces (length s) s"
  obtain k where k: "stripSpaces (map rev spaces) (length ?l) (rev ?l) = drop k (rev ?l)" using stripSpaces_suffix by blast
  have eq: "trimSpace s = take (length ?l - k) ?l"
    by (simp add: trimSpace_def Let_def k rev_drop)
  show "\<not> startsWith t (trimSpace s)"
    unfolding eq using startsWith_prefix stripSpaces_done [OF spaces_nonempty(1) order_refl assms, of s] by blast
  have "rev t \<in> set (map rev spaces)" using assms by simp
  from stripSpaces_done [OF spaces_nonempty(2) _ this, of "rev ?l" "length ?l"]
  show "\<not> startsWith (rev t) (rev (trimSpace s))" by (simp add: trimSpace_def Let_def)
qed

section \<open>Properties\<close>

text \<open>A chat sends no blank line, no line with space around it, and never the word that ends it.\<close>

lemma chat_sends:
  "l \<in> set (fst (chatLoop ls)) \<Longrightarrow> l \<noteq> '''' \<and> \<not> isQuit l \<and> (\<forall>t \<in> set spaces. \<not> startsWith t l \<and> \<not> startsWith (rev t) (rev l))"
  by (induction ls) (auto simp: Let_def trimSpace_trimmed split: if_splits prod.splits)

lemma chat_quits: "snd (chatLoop ls) \<longleftrightarrow> (\<exists>l \<in> set ls. isQuit (trimSpace l))"
proof (induction ls)
  case (Cons l ls)
  have "\<not> isQuit ''''" by (simp add: isQuit_def)
  with Cons show ?case by (auto simp: Let_def split: prod.splits)
qed simp

text \<open>The echo loop answers every message it reads, in order, to its sender.\<close>

lemma echoLoop_answers:
  "echoLoop (map Incoming ms @ ins) = (map (\<lambda>m. (From m, echoReply (Payload m))) ms @ fst (echoLoop ins), snd (echoLoop ins))"
  by (induction ms) (simp_all add: case_prod_beta)

text \<open>On a platform other than macOS the clipboard program sends nothing and changes nothing.\<close>

lemma clip_elsewhere: "fst (clipLoop False ins s) = s"
proof (induction ins arbitrary: s)
  case (Cons x ins)
  then show ?case by (cases x) (simp_all add: pollClip_def readClipboard_def writeClipboard_def)
qed simp

text \<open>It never sends the empty text, and never the same text twice in a row.\<close>

definition clip_ok :: "clipSide \<Rightarrow> bool" where
  "clip_ok s \<longleftrightarrow> '''' \<notin> set (outgoing s) \<and> distinct_adj (outgoing s) \<and> (outgoing s \<noteq> [] \<longrightarrow> last (outgoing s) = lastClip s)"

lemma clip_ok_poll: "clip_ok s \<Longrightarrow> clip_ok (pollClip darwin ok s)"
  by (auto simp: clip_ok_def pollClip_def Let_def distinct_adj_append_iff)

lemma clip_ok_write: "clip_ok (writeClipboard darwin ok text s) = clip_ok s"
  by (simp add: clip_ok_def writeClipboard_def)

lemma clip_sends: "clip_ok s \<Longrightarrow> clip_ok (fst (clipLoop darwin ins s))"
proof (induction ins arbitrary: s)
  case (Cons x ins)
  then show ?case by (cases x) (simp_all add: clip_ok_poll clip_ok_write)
qed simp

text \<open>Run twice on one machine, as its instructions say, the chat example is one device. The
  second run finds the credentials and the key the first one saved, does not register, and connects
  under the same identifier; when it then accepts the code the first run shows, the server answers
  that a device cannot pair with itself, and the code is spent.\<close>

theorem chat_in_two_terminals:
  assumes "openClient M parsed post connect ''~/.relayly/chat-device.key'' ''~/.relayly/chat-device.json'' ''chat-device'' fs = (Inr (d, cl), fs')"
    and "ex_DeviceID d \<noteq> ''''" and "ex_DeviceToken d \<noteq> ''''" and "\<And>raw. mc_rnd M = Some raw \<Longrightarrow> length raw = 32"
    and "mc_home M' = mc_home M" and "mc_readOk M'"
    and "openClient M' parsed' post' connect' ''~/.relayly/chat-device.key'' ''~/.relayly/chat-device.json'' ''chat-device'' fs' = (Inr (d', cl'), fs'')"
    and "entries (pairCodes s) code = Some e" and "requesterID e = ex_DeviceID d" and "now \<le> expiresAt e" and "code \<noteq> ''''" and "msg_Code msg = code"
  shows "d' = d \<and> fs'' = fs' \<and>
    handlePairAccept swap now c (ex_DeviceID d') msg s =
      sendError c ''invalid_code'' ''cannot pair with yourself'' (s\<lparr>pairCodes := (pairCodes s)\<lparr>entries := (entries (pairCodes s))(code := None)\<rparr>\<rparr>)"
proof -
  note again = openClient_again [OF assms(1-3) assms(4) assms(5-7)]
  have "Take now code (pairCodes s) = ((ex_DeviceID d, False, True), (pairCodes s)\<lparr>entries := (entries (pairCodes s))(code := None)\<rparr>)"
    using assms(8-10) by (simp add: Take_def Let_def)
  with again(1,2) assms(11,12) show ?thesis by (simp add: handlePairAccept_def Let_def)
qed

text \<open>The first two runs on a fresh machine.\<close>

definition sample_machine :: machine where
  "sample_machine = \<lparr>mc_home = Some ''/home/u'', mc_readOk = True, mc_mkdirOk = True, mc_write = WriteOk, mc_rnd = Some (replicate 32 7)\<rparr>"

definition sample_post :: "urlParts \<Rightarrow> string \<Rightarrow> string + nat \<times> exampleCreds option" where
  "sample_post u name = Inr (200, Some \<lparr>ex_DeviceID = ''dev-1'', ex_DeviceToken = ''tok''\<rparr>)"

definition sample_url :: "urlParts option" where
  "sample_url = Some \<lparr>u_Scheme = ''ws'', u_Host = ''localhost:8080'', u_Path = ''/ws'', u_RawQuery = ''''\<rparr>"

definition sample_run :: "filesystem \<times> credFiles \<Rightarrow> (fatal + exampleCreds \<times> Options) \<times> filesystem \<times> credFiles" where
  "sample_run fs = openClient sample_machine sample_url sample_post Inr ''~/.relayly/chat-device.key'' ''~/.relayly/chat-device.json'' ''chat-device'' fs"

definition sample_codes :: relay where
  "sample_codes = (NewHub 0 (empty_db []))\<lparr>pairCodes := Put 0 ''000258'' ''dev-1'' 9 newPairCodeRegistry\<rparr>"

lemma sample_first_run:
  obtains fs' where "sample_run (Map.empty, Map.empty) =
    (Inr (\<lparr>ex_DeviceID = ''dev-1'', ex_DeviceToken = ''tok''\<rparr>, exampleOptions \<lparr>ex_DeviceID = ''dev-1'', ex_DeviceToken = ''tok''\<rparr> (replicate 32 7)), fs')"
    and "fst (sample_run fs') = Inr (\<lparr>ex_DeviceID = ''dev-1'', ex_DeviceToken = ''tok''\<rparr>, exampleOptions \<lparr>ex_DeviceID = ''dev-1'', ex_DeviceToken = ''tok''\<rparr> (replicate 32 7))"
proof -
  let ?d = "\<lparr>ex_DeviceID = ''dev-1'', ex_DeviceToken = ''tok''\<rparr>"
  obtain kf where k: "LoadOrGenerateKey (Some ''/home/u'') True True WriteOk (Some (replicate 32 7)) ''~/.relayly/chat-device.key'' Map.empty = (Inr (replicate 32 7), kf)"
    by (simp add: LoadOrGenerateKey_def LoadKeyFromFile_def GenerateKey_def SaveToFile_def writeFile_def)
  obtain cf where c: "registerOrLoadDevice (Some ''/home/u'') sample_url sample_post True WriteOk ''~/.relayly/chat-device.json'' ''chat-device'' Map.empty = (Inr ?d, True, cf)"
    by (simp add: registerOrLoadDevice_def savedCreds_def devicesEndpoint_def sample_url_def sample_post_def saveCreds_def Let_def)
  note again = saved_key_found [OF k, of True WriteOk "Some (replicate 32 7)"] registerOrLoad_saved [OF c, of sample_url sample_post True WriteOk "''chat-device''"]
  show thesis
    by (rule that [of "(kf, cf)"]) (use k c again in \<open>simp_all add: sample_run_def openClient_def sample_machine_def\<close>)
qed

theorem chat_in_two_terminals_witness:
  "let fs' = snd (sample_run (Map.empty, Map.empty)) in
     snd (sample_run fs') = fs' \<and>
     handlePairAccept False 5 0 ''dev-1'' ((zeroMessage ''pair_accept'')\<lparr>msg_Code := ''000258''\<rparr>) sample_codes =
       sendError 0 ''invalid_code'' ''cannot pair with yourself'' (sample_codes\<lparr>pairCodes := newPairCodeRegistry\<rparr>)"
proof -
  let ?d = "\<lparr>ex_DeviceID = ''dev-1'', ex_DeviceToken = ''tok''\<rparr>"
  let ?o = "exampleOptions ?d (replicate 32 7)"
  obtain fs' where one: "sample_run (Map.empty, Map.empty) = (Inr (?d, ?o), fs')" and two: "fst (sample_run fs') = Inr (?d, ?o)"
    by (rule sample_first_run)
  obtain fs'' where two': "sample_run fs' = (Inr (?d, ?o), fs'')" using two by (metis prod.collapse)
  have e: "entries (pairCodes sample_codes) ''000258'' = Some \<lparr>requesterID = ''dev-1'', expiresAt = 9\<rparr>"
    by (simp add: sample_codes_def Put_def newPairCodeRegistry_def)
  have rnd: "\<And>raw. mc_rnd sample_machine = Some raw \<Longrightarrow> length raw = 32" and ok: "mc_readOk sample_machine" by (simp_all add: sample_machine_def)
  have left: "(pairCodes sample_codes)\<lparr>entries := (entries (pairCodes sample_codes))(''000258'' := None)\<rparr> = newPairCodeRegistry"
    by (simp add: sample_codes_def Put_def newPairCodeRegistry_def)
  from chat_in_two_terminals [OF one [unfolded sample_run_def] _ _ rnd refl ok two' [unfolded sample_run_def] e,
      of 5 "(zeroMessage ''pair_accept'')\<lparr>msg_Code := ''000258''\<rparr>" False 0]
  show ?thesis by (simp add: one two' left)
qed


text \<open>
  Two clipboards that are connected: both look at their clipboard, then each takes what the other
  sent.
\<close>

definition clipRound :: "clipSide \<times> clipSide \<Rightarrow> clipSide \<times> clipSide" where
  "clipRound ab =
     (let a = pollClip True True (fst ab); b = pollClip True True (snd ab)
      in (fold (writeClipboard True True) (outgoing b) (a\<lparr>outgoing := []\<rparr>),
          fold (writeClipboard True True) (outgoing a) (b\<lparr>outgoing := []\<rparr>)))"

lemma clipRound_swap:
  assumes "clip a \<noteq> lastClip a" and "clip b \<noteq> lastClip b" and "clip a \<noteq> ''''" and "clip b \<noteq> ''''" and "outgoing a = []" and "outgoing b = []"
  shows "clipRound (a, b) = (a\<lparr>lastClip := clip a, clip := clip b\<rparr>, b\<lparr>lastClip := clip b, clip := clip a\<rparr>)"
  using assms by (simp add: clipRound_def pollClip_def readClipboard_def writeClipboard_def Let_def)

text \<open>One copy on one side settles: the text arrives, is sent back once, and then all is quiet.\<close>

lemma one_copy_settles:
  assumes "clip a \<noteq> lastClip a" and "clip a \<noteq> ''''" and "clip b = lastClip b" and "clip a \<noteq> clip b" and "outgoing a = []" and "outgoing b = []"
  shows "let ab = (clipRound ^^ 2) (a, b) in clip (fst ab) = clip a \<and> clip (snd ab) = clip a \<and> clipRound ab = ab"
  using assms by (simp add: numeral_2_eq_2 clipRound_def pollClip_def readClipboard_def writeClipboard_def Let_def)

text \<open>Two people who copy different texts within the same half second leave the clipboard
  example in a loop. Each side sends its text and overwrites it with the text of the other, which
  then counts as a change: from then on the two clipboards swap their contents in every round, so
  that they are never equal, and every round sends two more messages, although nobody copies
  anything.\<close>

theorem clipboards_never_settle:
  assumes "clip a \<noteq> lastClip a" and "clip b \<noteq> lastClip b" and "clip a \<noteq> clip b" and "clip a \<noteq> ''''" and "clip b \<noteq> ''''"
    and "outgoing a = []" and "outgoing b = []"
  shows "let (a', b') = (clipRound ^^ n) (a, b) in
    {clip a', clip b'} = {clip a, clip b} \<and> clip a' \<noteq> clip b' \<and>
    outgoing (pollClip True True a') = [clip a'] \<and> outgoing (pollClip True True b') = [clip b']"
proof -
  define ok where "ok c d \<longleftrightarrow> (clip c = clip a \<and> clip d = clip b \<or> clip c = clip b \<and> clip d = clip a) \<and>
    clip c \<noteq> lastClip c \<and> clip d \<noteq> lastClip d \<and> outgoing c = [] \<and> outgoing d = []" for c d :: clipSide
  have "case (clipRound ^^ n) (a, b) of (c, d) \<Rightarrow> ok c d"
  proof (induction n)
    case 0
    show ?case using assms by (simp add: ok_def)
  next
    case (Suc n)
    obtain c d where cd: "(clipRound ^^ n) (a, b) = (c, d)" by (meson surj_pair)
    with Suc have s: "ok c d" by simp
    have "clip c \<noteq> ''''" "clip d \<noteq> ''''" using s assms(4,5) by (auto simp: ok_def)
    with s have "clipRound (c, d) = (c\<lparr>lastClip := clip c, clip := clip d\<rparr>, d\<lparr>lastClip := clip d, clip := clip c\<rparr>)"
      by (intro clipRound_swap) (simp_all add: ok_def)
    moreover have "ok (c\<lparr>lastClip := clip c, clip := clip d\<rparr>) (d\<lparr>lastClip := clip d, clip := clip c\<rparr>)"
      using s assms(3) by (auto simp: ok_def)
    ultimately show ?case by (simp add: cd)
  qed
  then obtain c d where "(clipRound ^^ n) (a, b) = (c, d)" "ok c d" by (metis case_prodE)
  with assms(3-5) show ?thesis by (auto simp: ok_def pollClip_def readClipboard_def Let_def)
qed

theorem clipboards_never_settle_witness:
  "let (a', b') = (clipRound ^^ 1000) (\<lparr>clip = ''x'', lastClip = '''', outgoing = []\<rparr>, \<lparr>clip = ''y'', lastClip = '''', outgoing = []\<rparr>)
   in {clip a', clip b'} = {''x'', ''y''} \<and> clip a' \<noteq> clip b'"
proof -
  let ?ab = "(\<lparr>clip = ''x'', lastClip = '''', outgoing = []\<rparr>, \<lparr>clip = ''y'', lastClip = '''', outgoing = []\<rparr>)"
  obtain a' b' where ab: "(clipRound ^^ 1000) ?ab = (a', b')" by (meson surj_pair)
  from clipboards_never_settle [of "fst ?ab" "snd ?ab" 1000, unfolded fst_conv snd_conv ab]
  show ?thesis unfolding ab by simp
qed


end
