(* ===== verification/Sdk_Loops.thy ===== *)
theory Sdk_Loops
  imports Sdk_System
begin

text \<open>
  The goroutines of a client of the Go library and its connections (\<^verbatim>\<open>sdk/go/client.go\<close>): the read
  loop with its reconnection, the write and ping loops, and \<^verbatim>\<open>Close\<close>. Every run of the loops is a
  run of the event system of \<open>Sdk_System\<close>, so its invariants hold; what the event system does not
  show is which connections are open and who is still running.
\<close>

section \<open>Processes\<close>

text \<open>Where the read loop is; \<open>Greeting\<close> is inside \<^verbatim>\<open>dial\<close>, after the connection was stored.\<close>

datatype phase = Reading nat | Backoff | Dialling | Greeting nat | Ended

record ('h, 'c) process =
  pr_client :: "('h, 'c) Client"
  pr_phase :: phase
  pr_conn :: nat
  pr_open :: "nat list"
  pr_wrote :: "(nat \<times> outFrame) list"

datatype loop_event =
    TextFrom "sdkMessage option" bytes sid
  | BinaryFrom save_result string bytes time sid device_id bytes
  | ReadError
  | ShutdownSeen
  | WaitOver
  | DialDone "nat option"
  | WelcomeRead "(unit + sdkMessage) option" bool
  | WriteOne
  | PingTick
  | CallerDoes client_event
  | CallerCloses

text \<open>The calls of the application other than \<^verbatim>\<open>Close\<close>.\<close>

fun applicationCall :: "client_event \<Rightarrow> bool" where
  "applicationCall (CallSend _ _ _) = True"
| "applicationCall (CallRequest _) = True"
| "applicationCall (RequestDone _ _) = True"
| "applicationCall (CallAccept _ _) = True"
| "applicationCall (WaitDone _) = True"
| "applicationCall CancelRequest = True"
| "applicationCall (CancelAccept _) = True"
| "applicationCall TakeMessage = True"
| "applicationCall _ = False"

section \<open>One round of a loop\<close>

definition withClient :: "('h, 'c) process \<Rightarrow> ('h, 'c) Client option \<Rightarrow> ('h, 'c) process option" where
  "withClient p oc = map_option (\<lambda>c. p\<lparr>pr_client := c\<rparr>) oc"

text \<open>
  A round of \<^verbatim>\<open>readLoop\<close> that read a frame: a text frame that does not decode (\<open>None\<close>) is skipped.
\<close>

definition readFrame ::
  "('h, 'c) noiseLib \<Rightarrow> (bytes \<Rightarrow> bytes) \<Rightarrow> client_event option \<Rightarrow> ('h, 'c) process \<Rightarrow> ('h, 'c) process option" where
  "readFrame lib sbm ev p =
     (case pr_phase p of
        Reading k \<Rightarrow>
          (if k \<notin> set (pr_open p) then None
           else case ev of None \<Rightarrow> Some p | Some e \<Rightarrow> withClient p (sdk_do lib sbm e (pr_client p)))
      | _ \<Rightarrow> None)"

text \<open>A failed read: the end after \<^verbatim>\<open>Close\<close> or without reconnection, otherwise the backoff.\<close>

definition readFailed :: "('h, 'c) process \<Rightarrow> ('h, 'c) process option" where
  "readFailed p =
     (case pr_phase p of
        Reading k \<Rightarrow>
          (if c_closed (pr_client p) \<or> opt_ReconnectDelay (opts (pr_client p)) < 0 then Some (p\<lparr>pr_phase := Ended\<rparr>)
           else Some (p\<lparr>pr_phase := Backoff\<rparr>))
      | _ \<Rightarrow> None)"

text \<open>The two halves of \<^verbatim>\<open>dial\<close>: up to storing the connection, and from the first frame on.\<close>

definition dialDone :: "nat option \<Rightarrow> ('h, 'c) process \<Rightarrow> ('h, 'c) process option" where
  "dialDone r p =
     (if pr_phase p \<noteq> Dialling then None
      else case r of
        None \<Rightarrow> Some (p\<lparr>pr_phase := Backoff\<rparr>)
      | Some k \<Rightarrow> (if k \<in> set (pr_open p) then None else Some (p\<lparr>pr_phase := Greeting k, pr_conn := k, pr_open := k # pr_open p\<rparr>)))"

definition welcomeRead ::
  "(bytes \<Rightarrow> bytes) \<Rightarrow> (unit + sdkMessage) option \<Rightarrow> bool \<Rightarrow> ('h, 'c) process \<Rightarrow> ('h, 'c) process option" where
  "welcomeRead sbm first announced p =
     (case pr_phase p of
        Greeting k \<Rightarrow>
          (if k \<notin> set (pr_open p) \<and> first \<noteq> None then None
           else case dial sbm first announced (pr_client p) of
             (Inl e, c) \<Rightarrow> Some (p\<lparr>pr_client := c, pr_phase := Backoff, pr_open := removeAll k (pr_open p)\<rparr>)
           | (Inr announce, c) \<Rightarrow> Some (p\<lparr>pr_client := c, pr_phase := Reading k, pr_wrote := pr_wrote p @ [(k, TextFrame announce)]\<rparr>))
      | _ \<Rightarrow> None)"

text \<open>A round of \<^verbatim>\<open>writeLoop\<close>: the frame goes to the stored connection, and an error is ignored.\<close>

definition writeOne :: "('h, 'c) process \<Rightarrow> ('h, 'c) process option" where
  "writeOne p =
     (case writeLoop (pr_client p) of
        None \<Rightarrow> None
      | Some (f, c) \<Rightarrow>
          Some (p\<lparr>pr_client := c, pr_wrote := (if pr_conn p \<in> set (pr_open p) then pr_wrote p @ [(pr_conn p, f)] else pr_wrote p)\<rparr>))"

text \<open>\<^verbatim>\<open>Close\<close>: it closes the connection that is stored when it is called.\<close>

definition callerCloses :: "('h, 'c) process \<Rightarrow> ('h, 'c) process" where
  "callerCloses p =
     (if c_closed (pr_client p) then p
      else p\<lparr>pr_client := Close (pr_client p), pr_open := removeAll (pr_conn p) (pr_open p)\<rparr>)"

fun loop_do :: "('h, 'c) noiseLib \<Rightarrow> (bytes \<Rightarrow> bytes) \<Rightarrow> loop_event \<Rightarrow> ('h, 'c) process \<Rightarrow> ('h, 'c) process option" where
  "loop_do lib sbm (TextFrom frame rnd n) p = readFrame lib sbm (map_option (FromServer rnd n) frame) p"
| "loop_do lib sbm (BinaryFrom res t rnd now n pick bs) p = readFrame lib sbm (Some (BinaryFromServer res t rnd now n pick bs)) p"
| "loop_do lib sbm ReadError p = readFailed p"
| "loop_do lib sbm ShutdownSeen p =
     (if pr_phase p = Backoff \<and> c_closed (pr_client p) then Some (p\<lparr>pr_phase := Ended\<rparr>) else None)"
| "loop_do lib sbm WaitOver p = (if pr_phase p = Backoff then Some (p\<lparr>pr_phase := Dialling\<rparr>) else None)"
| "loop_do lib sbm (DialDone r) p = dialDone r p"
| "loop_do lib sbm (WelcomeRead first announced) p = welcomeRead sbm first announced p"
| "loop_do lib sbm WriteOne p = writeOne p"
| "loop_do lib sbm PingTick p = (if c_closed (pr_client p) then None else Some (p\<lparr>pr_client := pingLoop (pr_client p)\<rparr>))"
| "loop_do lib sbm (CallerDoes e) p =
     (if applicationCall e \<and> fresh_chan e (pr_client p) then withClient p (sdk_do lib sbm e (pr_client p)) else None)"
| "loop_do lib sbm CallerCloses p = Some (callerCloses p)"

fun loops_do :: "('h, 'c) noiseLib \<Rightarrow> (bytes \<Rightarrow> bytes) \<Rightarrow> loop_event list \<Rightarrow> ('h, 'c) process \<Rightarrow> ('h, 'c) process option" where
  "loops_do lib sbm [] p = Some p"
| "loops_do lib sbm (e # es) p = (case loop_do lib sbm e p of None \<Rightarrow> None | Some p' \<Rightarrow> loops_do lib sbm es p')"

inductive loop_step :: "('h, 'c) noiseLib \<Rightarrow> (bytes \<Rightarrow> bytes) \<Rightarrow> ('h, 'c) process \<Rightarrow> ('h, 'c) process \<Rightarrow> bool"
  for lib :: "('h, 'c) noiseLib" and sbm :: "bytes \<Rightarrow> bytes" where
  loop_event: "loop_do lib sbm e p = Some p' \<Longrightarrow> loop_step lib sbm p p'"

inductive_cases loop_stepE [elim]: "loop_step lib sbm p p'"

text \<open>\<^verbatim>\<open>Connect\<close>: the first dial, before the loops start.\<close>

definition connected :: "(bytes \<Rightarrow> bytes) \<Rightarrow> ('h, 'c) process \<Rightarrow> bool" where
  "connected sbm p \<longleftrightarrow> (\<exists>o' st first announce.
     validateOptions o' = None \<and> dial sbm first True (newClient o' st) = (Inr announce, pr_client p) \<and>
     pr_phase p = Reading 0 \<and> pr_conn p = 0 \<and> pr_open p = [0] \<and> pr_wrote p = [(0, TextFrame announce)])"

section \<open>The loops run the event system\<close>

lemma dial_step: "sdk_step lib sbm c (snd (dial sbm first announced c))"
  by (rule sdk_event [of _ _ "Redial first announced"]) (simp_all add: fresh_chan_def)

lemma unchanged_or_step:
  assumes "loop_do lib sbm e p = Some p'"
  shows "pr_client p' = pr_client p \<or> sdk_step lib sbm (pr_client p) (pr_client p')"
proof -
  have frame: "sdk_step lib sbm c c'" if "sdk_do lib sbm ev c = Some c'" "new_chan ev = None" for ev c c'
    by (rule sdk_event [OF that(1)]) (simp add: fresh_chan_def that(2))
  show ?thesis
  proof (cases e)
    case (TextFrom fr rnd n)
    then show ?thesis using assms by (auto simp: readFrame_def withClient_def simp del: sdk_do.simps intro: frame split: phase.splits if_splits option.splits)
  next
    case (BinaryFrom res t rnd now n pick bs)
    then show ?thesis using assms
      by (auto simp: readFrame_def withClient_def simp del: sdk_do.simps intro: frame split: phase.splits if_splits option.splits)
  next
    case (WelcomeRead first announced)
    then show ?thesis using assms dial_step [of lib sbm "pr_client p" first announced]
      by (auto simp: welcomeRead_def split: phase.splits if_splits prod.splits sum.splits)
  next
    case WriteOne
    then show ?thesis using assms
      by (auto simp: writeOne_def intro!: frame [of WriteLoop] split: option.splits if_splits)
  next
    case PingTick
    then show ?thesis using assms by (auto intro!: frame [of PingLoop] split: if_splits)
  next
    case (CallerDoes ev)
    then show ?thesis using assms by (auto simp: withClient_def simp del: sdk_do.simps intro: sdk_event split: if_splits)
  next
    case CallerCloses
    then show ?thesis using assms by (auto simp: callerCloses_def intro!: frame [of CallClose] split: if_splits)
  qed (use assms in \<open>auto simp: readFailed_def dialDone_def split: phase.splits if_splits option.splits\<close>)
qed

text \<open>The stored connection is the one the read loop is on.\<close>

definition loop_inv :: "('h, 'c) process \<Rightarrow> bool" where
  "loop_inv p \<longleftrightarrow> (\<forall>k. pr_phase p = Reading k \<or> pr_phase p = Greeting k \<longrightarrow> pr_conn p = k)"

lemma loop_inv_do: "loop_inv p \<Longrightarrow> loop_do lib sbm e p = Some p' \<Longrightarrow> loop_inv p'"
  by (cases e) (auto simp: loop_inv_def readFrame_def withClient_def readFailed_def dialDone_def welcomeRead_def writeOne_def callerCloses_def
      simp del: sdk_do.simps split: phase.splits if_splits option.splits prod.splits sum.splits)

lemma connected_reach:
  assumes "connected sbm p"
  shows "reach sdk_initial (sdk_step lib sbm) (pr_client p)"
proof -
  obtain o' st first announce where ok: "validateOptions o' = None" and d: "dial sbm first True (newClient o' st) = (Inr announce, pr_client p)"
    using assms unfolding connected_def by blast
  have "sdk_initial (newClient o' st)" unfolding sdk_initial_def using ok by blast
  then have "reach sdk_initial (sdk_step lib sbm) (newClient o' st)" by (rule reach_init)
  moreover have "sdk_step lib sbm (newClient o' st) (pr_client p)" using dial_step [of lib sbm "newClient o' st" first True] by (simp add: d)
  ultimately show ?thesis by (rule reach_step)
qed

interpretation loops: refinement_mapping "connected sbm" "loop_step lib sbm" loop_inv pr_client
    "reach sdk_initial (sdk_step lib sbm)" "sdk_step lib sbm"
  for lib :: "('h, 'c) noiseLib" and sbm :: "bytes \<Rightarrow> bytes"
proof unfold_locales
  show "connected sbm p \<Longrightarrow> loop_inv p" for p :: "('h, 'c) process" by (auto simp: connected_def loop_inv_def)
  show "loop_inv p \<Longrightarrow> loop_step lib sbm p p' \<Longrightarrow> loop_inv p'" for p p' by (auto intro: loop_inv_do)
  show "connected sbm p \<Longrightarrow> reach sdk_initial (sdk_step lib sbm) (pr_client p)" for p by (rule connected_reach)
  show "loop_inv p \<Longrightarrow> loop_step lib sbm p p' \<Longrightarrow> pr_client p' = pr_client p \<or> sdk_step lib sbm (pr_client p) (pr_client p')" for p p'
    by (auto dest: unchanged_or_step)
qed

lemma loops_do_reach:
  "loops_do lib sbm es p = Some p' \<Longrightarrow> reach (connected sbm) (loop_step lib sbm) p \<Longrightarrow> reach (connected sbm) (loop_step lib sbm) p'"
proof (induction es arbitrary: p)
  case (Cons e es)
  then obtain u where u: "loop_do lib sbm e p = Some u" "loops_do lib sbm es u = Some p'" by (auto split: option.splits)
  from Cons.IH [OF u(2) reach_step [OF Cons.prems(2) loop_event [OF u(1)]]] show ?case .
qed simp

section \<open>Properties\<close>

text \<open>
  A client that is closed while its connection is up ends: no frame is read any more, and the
  failing read ends the loop. During the backoff it ends as well.
\<close>

lemma close_ends:
  assumes "reach (connected sbm) (loop_step lib sbm) p" and "pr_phase p = Reading k" and "\<not> c_closed (pr_client p)"
  shows "readFrame lib sbm ev (callerCloses p) = None"
    and "\<exists>p'. loop_do lib sbm ReadError (callerCloses p) = Some p' \<and> pr_phase p' = Ended"
proof -
  have "pr_conn p = k" using loops.reach_inv [OF assms(1)] assms(2) by (simp add: loop_inv_def)
  then show "readFrame lib sbm ev (callerCloses p) = None"
    using assms(2,3) by (simp add: callerCloses_def readFrame_def)
  show "\<exists>p'. loop_do lib sbm ReadError (callerCloses p) = Some p' \<and> pr_phase p' = Ended"
    using assms(2,3) by (simp add: callerCloses_def readFailed_def Close_def)
qed

lemma close_ends_backoff: "pr_phase p = Backoff \<Longrightarrow> \<exists>p'. loop_do lib sbm ShutdownSeen (callerCloses p) = Some p' \<and> pr_phase p' = Ended"
  by (simp add: callerCloses_def Close_def)

text \<open>A connection that broke is replaced, never closed: every reconnection leaves one more open.\<close>

lemma reconnect_keeps_old_open:
  assumes "pr_phase p = Reading k" and "\<not> c_closed (pr_client p)" and "opt_ReconnectDelay (opts (pr_client p)) \<ge> 0" and "k' \<notin> set (pr_open p)"
  shows "\<exists>p'. loops_do lib sbm [ReadError, WaitOver, DialDone (Some k')] p = Some p' \<and> pr_open p' = k' # pr_open p"
  using assms by (simp add: readFailed_def dialDone_def)

text \<open>
  While \<open>dial\<close> still waits for the welcome, the write loop already writes to the new connection:
  a queued frame goes out before the key is announced.
\<close>

lemma write_before_announce:
  assumes "pr_phase p = Greeting k" and "pr_conn p = k" and "k \<in> set (pr_open p)" and "sends (pr_client p) = f # fs"
    and "dial sbm first True (pr_client p\<lparr>sends := fs\<rparr>) = (Inr announce, c)"
  shows "\<exists>p'. loops_do lib sbm [WriteOne, WelcomeRead first True] p = Some p' \<and> pr_wrote p' = pr_wrote p @ [(k, f), (k, TextFrame announce)]"
  using assms by (simp add: writeOne_def writeLoop_def welcomeRead_def)


text \<open>A client that was connected, lost its connection and waited: it is about to dial again.\<close>

definition sample_welcome :: sdkMessage where
  "sample_welcome = (emptyMessage ''welcome'')\<lparr>m_ProtocolVersion := 1\<rparr>"

definition sample_process :: "(bool \<times> nat \<times> bytes \<times> bytes, nat) process" where
  "sample_process = \<lparr>pr_client = snd (dial id (Some (Inr sample_welcome)) True sample_client), pr_phase = Reading 0, pr_conn = 0, pr_open = [0],
     pr_wrote = [(0, TextFrame (projr (fst (dial id (Some (Inr sample_welcome)) True sample_client))))]\<rparr>"

lemma sample_process_connected: "reach (connected id) (loop_step lib id) sample_process"
proof (rule reach_init)
  have "validateOptions sample_options = None" by (simp add: sample_options_def validateOptions_def)
  moreover have "dial id (Some (Inr sample_welcome)) True sample_client =
      (Inr (projr (fst (dial id (Some (Inr sample_welcome)) True sample_client))), snd (dial id (Some (Inr sample_welcome)) True sample_client))"
    by (simp add: dial_def sample_welcome_def emptyMessage_def protocolVersion_def)
  ultimately show "connected id sample_process"
    unfolding connected_def sample_client_def sample_process_def by fastforce
qed

definition sample_lost :: "loop_event list" where
  "sample_lost = [ReadError, WaitOver]"

lemma sample_dialling:
  obtains p where "loops_do lib id sample_lost sample_process = Some p" and "pr_phase p = Dialling" and "pr_open p = [0]" and "\<not> c_closed (pr_client p)"
    and "pr_conn p = 0"
  by (simp add: sample_lost_def sample_process_def readFailed_def dial_def sample_welcome_def emptyMessage_def protocolVersion_def
      sample_client_def newClient_def sample_options_def that)


text \<open>C37: A client that is closed while it dials stays connected. \<open>Close\<close> closes the connection that
  is stored at that moment and marks the client as closed; the dial that is under way stores a new
  connection, greets the server and goes on reading. Closing again does nothing, so the device
  stays online until the server drops it.\<close>

theorem close_during_dial:
  assumes "pr_phase p = Dialling" and "k \<notin> set (pr_open p)" and "k \<noteq> pr_conn p"
    and "m_Type w = ''welcome''" and "m_ProtocolVersion w = protocolVersion"
  shows "\<exists>p'. loops_do lib sbm [CallerCloses, DialDone (Some k), WelcomeRead (Some (Inr w)) True, CallerCloses] p = Some p' \<and>
    c_closed (pr_client p') \<and> pr_phase p' = Reading k \<and> k \<in> set (pr_open p') \<and>
    (\<forall>ev. readFrame lib sbm ev p' = (case ev of None \<Rightarrow> Some p' | Some e \<Rightarrow> withClient p' (sdk_do lib sbm e (pr_client p'))))"
proof -
  have cl: "c_closed (applyWelcomePeers ps c) = c_closed c" for ps and c :: "('a, 'b) Client"
    by (induction ps arbitrary: c) (simp_all add: setPeerConn_def)
  show ?thesis
    using assms by (auto simp: callerCloses_def dialDone_def welcomeRead_def dial_def Close_def Let_def cl readFrame_def split: option.split)
qed

theorem close_during_dial_witness:
  "\<exists>p p'. loops_do plainLib id sample_lost sample_process = Some p \<and>
     loops_do plainLib id [CallerCloses, DialDone (Some 1), WelcomeRead (Some (Inr sample_welcome)) True, CallerCloses] p = Some p' \<and>
     c_closed (pr_client p') \<and> pr_phase p' = Reading 1"
proof -
  obtain p where p: "loops_do plainLib id sample_lost sample_process = Some p" "pr_phase p = Dialling" "pr_open p = [0]" "pr_conn p = 0"
    by (rule sample_dialling)
  have w: "m_Type sample_welcome = ''welcome''" "m_ProtocolVersion sample_welcome = protocolVersion"
    by (simp_all add: sample_welcome_def emptyMessage_def protocolVersion_def)
  from close_during_dial [OF p(2) _ _ w, of 1 plainLib id] p show ?thesis by (auto simp del: loops_do.simps)
qed


end
