(* ===== verification/Relay_Progress.thy ===== *)
theory Relay_Progress
  imports Relay_System
begin

text \<open>
  What the relay's loops achieve when they get to run: the hub's loop empties its channels and
  then knows every live connection, and the write pump brings a queue to the wire in order.
\<close>

section \<open>The write pump\<close>

lemma writeStep_flush:
  assumes "writing cl" and "connOpen cl" and "list_all (\<lambda>f. \<not> closeAfter f) (send cl)"
  shows "(writeStep True ^^ length (send cl)) cl = cl\<lparr>send := [], wire := wire cl @ map WireFrame (send cl)\<rparr>"
  using assms
proof (induction "send cl" arbitrary: cl)
  case (Cons f fs)
  let ?c = "cl\<lparr>send := fs, wire := wire cl @ [WireFrame f]\<rparr>"
  have f: "send cl = f # fs" using Cons.hyps(2) ..
  then have "writeStep True cl = ?c" using Cons.prems by (simp add: writeStep_def)
  moreover have "(writeStep True ^^ length (send ?c)) ?c = ?c\<lparr>send := [], wire := wire ?c @ map WireFrame (send ?c)\<rparr>"
    using Cons.prems f by (intro Cons.hyps(1)) simp_all
  ultimately show ?case
    unfolding f by (simp add: funpow_Suc_right del: funpow.simps)
qed (simp add: eq_commute)

lemma heap_onClient_funpow: "heap ((onClient c f ^^ n) s) c = map_option (f ^^ n) (heap s c)"
  by (induction n) (simp_all add: heap_onClient option.map_comp comp_def option.map_ident)

lemma threads_onClient_funpow: "threads ((onClient c f ^^ n) s) = threads s"
  by (induction n) simp_all

lemma performs_writes:
  assumes "threads s c = Some Pumping"
  shows "performs unmarshal cfg (replicate n (Write c True)) s = Some ((onClient c (writeStep True) ^^ n) s)"
  using assms by (induction n arbitrary: s) (simp_all add: funpow_Suc_right del: funpow.simps)

section \<open>The hub's loop\<close>

lemma run_queues [simp]:
  "registerQ (runRegister c s) = registerQ s" "unregisterQ (runRegister c s) = unregisterQ s"
  "registerQ (runUnregister c s) = registerQ s" "unregisterQ (runUnregister c s) = unregisterQ s"
  by (auto simp: runRegister_def runUnregister_def Let_def split: option.split)

lemma registers_drain:
  "\<exists>t. performs unmarshal cfg (replicate (length (registerQ s)) (Hub True)) s = Some t \<and>
     registerQ t = [] \<and> unregisterQ t = unregisterQ s"
proof (induction "registerQ s" arbitrary: s)
  case (Cons c cs)
  let ?s = "runRegister c (s\<lparr>registerQ := cs\<rparr>)"
  have q: "registerQ s = c # cs" using Cons.hyps(2) ..
  from Cons.hyps(1) [of ?s] q show ?case by (simp add: Run_def)
qed (simp add: eq_commute)

lemma unregisters_drain:
  "\<exists>t. performs unmarshal cfg (replicate (length (unregisterQ s)) (Hub False)) s = Some t \<and>
     unregisterQ t = [] \<and> registerQ t = registerQ s"
proof (induction "unregisterQ s" arbitrary: s)
  case (Cons c cs)
  let ?s = "runUnregister c (s\<lparr>unregisterQ := cs\<rparr>)"
  have q: "unregisterQ s = c # cs" using Cons.hyps(2) ..
  from Cons.hyps(1) [of ?s] q show ?case by (simp add: Run_def)
qed (simp add: eq_commute)

lemma performs_append:
  "performs unmarshal cfg (es @ fs) s = Option.bind (performs unmarshal cfg es s) (performs unmarshal cfg fs)"
  by (induction es arbitrary: s) (simp_all split: option.split)

section \<open>From a socket to a socket\<close>

abbreviation envelopeFrame :: "bytes \<Rightarrow> wsFrame" where
  "envelopeFrame payload \<equiv> \<lparr>kind = BinaryMessage, data = Envelope payload, closeAfter = False\<rparr>"

lemma read_routes:
  assumes "perform unmarshal cfg (Read c rnd swap now (InBinary payload)) s = Some t"
    and "heap s c = Some cl" and "\<not> oversize cl payload" and "pairedWith cl \<noteq> ''''"
    and "clients s (pairedWith cl) = Some d" and "heap s d = Some pl"
    and "\<not> closed pl" and "length (send pl) < sendBufferSize"
  shows "threads t = threads s" and "heap t d = Some (pl\<lparr>send := send pl @ [envelopeFrame payload]\<rparr>)"
proof -
  have "t = Route payload (pairedWith cl) s"
    using assms(1-4) by (auto simp: readPump_def Peer_def split: option.splits thread.splits if_splits)
  then have "t = onClient d (\<lambda>cl. snd (enqueue (envelopeFrame payload) cl)) s"
    using assms(5-8) by (simp add: Route_def enqueueTo_eq enqueue_ok)
  then show "threads t = threads s" and "heap t d = Some (pl\<lparr>send := send pl @ [envelopeFrame payload]\<rparr>)"
    using assms(6-8) by (simp_all add: heap_onClient enqueue_def)
qed

lemma write_flushes:
  assumes "threads t d = Some Pumping" and "heap t d = Some pl" and "connOpen pl" and "writing pl"
    and "list_all (\<lambda>f. \<not> closeAfter f) (send pl)"
  shows "\<exists>u. performs unmarshal cfg (replicate (length (send pl)) (Write d True)) t = Some u \<and>
    heap u d = Some (pl\<lparr>send := [], wire := wire pl @ map WireFrame (send pl)\<rparr>)"
  using performs_writes [OF assms(1)] writeStep_flush [OF assms(4,3,5)] assms(2)
  by (simp add: heap_onClient_funpow)

section \<open>A sample run\<close>

text \<open>Two linked devices, both connected and served.\<close>

definition sample_linked :: "event list" where
  "sample_linked = [Create (sample_device ''a''), Create (sample_device ''b''), Link False ''a'' ''b'',
     Connect 1 ''a'' ''ta'' True 0, Hub True, Welcome 0, Connect 1 ''b'' ''tb'' True 1, Hub True, Welcome 1]"

section \<open>Properties\<close>

text \<open>
  C21: an accepted envelope arrives. When a frame of a paired device is read, the peer is
  registered with an open socket, a running write pump and room in its queue, and no frame of
  the queue closes the connection, then as many successful writes as the peer had frames
  queued, plus one, put all of them and then exactly the received bytes on its wire.
\<close>

theorem routed_frame_delivered:
  assumes "perform unmarshal cfg (Read c rnd swap now (InBinary payload)) s = Some t"
    and "heap s c = Some cl" and "\<not> oversize cl payload" and "pairedWith cl \<noteq> ''''"
    and "clients s (pairedWith cl) = Some d" and "threads s d = Some Pumping" and "heap s d = Some pl"
    and "\<not> closed pl" and "connOpen pl" and "writing pl" and "length (send pl) < sendBufferSize"
    and "list_all (\<lambda>f. \<not> closeAfter f) (send pl)"
  shows "\<exists>u pl'. performs unmarshal cfg (replicate (Suc (length (send pl))) (Write d True)) t = Some u \<and>
    heap u d = Some pl' \<and> send pl' = [] \<and>
    wire pl' = wire pl @ map WireFrame (send pl @ [envelopeFrame payload])"
proof -
  let ?pl = "pl\<lparr>send := send pl @ [envelopeFrame payload]\<rparr>"
  note t = read_routes [OF assms(1-5,7,8,11)]
  have "threads t d = Some Pumping" using t(1) assms(6) by simp
  moreover have "connOpen ?pl" "writing ?pl" "list_all (\<lambda>f. \<not> closeAfter f) (send ?pl)"
    using assms(9,10,12) by simp_all
  ultimately have "\<exists>u. performs unmarshal cfg (replicate (length (send ?pl)) (Write d True)) t = Some u \<and>
      heap u d = Some (?pl\<lparr>send := [], wire := wire ?pl @ map WireFrame (send ?pl)\<rparr>)"
    by (intro write_flushes t(2))
  then show ?thesis by (auto simp del: performs.simps perform.simps replicate_Suc)
qed

theorem routed_frame_delivered_witness:
  "\<exists>s t u pl'. performs (\<lambda>_. None) sample_cfg sample_linked sample_start = Some s \<and>
     perform (\<lambda>_. None) sample_cfg (Read 0 None False 3 (InBinary [7])) s = Some t \<and>
     performs (\<lambda>_. None) sample_cfg [Write 1 True, Write 1 True, Write 1 True] t = Some u \<and> heap u 1 = Some pl' \<and>
     last (wire pl') = WireFrame \<lparr>kind = BinaryMessage, data = Envelope [7], closeAfter = False\<rparr>"
proof -
  let ?e = "Read 0 None False 3 (InBinary [7])"
  have "case performs (\<lambda>_. None) sample_cfg sample_linked sample_start of None \<Rightarrow> False
      | Some s \<Rightarrow> (case heap s 0 of None \<Rightarrow> False | Some cl \<Rightarrow> \<not> oversize cl [7] \<and> pairedWith cl = ''b'') \<and>
          clients s ''b'' = Some 1 \<and> threads s 1 = Some Pumping \<and>
          (case heap s 1 of None \<Rightarrow> False
           | Some pl \<Rightarrow> \<not> closed pl \<and> connOpen pl \<and> writing pl \<and> length (send pl) = 2 \<and> list_all (\<lambda>f. \<not> closeAfter f) (send pl)) \<and>
          perform (\<lambda>_. None) sample_cfg ?e s \<noteq> None"
    by code_simp
  then obtain s t cl pl where s: "performs (\<lambda>_. None) sample_cfg sample_linked sample_start = Some s"
    and t: "perform (\<lambda>_. None) sample_cfg ?e s = Some t"
    and cl: "heap s 0 = Some cl" "\<not> oversize cl [7]" "pairedWith cl = ''b''"
    and d: "clients s ''b'' = Some 1" "threads s 1 = Some Pumping" "heap s 1 = Some pl"
    and pl: "\<not> closed pl" "connOpen pl" "writing pl" "length (send pl) = 2" "list_all (\<lambda>f. \<not> closeAfter f) (send pl)"
    by (auto simp del: perform.simps performs.simps split: option.splits)
  have "clients s (pairedWith cl) = Some 1" "pairedWith cl \<noteq> ''''" "length (send pl) < sendBufferSize"
    using cl d pl by (simp_all add: sendBufferSize_def)
  from routed_frame_delivered [OF t cl(1,2) this(2,1) d(2,3) pl(1-3) this(3) pl(5)] s t pl(4) show ?thesis
    by (force simp del: perform.simps performs.simps simp: numeral_2_eq_2)
qed

text \<open>
  C22: the hub catches up. From every reachable state, serving what waits in its two
  channels takes one round each, succeeds, leaves both empty, and then every connection that is
  neither closed nor finished is the one registered for its device.
\<close>

theorem hub_drains:
  assumes "reach initial (relay_step unmarshal cfg) s"
  shows "\<exists>t. performs unmarshal cfg
      (replicate (length (registerQ s)) (Hub True) @ replicate (length (unregisterQ s)) (Hub False)) s = Some t \<and>
    registerQ t = [] \<and> unregisterQ t = [] \<and>
    (\<forall>c cl. heap t c = Some cl \<longrightarrow> live t c cl \<longrightarrow> clients t (DeviceID cl) = Some c)"
proof -
  obtain u where u: "performs unmarshal cfg (replicate (length (registerQ s)) (Hub True)) s = Some u"
    "registerQ u = []" "unregisterQ u = unregisterQ s"
    using registers_drain by blast
  obtain t where t: "performs unmarshal cfg (replicate (length (unregisterQ u)) (Hub False)) u = Some t"
    "unregisterQ t = []" "registerQ t = registerQ u"
    using unregisters_drain by blast
  have run: "performs unmarshal cfg
      (replicate (length (registerQ s)) (Hub True) @ replicate (length (unregisterQ s)) (Hub False)) s = Some t"
    using u t by (simp add: performs_append)
  have "hub_inv t"
    using relay_sys.reach_inv [OF performs_reach [OF run assms]] by (simp add: relay_inv_def)
  with hub_invD(4) [of t] t(3) u(2) have "\<forall>c cl. heap t c = Some cl \<longrightarrow> live t c cl \<longrightarrow> clients t (DeviceID cl) = Some c"
    by fastforce
  with run t u show ?thesis by simp
qed

theorem hub_drains_witness:
  "\<exists>s t. performs (\<lambda>_. None) sample_cfg (sample_linked @ [Connect 2 ''a'' ''ta'' True 2, Read 0 None False 3 InError]) sample_start = Some s \<and>
     performs (\<lambda>_. None) sample_cfg [Hub True, Hub False] s = Some t \<and> registerQ t = [] \<and> unregisterQ t = []"
proof -
  let ?es = "sample_linked @ [Connect 2 ''a'' ''ta'' True 2, Read 0 None False 3 InError]"
  have "case performs (\<lambda>_. None) sample_cfg ?es sample_start of None \<Rightarrow> False
      | Some s \<Rightarrow> length (registerQ s) = 1 \<and> length (unregisterQ s) = 1"
    by code_simp
  then obtain s where s: "performs (\<lambda>_. None) sample_cfg ?es sample_start = Some s"
    "length (registerQ s) = 1" "length (unregisterQ s) = 1"
    by (auto simp del: perform.simps performs.simps split: option.splits)
  have "reach initial (relay_step (\<lambda>_. None) sample_cfg) sample_start"
    by (rule reach_init) (auto simp: initial_def sample_start_def)
  from hub_drains [OF performs_reach [OF s(1) this]] s show ?thesis
    by (auto simp del: perform.simps performs.simps)
qed

end
