(* ===== verification/Sdk_Conversation.thy ===== *)
theory Sdk_Conversation
  imports Sdk_System
begin

text \<open>
  Two clients of the library that have completed a handshake with each other: what one sends
  the other receives, and how a cancelled \<open>Send\<close> ends that for good.
\<close>

section \<open>Definitions\<close>

text \<open>
  Client \<open>cA\<close> knows the other as \<open>i\<close>, client \<open>cB\<close> knows the sender as \<open>j\<close>; both have a
  ready active session, and the cipher states of the direction from \<open>cA\<close> to \<open>cB\<close> are \<open>c\<close> and
  \<open>d\<close>.
\<close>

definition talks :: "('h, 'c) Client \<Rightarrow> device_id \<Rightarrow> 'c \<Rightarrow> bool" where
  "talks c i cs \<longleftrightarrow> (\<exists>p k s x. peers c i = Some p \<and> active p = Some k \<and> c_sessions c k = Some s \<and>
     session_status s = statusReady \<and> cipherStates s = Some (cs, x))"

definition listens :: "('h, 'c) Client \<Rightarrow> device_id \<Rightarrow> 'c \<Rightarrow> bool" where
  "listens c j cs \<longleftrightarrow> (\<exists>p k s x. peers c j = Some p \<and> pc_id p = j \<and> active p = Some k \<and> c_sessions c k = Some s \<and>
     session_status s = statusReady \<and> cipherStates s = Some (x, cs))"

text \<open>The frames of a sequence of calls of \<open>Send\<close>, each read by the other client.\<close>

fun conversation ::
  "('h, 'c) noiseLib \<Rightarrow> time \<Rightarrow> device_id \<Rightarrow> device_id \<Rightarrow> bytes list \<Rightarrow> ('h, 'c) Client \<Rightarrow> ('h, 'c) Client \<Rightarrow> ('h, 'c) Client" where
  "conversation lib now i j [] cA cB = cB"
| "conversation lib now i j (m # ms) cA cB =
     (case Send lib SendCase i m cA of
        (Some _, cA') \<Rightarrow> conversation lib now i j ms cA' cB
      | (None, cA') \<Rightarrow>
          (case last (sends cA') of
             BinaryFrame f \<Rightarrow> conversation lib now i j ms cA' (readBinary lib SaveOk '''' [] now 0 j f cB)
           | TextFrame _ \<Rightarrow> conversation lib now i j ms cA' cB))"

section \<open>One message\<close>

lemma envelope_kinds [simp]: "envelopeTransport \<noteq> envelopeHandshake"
  by (simp add: envelopeTransport_def envelopeHandshake_def)

lemma Send_talks:
  assumes "talks c i cs" and "Encrypt lib cs m = Some (ct, cs')"
  shows "\<exists>c'. Send lib sel i m c = ((case sel of SendCase \<Rightarrow> None | CtxCase \<Rightarrow> Some (Sentinel (ErrOther ''context''))
        | DoneCase \<Rightarrow> Some (Sentinel (ErrOther ''client is closed''))), c') \<and> talks c' i cs' \<and>
      (sel = SendCase \<longrightarrow> sends c' = sends c @ [BinaryFrame (encodeEnvelope envelopeTransport ct)])"
proof -
  obtain p k s x where p: "peers c i = Some p" "active p = Some k" "c_sessions c k = Some s"
    and s: "session_status s = statusReady" "cipherStates s = Some (cs, x)"
    using assms(1) unfolding talks_def by blast
  then have snd: "peerSend lib m (p, c_sessions c) = (Inr ct, (c_sessions c)(k \<mapsto> s\<lparr>cipherStates := Some (cs', x)\<rparr>))"
    using assms(2) by (simp add: peerSend_def encrypt_def)
  show ?thesis
    using p s by (cases sel) (simp_all add: Send_def getPeerConn_def snd talks_def)
qed

lemma readBinary_transport:
  assumes "peers c j = Some p" and "pc_id p = j" and "active p = Some k" and "c_sessions c k = Some s"
    and "session_status s = statusReady" and "cipherStates s = Some (x, cs)"
  shows "readBinary lib res t rnd now n j (encodeEnvelope envelopeTransport ct) c =
    (case Decrypt lib cs ct of
       None \<Rightarrow> c
     | Some (m, cs') \<Rightarrow> snd (deliver \<lparr>From = j, Payload = m, Timestamp = now\<rparr>
         (c\<lparr>c_sessions := (c_sessions c)(k \<mapsto> s\<lparr>cipherStates := Some (x, cs')\<rparr>)\<rparr>)))"
proof -
  have "c_sessions c = (c_sessions c)(k \<mapsto> s)" using assms(4) by (simp add: fun_upd_idem)
  then have same: "c\<lparr>c_sessions := (c_sessions c)(k \<mapsto> s)\<rparr> = c" by simp
  show ?thesis
    using assms(1-6) same
    by (simp add: readBinary_def envelope_roundtrip handleTransportEnvelope_def getSolePeer_def peerRecv_def decrypt_def
        split: option.split prod.split)
qed

lemma readBinary_listens:
  assumes "listens c j cs" and "Decrypt lib cs ct = Some (m, cs')"
  shows "listens (readBinary lib res t rnd now n j (encodeEnvelope envelopeTransport ct) c) j cs'"
    and "length (messages c) < messagesCapacity \<Longrightarrow>
      messages (readBinary lib res t rnd now n j (encodeEnvelope envelopeTransport ct) c) =
        messages c @ [\<lparr>From = j, Payload = m, Timestamp = now\<rparr>]"
proof -
  obtain p k s x where "peers c j = Some p" "pc_id p = j" "active p = Some k" "c_sessions c k = Some s"
    "session_status s = statusReady" "cipherStates s = Some (x, cs)"
    using assms(1) unfolding listens_def by blast
  note run = readBinary_transport [OF this, of lib res t rnd now n ct, unfolded assms(2) option.case prod.case] and facts = this
  show "listens (readBinary lib res t rnd now n j (encodeEnvelope envelopeTransport ct) c) j cs'"
    using facts unfolding run listens_def deliver_def by auto
  show "messages (readBinary lib res t rnd now n j (encodeEnvelope envelopeTransport ct) c) =
        messages c @ [\<lparr>From = j, Payload = m, Timestamp = now\<rparr>]" if "length (messages c) < messagesCapacity"
    using that unfolding run deliver_def by simp
qed

lemma readBinary_undecryptable:
  assumes "listens c j cs" and "Decrypt lib cs ct = None"
  shows "readBinary lib res t rnd now n j (encodeEnvelope envelopeTransport ct) c = c"
proof -
  obtain p k s x where "peers c j = Some p" "pc_id p = j" "active p = Some k" "c_sessions c k = Some s"
    "session_status s = statusReady" "cipherStates s = Some (x, cs)"
    using assms(1) unfolding listens_def by blast
  from readBinary_transport [OF this] assms(2) show ?thesis by simp
qed

section \<open>Many messages\<close>

lemma noise_contract_transport:
  assumes "noise_contract lib pub paired N" and "paired (Suc n) c d"
  obtains ct c' d' where "Encrypt lib c m = Some (ct, c')" "Decrypt lib d ct = Some (m, d')" "paired n c' d'"
  using assms unfolding noise_contract_def by blast

text \<open>Everything sent is received, in order, while the nonces and the message buffer last.\<close>

lemma conversation_delivers:
  assumes "noise_contract lib pub paired N"
  shows "talks cA i c \<Longrightarrow> listens cB j d \<Longrightarrow> paired n c d \<Longrightarrow> length ms \<le> n \<Longrightarrow>
    length (messages cB) + length ms \<le> messagesCapacity \<Longrightarrow>
    messages (conversation lib now i j ms cA cB) =
      messages cB @ map (\<lambda>m. \<lparr>From = j, Payload = m, Timestamp = now\<rparr>) ms"
proof (induction ms arbitrary: cA cB c d n)
  case (Cons m ms)
  then obtain n' where n: "n = Suc n'" by (cases n) auto
  obtain ct c' d' where step: "Encrypt lib c m = Some (ct, c')" "Decrypt lib d ct = Some (m, d')" "paired n' c' d'"
    using noise_contract_transport [OF assms Cons.prems(3) [unfolded n]] .
  obtain cA' where sent: "Send lib SendCase i m cA = (None, cA')" "talks cA' i c'"
    "sends cA' = sends cA @ [BinaryFrame (encodeEnvelope envelopeTransport ct)]"
    using Send_talks [OF Cons.prems(1) step(1), of SendCase] by auto
  let ?cB = "readBinary lib SaveOk '''' [] now 0 j (encodeEnvelope envelopeTransport ct) cB"
  have got: "messages ?cB = messages cB @ [\<lparr>From = j, Payload = m, Timestamp = now\<rparr>]"
    using readBinary_listens(2) [OF Cons.prems(2) step(2)] Cons.prems(5) by simp
  have "messages (conversation lib now i j ms cA' ?cB) =
      messages ?cB @ map (\<lambda>m. \<lparr>From = j, Payload = m, Timestamp = now\<rparr>) ms"
    using Cons.prems(4,5) n got
    by (intro Cons.IH [OF sent(2) readBinary_listens(1) [OF Cons.prems(2) step(2)] step(3)]) simp_all
  with got sent show ?case by simp
qed simp

text \<open>With counting ciphertexts, a receiver that is behind the sender stays behind.\<close>

lemma conversation_out_of_step:
  "talks cA i c \<Longrightarrow> listens cB j d \<Longrightarrow> d < c \<Longrightarrow> conversation counterLib now i j ms cA cB = cB"
proof (induction ms arbitrary: cA c)
  case (Cons m ms)
  have enc: "Encrypt counterLib c m = Some (replicate c 0 @ 1 # m, c + 1)"
    by (simp add: counterLib_def)
  obtain cA' where sent: "Send counterLib SendCase i m cA = (None, cA')" "talks cA' i (c + 1)"
    "sends cA' = sends cA @ [BinaryFrame (encodeEnvelope envelopeTransport (replicate c 0 @ 1 # m))]"
    using Send_talks [OF Cons.prems(1) enc, of SendCase] by auto
  have "readBinary counterLib SaveOk '''' [] now 0 j (encodeEnvelope envelopeTransport (replicate c 0 @ 1 # m)) cB = cB"
    using readBinary_undecryptable [OF Cons.prems(2) counterLib_mismatch [OF Cons.prems(3)]] .
  moreover have "conversation counterLib now i j ms cA' cB = cB"
    by (rule Cons.IH [OF sent(2) Cons.prems(2)]) (use Cons.prems(3) in simp)
  ultimately show ?case using sent by simp
qed simp

section \<open>Sample clients\<close>

text \<open>A client with a ready session for the peer \<open>i\<close>, nothing sent or received on it yet.\<close>

definition sample_talker :: "device_id \<Rightarrow> (bool \<times> nat \<times> bytes \<times> bytes, nat) Client" where
  "sample_talker i = sample_client
     \<lparr>peers := [i \<mapsto> (newPeerConn i '''')\<lparr>active := Some 0\<rparr>],
      c_sessions := [0 \<mapsto> \<lparr>session_status = statusReady, session_err = None, initiator = True, hs = (True, 3, [], []),
        gotMsg1 = False, cipherStates = Some (0, 0), peerStatic = [], readyClosed = 1\<rparr>]\<rparr>"

lemma sample_talker_talks: "talks (sample_talker i) i 0" "listens (sample_talker i) i 0"
  "messages (sample_talker i) = []" "sends (sample_talker i) = []"
  by (auto simp: talks_def listens_def sample_talker_def newPeerConn_def sample_client_def newClient_def)

section \<open>Properties\<close>



end
