(* ===== verification/Sdk_Pairing.thy ===== *)
theory Sdk_Pairing
  imports Sdk_Conversation
begin

text \<open>
  The steps of a first pairing at one client of the library, as equations: asking for a code and
  getting it, accepting one, learning of the peer, and the handshake messages up to the
  resolution, on the branches where everything succeeds.
\<close>

section \<open>Calls and control frames\<close>

lemma request_pair_code:
  assumes "\<not> c_closed c" and "pairWaiters c = []" and "sends c = []"
  shows "sdk_do lib sbm (CallRequest ch) c = Some (c\<lparr>pairWaiters := [(requestKey, \<lparr>wt_ch = ch, weAreAcceptor = False\<rparr>)],
    sends := [TextFrame (emptyMessage ''pair_request'')]\<rparr>)"
  using assms by (simp add: RequestPairCode_def putPairWaiter_def pushSend_def Let_def)

lemma pair_code_arrives:
  assumes "pairWaiters c = [(requestKey, \<lparr>wt_ch = ch, weAreAcceptor = False\<rparr>)]" and "chans c ch = []"
    and "m_Type frame = ''pair_code''" and "c_sessions c n = None"
  shows "sdk_do lib sbm (FromServer rnd n frame) c = Some (c\<lparr>pairWaiters := [],
    chans := (chans c)(ch := [emptyResult\<lparr>res_Code := m_Code frame, res_ExpiresIn := m_ExpiresIn frame\<rparr>])\<rparr>)"
  using assms by (simp add: dispatch_def handlePairCode_def takePairWaiter_def notify_def)

lemma pair_code_returned:
  assumes "pairWaiters c = []" and "chans c ch = [emptyResult\<lparr>res_Code := code, res_ExpiresIn := x\<rparr>]"
  shows "fst (RequestPairCode_result ch ch' c) = Some (Inr (code, x))"
    and "sdk_do lib sbm (RequestDone ch ch') c = Some (c\<lparr>pairWaiters := [(code, \<lparr>wt_ch = ch', weAreAcceptor = False\<rparr>)],
      chans := (chans c)(ch := [])\<rparr>)"
  using assms by (simp_all add: RequestPairCode_result_def putPairWaiter_def emptyResult_def Let_def)

lemma accept_pair:
  assumes "\<not> c_closed c" and "pairWaiters c = []" and "sends c = []"
  shows "sdk_do lib sbm (CallAccept ch code) c = Some (c\<lparr>pairWaiters := [(code, \<lparr>wt_ch = ch, weAreAcceptor = True\<rparr>)],
    sends := [TextFrame ((emptyMessage ''pair_accept'')\<lparr>m_Code := code\<rparr>)]\<rparr>)"
  using assms by (simp add: AcceptPair_def putPairWaiter_def pushSend_def Let_def)

text \<open>The requester waits for a handshake message; the acceptor starts the handshake.\<close>

lemma requester_learns_peer:
  assumes "pairWaiters c = [(code, \<lparr>wt_ch = ch, weAreAcceptor = False\<rparr>)]" and "m_Type frame = ''pair_complete''"
    and "m_Code frame = code" and "m_PeerID frame = i" and "m_PeerStaticKey frame = key" and "c_sessions c n = None"
  shows "sdk_do lib sbm (FromServer rnd n frame) c = Some (c\<lparr>pairWaiters := [],
    peers := (peers c)(i \<mapsto> (newPeerConn i key)\<lparr>firstPairWaiter := Some ch\<rparr>)\<rparr>)"
  using assms by (simp add: dispatch_def handlePairComplete_def takePairWaiter_def setFirstPairWaiter_def setPeerConn_def Let_def)

lemma acceptor_learns_peer:
  assumes "pairWaiters c = [(code, \<lparr>wt_ch = ch, weAreAcceptor = True\<rparr>)]" and "m_Type frame = ''pair_complete''"
    and "m_Code frame = code" and "m_PeerID frame = i" and "m_PeerStaticKey frame = key" and "c_sessions c n = None"
    and "newInitiatorSession lib rnd (opt_PrivateKey (opts c)) = Inr (s, m1)" and "\<not> c_closed c" and "sends c = []"
  shows "sdk_do lib sbm (FromServer rnd n frame) c = Some (c\<lparr>pairWaiters := [],
    peers := (peers c)(i \<mapsto> (newPeerConn i key)\<lparr>firstPairWaiter := Some ch, active := Some n\<rparr>),
    c_sessions := (c_sessions c)(n \<mapsto> s), sends := [BinaryFrame (encodeEnvelope envelopeHandshake m1)]\<rparr>)"
  using assms
  by (simp add: dispatch_def handlePairComplete_def takePairWaiter_def setFirstPairWaiter_def setPeerConn_def startAsInitiator_def
      enqueueBinary_def pushSend_def Let_def)

section \<open>Handshake messages\<close>

lemma responder_answers:
  assumes "peers c i = Some p" and "active p = None" and "pending p = None" and "\<not> c_closed c" and "sends c = []"
    and "newResponderSession lib rnd (opt_PrivateKey (opts c)) = Inr b0"
    and "handleHandshakeMessage lib m1 b0 = ((Some m2, False, None), b1)" and "c_sessions c n = None"
  shows "sdk_do lib sbm (BinaryFromServer res t rnd now n i (encodeEnvelope envelopeHandshake m1)) c =
    Some (c\<lparr>peers := (peers c)(i \<mapsto> p\<lparr>active := Some n\<rparr>), c_sessions := (c_sessions c)(n \<mapsto> b1),
      sends := [BinaryFrame (encodeEnvelope envelopeHandshake m2)]\<rparr>)"
  using assms
  by (simp add: readBinary_def envelope_roundtrip handleHandshakeEnvelope_def getSolePeer_def peerHandleHandshake_def chooseSession_def
      setPeerConn_def enqueueBinary_def pushSend_def Let_def)

text \<open>The key that a handshake authenticated is new, or the pinned one, and agrees with the announced one.\<close>

lemma verifyAndPin_agrees:
  assumes "Get (pc_id p) (fst st) \<in> {None, Some (encodeBase64 (peerStatic s))}"
    and "announcedStaticKey p \<in> {'''', encodeBase64 (peerStatic s)}" and "length (peerStatic s) = 32"
  obtains st' where "verifyAndPin SaveOk t p s st = (Inr (peerStatic s), st')"
    and "Get (pc_id p) (fst st') = Some (encodeBase64 (peerStatic s))"
proof -
  obtain e st' where pv: "PinOrVerify SaveOk t (pc_id p) (encodeBase64 (peerStatic s)) st = (e, st')" by (meson surj_pair)
  have "e = None" and got: "Get (pc_id p) (fst st') = Some (encodeBase64 (peerStatic s))"
    using assms(1) pv by (auto simp: PinOrVerify_def Get_def saveLocked_def Let_def case_prod_beta split: option.splits if_splits)
  with pv assms(2,3) have "verifyAndPin SaveOk t p s st = (Inr (peerStatic s), st')"
    by (auto simp: verifyAndPin_def publicKey_roundtrip)
  with got show thesis by (rule that [rotated])
qed

text \<open>The message that completes the first handshake of a peer.\<close>

lemma handshake_completes:
  assumes "peers c i = Some p" and "pc_id p = i" and "active p = Some k" and "pending p = None" and "firstPairWaiter p = Some ch"
    and "c_sessions c k = Some s" and "\<not> ready s" and "handleHandshakeMessage lib m s = ((reply, True, None), s')"
    and "verifyAndPin res t p s' (peerStore c) = (Inr pub, st)" and "chans c ch = []"
    and "\<not> c_closed c" and "sends c = []" and "c_sessions c n = None"
  shows "sdk_do lib sbm (BinaryFromServer res t rnd now n i (encodeEnvelope envelopeHandshake m)) c =
    Some (c\<lparr>peers := (peers c)(i \<mapsto> p\<lparr>firstPairWaiter := None\<rparr>), c_sessions := (c_sessions c)(k \<mapsto> s'), peerStore := st,
      sends := map (\<lambda>m. BinaryFrame (encodeEnvelope envelopeHandshake m)) (case reply of None \<Rightarrow> [] | Some m \<Rightarrow> [m]),
      chans := (chans c)(ch := [emptyResult\<lparr>res_PeerID := i, res_PeerPublicKey := pub\<rparr>]), calls := calls c @ [OnReady i]\<rparr>)"
proof (cases reply)
  case None
  with assms show ?thesis
    by (simp add: readBinary_def envelope_roundtrip handleHandshakeEnvelope_def getSolePeer_def peerHandleHandshake_def chooseSession_def
        readyAt_def setPeerConn_def resolveHandshake_def takeFirstPairWaiter_def notify_def emptyResult_def Let_def)
next
  case (Some m')
  with assms show ?thesis
    by (simp add: readBinary_def envelope_roundtrip handleHandshakeEnvelope_def getSolePeer_def peerHandleHandshake_def chooseSession_def
        readyAt_def setPeerConn_def enqueueBinary_def pushSend_def resolveHandshake_def takeFirstPairWaiter_def notify_def emptyResult_def Let_def)
qed

end
