(* ===== verification/Whole_System.thy ===== *)
theory Whole_System
  imports Relay_Progress Sdk_Pairing
begin

text \<open>
  The relay and any number of clients of the Go library as one system. A client is joined to the
  connection it dialled: what its write loop takes from the outgoing channel travels to the
  relay's read pump, and what the relay's write pump puts on the wire travels to the client's
  read loop, each direction in order and with any delay. Everything else of the relay (other
  connections, the hub, administration, lost connections) and of the clients (calls of the
  application) goes on in between.

  Every run of the whole is a run of the relay and a run of each client, so what is proved of the
  parts holds of the whole. Pairing, the handshake and a message are followed through all of it.
\<close>

section \<open>Control messages on both sides\<close>

text \<open>
  The two programs have a struct each for the control channel, \<^verbatim>\<open>internal/relay/control.go\<close> and
  \<^verbatim>\<open>sdk/go/wire.go\<close>, with the same JSON names: what the message of one side is for the other.
\<close>

definition asControl :: "sdkMessage \<Rightarrow> controlMessage" where
  "asControl m =
     \<lparr>msg_Type = m_Type m, msg_ProtocolVersion = m_ProtocolVersion m, msg_DeviceID = m_DeviceID m,
      msg_Peers = map (\<lambda>p. \<lparr>info_ID = wp_ID p, info_StaticKey = wp_StaticKey p\<rparr>) (m_Peers m),
      msg_StaticKey = m_StaticKey m, msg_Code = m_Code m, msg_ExpiresIn = m_ExpiresIn m, msg_PeerID = m_PeerID m,
      msg_PeerStaticKey = m_PeerStaticKey m, msg_Online = m_Online m, msg_Message = m_Message m\<rparr>"

definition asSdk :: "controlMessage \<Rightarrow> sdkMessage" where
  "asSdk m =
     \<lparr>m_Type = msg_Type m, m_ProtocolVersion = msg_ProtocolVersion m, m_DeviceID = msg_DeviceID m,
      m_Peers = map (\<lambda>p. \<lparr>wp_ID = info_ID p, wp_StaticKey = info_StaticKey p\<rparr>) (msg_Peers m),
      m_StaticKey = msg_StaticKey m, m_Code = msg_Code m, m_ExpiresIn = msg_ExpiresIn m, m_PeerID = msg_PeerID m,
      m_PeerStaticKey = msg_PeerStaticKey m, m_Online = msg_Online m, m_Message = msg_Message m\<rparr>"

section \<open>State\<close>

text \<open>
  \<open>w_conn\<close> is the connection a client uses, \<open>w_owner\<close> the client at the far end of a connection
  (a connection without one belongs to a program outside the model), \<open>w_up\<close> the frames on their
  way to the relay, and \<open>w_down\<close> how much of what the relay wrote the client has read.
\<close>

record ('h, 'c) world =
  w_relay :: relay
  w_client :: "device_id \<Rightarrow> ('h, 'c) Client option"
  w_conn :: "device_id \<Rightarrow> cid option"
  w_owner :: "cid \<Rightarrow> device_id option"
  w_up :: "cid \<Rightarrow> outFrame list"
  w_down :: "cid \<Rightarrow> nat"

text \<open>The parameters of both programs; \<open>e_marshal\<close> is \<^verbatim>\<open>json.Marshal\<close> in the client.\<close>

record ('h, 'c) setting =
  e_lib :: "('h, 'c) noiseLib"
  e_sbm :: "bytes \<Rightarrow> bytes"
  e_marshal :: "sdkMessage \<Rightarrow> bytes"
  e_unmarshal :: "bytes \<Rightarrow> controlMessage option"
  e_cfg :: WSCfg

section \<open>Events\<close>

text \<open>
  \<open>Dialled i c\<close>: client \<open>i\<close> got the connection \<open>c\<close>. \<open>Hello i ok\<close>: it reads the first frame there
  and announces its key. \<open>Emit\<close> and \<open>Arrive\<close>: a frame leaves a client, and is read by the relay.
  \<open>Receive\<close>: a client reads the next frame.
\<close>

datatype world_event =
    Net event
  | App device_id client_event
  | DialledTo device_id cid
  | Hello device_id bool
  | Emit device_id
  | Arrive cid "bytes option" bool time
  | Receive device_id save_result string bytes time sid device_id

text \<open>What the relay may read by itself on a connection of a client is only its end.\<close>

fun foreign :: "(cid \<Rightarrow> device_id option) \<Rightarrow> event \<Rightarrow> bool" where
  "foreign owner (Read c rnd swap now msg) = (owner c = None \<or> msg = InError)"
| "foreign owner e = True"

text \<open>The events of a client that are calls of the application or its ticker.\<close>

fun application :: "client_event \<Rightarrow> bool" where
  "application (FromServer rnd n frame) = False"
| "application (BinaryFromServer res t rnd now n pick frame) = False"
| "application (Redial first ok) = False"
| "application WriteLoop = False"
| "application e = True"

definition inboundOf :: "('h, 'c) setting \<Rightarrow> outFrame \<Rightarrow> inbound" where
  "inboundOf E f = (case f of TextFrame m \<Rightarrow> InText (e_marshal E m) | BinaryFrame b \<Rightarrow> InBinary b)"

text \<open>What a client makes of a frame it reads; a ping or close frame is handled by the WebSocket library.\<close>

fun clientReads ::
  "save_result \<Rightarrow> string \<Rightarrow> bytes \<Rightarrow> time \<Rightarrow> sid \<Rightarrow> device_id \<Rightarrow> wireMessage \<Rightarrow> client_event option" where
  "clientReads res t rnd now n pick (WireFrame f) =
     (case data f of
        Control m \<Rightarrow> Some (FromServer rnd n (asSdk m))
      | Envelope b \<Rightarrow> Some (BinaryFromServer res t rnd now n pick b))"
| "clientReads res t rnd now n pick WireClose = None"
| "clientReads res t rnd now n pick WirePing = None"

text \<open>
  The first frame of a connection as \<open>dial\<close> sees it, and how much was read for it; \<open>None\<close> while
  there is none.
\<close>

fun firstFrame :: "wireMessage list \<Rightarrow> (nat \<times> (unit + sdkMessage) option) option" where
  "firstFrame [] = None"
| "firstFrame (WireFrame f # ws) = Some (1, Some (case data f of Control m \<Rightarrow> Inr (asSdk m) | Envelope b \<Rightarrow> Inl ()))"
| "firstFrame (WireClose # ws) = Some (1, None)"
| "firstFrame (WirePing # ws) = map_option (\<lambda>(k, first). (Suc k, first)) (firstFrame ws)"

definition clientDoes :: "('h, 'c) setting \<Rightarrow> device_id \<Rightarrow> client_event \<Rightarrow> ('h, 'c) world \<Rightarrow> ('h, 'c) world option" where
  "clientDoes E i e w =
     Option.bind (w_client w i) (\<lambda>c.
       map_option (\<lambda>c'. w\<lparr>w_client := (w_client w)(i \<mapsto> c')\<rparr>) (sdk_do (e_lib E) (e_sbm E) e c))"

definition relayDoes :: "('h, 'c) setting \<Rightarrow> event \<Rightarrow> ('h, 'c) world \<Rightarrow> ('h, 'c) world option" where
  "relayDoes E e w = map_option (\<lambda>s. w\<lparr>w_relay := s\<rparr>) (perform (e_unmarshal E) (e_cfg E) e (w_relay w))"

fun world_do :: "('h, 'c) setting \<Rightarrow> world_event \<Rightarrow> ('h, 'c) world \<Rightarrow> ('h, 'c) world option" where
  "world_do E (Net e) w = (if foreign (w_owner w) e then relayDoes E e w else None)"
| "world_do E (App i e) w = (if application e then clientDoes E i e w else None)"
| "world_do E (DialledTo i c) w =
     (case (w_client w i, heap (w_relay w) c) of
        (Some cl, Some rc) \<Rightarrow>
          (if w_owner w c \<noteq> None \<or> DeviceID rc \<noteq> opt_DeviceID (opts cl) then None
           else Some (w\<lparr>w_conn := (w_conn w)(i \<mapsto> c), w_owner := (w_owner w)(c \<mapsto> i)\<rparr>))
      | _ \<Rightarrow> None)"
| "world_do E (Hello i ok) w =
     (case (w_client w i, w_conn w i) of
        (Some cl, Some c) \<Rightarrow>
          (if w_down w c \<noteq> 0 then None
           else case Option.bind (heap (w_relay w) c) (\<lambda>rc. firstFrame (wire rc)) of
             None \<Rightarrow> None
           | Some (k, first) \<Rightarrow>
               (case dial (e_sbm E) first ok cl of
                  (Inl _, cl') \<Rightarrow> Some (w\<lparr>w_client := (w_client w)(i \<mapsto> cl'), w_conn := (w_conn w)(i := None)\<rparr>)
                | (Inr announce, cl') \<Rightarrow>
                    Some (w\<lparr>w_client := (w_client w)(i \<mapsto> cl'), w_up := (w_up w)(c := w_up w c @ [TextFrame announce]),
                      w_down := (w_down w)(c := k)\<rparr>)))
      | _ \<Rightarrow> None)"
| "world_do E (Emit i) w =
     (case (w_client w i, w_conn w i) of
        (Some cl, Some c) \<Rightarrow>
          map_option (\<lambda>(f, cl'). w\<lparr>w_client := (w_client w)(i \<mapsto> cl'), w_up := (w_up w)(c := w_up w c @ [f])\<rparr>) (writeLoop cl)
      | _ \<Rightarrow> None)"
| "world_do E (Arrive c rnd swap now) w =
     (case w_up w c of
        [] \<Rightarrow> None
      | f # fs \<Rightarrow> relayDoes E (Read c rnd swap now (inboundOf E f)) (w\<lparr>w_up := (w_up w)(c := fs)\<rparr>))"
| "world_do E (Receive i res t rnd now n pick) w =
     (case w_conn w i of
        None \<Rightarrow> None
      | Some c \<Rightarrow>
          (case heap (w_relay w) c of
             None \<Rightarrow> None
           | Some rc \<Rightarrow>
               (if w_down w c = 0 \<or> w_down w c \<ge> length (wire rc) then None
                else let w1 = w\<lparr>w_down := (w_down w)(c := w_down w c + 1)\<rparr>
                  in case clientReads res t rnd now n pick (wire rc ! w_down w c) of
                       None \<Rightarrow> Some w1
                     | Some e \<Rightarrow> clientDoes E i e w1)))"

fun world_dos :: "('h, 'c) setting \<Rightarrow> world_event list \<Rightarrow> ('h, 'c) world \<Rightarrow> ('h, 'c) world option" where
  "world_dos E [] w = Some w"
| "world_dos E (e # es) w = (case world_do E e w of None \<Rightarrow> None | Some w' \<Rightarrow> world_dos E es w')"

text \<open>A call of the application that makes a channel makes a new one.\<close>

fun world_fresh :: "world_event \<Rightarrow> ('h, 'c) world \<Rightarrow> bool" where
  "world_fresh (App i e) w = (\<forall>c. w_client w i = Some c \<longrightarrow> fresh_chan e c)"
| "world_fresh e w = True"

inductive world_step :: "('h, 'c) setting \<Rightarrow> ('h, 'c) world \<Rightarrow> ('h, 'c) world \<Rightarrow> bool"
  for E :: "('h, 'c) setting" where
  world_event: "world_do E e w = Some w' \<Longrightarrow> world_fresh e w \<Longrightarrow> world_step E w w'"

inductive_cases world_stepE [elim]: "world_step E w w'"

definition world_initial :: "('h, 'c) world \<Rightarrow> bool" where
  "world_initial w \<longleftrightarrow> initial (w_relay w) \<and> (\<forall>i c. w_client w i = Some c \<longrightarrow> sdk_initial c) \<and>
     w_conn w = Map.empty \<and> w_owner w = Map.empty \<and> w_up w = (\<lambda>_. []) \<and> w_down w = (\<lambda>_. 0)"

section \<open>The whole and its parts\<close>

lemma relayDoes_relay: "relayDoes E e w = Some w' \<Longrightarrow> perform (e_unmarshal E) (e_cfg E) e (w_relay w) = Some (w_relay w')"
  by (auto simp: relayDoes_def)

lemma relayDoes_client: "relayDoes E e w = Some w' \<Longrightarrow> w_client w' = w_client w"
  by (auto simp: relayDoes_def)

lemma clientDoes_relay: "clientDoes E i e w = Some w' \<Longrightarrow> w_relay w' = w_relay w"
  by (auto simp: clientDoes_def bind_eq_Some_conv)

lemma clientDoes_client:
  assumes "clientDoes E i e w = Some w'"
  obtains c c' where "w_client w i = Some c" and "sdk_do (e_lib E) (e_sbm E) e c = Some c'" and "w_client w' = (w_client w)(i \<mapsto> c')"
  using assms by (auto simp: clientDoes_def bind_eq_Some_conv)

text \<open>A step of the whole is a step of the relay or leaves it as it is.\<close>

lemma world_do_relay:
  assumes "world_do E e w = Some w'"
  shows "w_relay w' = w_relay w \<or> relay_step (e_unmarshal E) (e_cfg E) (w_relay w) (w_relay w')"
proof (cases e)
  case (Net ev)
  with assms have "relayDoes E ev w = Some w'" by (simp split: if_splits)
  then show ?thesis using step_event [OF relayDoes_relay] by blast
next
  case (Arrive c rnd swap now)
  with assms obtain f fs where "relayDoes E (Read c rnd swap now (inboundOf E f)) (w\<lparr>w_up := (w_up w)(c := fs)\<rparr>) = Some w'"
    by (auto split: list.splits)
  from step_event [OF relayDoes_relay [OF this]] show ?thesis by simp
next
  case (Receive i res t rnd now n pick)
  with assms show ?thesis
    by (auto simp: Let_def split: option.splits if_splits dest: clientDoes_relay)
qed (use assms in \<open>auto split: option.splits if_splits prod.splits sum.splits dest: clientDoes_relay\<close>)

text \<open>It is a step of one client, or leaves all of them as they are.\<close>

lemma world_do_client:
  assumes "world_do E e w = Some w'" and "world_fresh e w"
  shows "w_client w' = w_client w \<or>
    (\<exists>i c c'. w_client w i = Some c \<and> sdk_step (e_lib E) (e_sbm E) c c' \<and> w_client w' = (w_client w)(i \<mapsto> c'))"
proof -
  have step: "\<exists>i c c'. w_client w i = Some c \<and> sdk_step (e_lib E) (e_sbm E) c c' \<and> w_client w' = (w_client w)(i \<mapsto> c')"
    if "w_client w i = Some c" and "sdk_do (e_lib E) (e_sbm E) ev c = Some c'" and "w_client w' = (w_client w)(i \<mapsto> c')"
      and "fresh_chan ev c" for i c c' ev
    using that sdk_event by blast
  show ?thesis
  proof (cases e)
    case (Net ev)
    with assms show ?thesis by (auto split: if_splits dest: relayDoes_client)
  next
    case (App i ev)
    with assms have "clientDoes E i ev w = Some w'" by (simp split: if_splits)
    then show ?thesis
      by (rule clientDoes_client) (use step assms(2) App in auto)
  next
    case (DialledTo i c)
    with assms show ?thesis by (auto split: option.splits if_splits)
  next
    case (Hello i ok)
    with assms(1) obtain cl first r cl' where "w_client w i = Some cl" "dial (e_sbm E) first ok cl = (r, cl')"
      "w_client w' = (w_client w)(i \<mapsto> cl')"
      by (auto split: option.splits if_splits prod.splits sum.splits)
    then show ?thesis using step [of i cl "Redial first ok"] by (simp add: fresh_chan_def)
  next
    case (Emit i)
    with assms(1) obtain cl f cl' where "w_client w i = Some cl" "writeLoop cl = Some (f, cl')" "w_client w' = (w_client w)(i \<mapsto> cl')"
      by (auto split: option.splits)
    then show ?thesis using step [of i cl WriteLoop] by (simp add: fresh_chan_def)
  next
    case (Arrive c rnd swap now)
    with assms show ?thesis by (auto split: list.splits dest: relayDoes_client)
  next
    case (Receive i res t rnd now n pick)
    with assms(1) obtain c rc where rc: "w_conn w i = Some c" "heap (w_relay w) c = Some rc"
      and res: "(case clientReads res t rnd now n pick (wire rc ! w_down w c) of None \<Rightarrow> Some (w\<lparr>w_down := (w_down w)(c := w_down w c + 1)\<rparr>)
          | Some e \<Rightarrow> clientDoes E i e (w\<lparr>w_down := (w_down w)(c := w_down w c + 1)\<rparr>)) = Some w'"
      by (auto simp: Let_def split: option.splits if_splits)
    show ?thesis
    proof (cases "clientReads res t rnd now n pick (wire rc ! w_down w c)")
      case None
      with res show ?thesis by auto
    next
      case (Some ev)
      then have fr: "fresh_chan ev x" for x :: "('a, 'b) Client"
        by (cases "wire rc ! w_down w c") (auto simp: fresh_chan_def split: frameData.splits)
      from Some res have "clientDoes E i ev (w\<lparr>w_down := (w_down w)(c := w_down w c + 1)\<rparr>) = Some w'" by simp
      then show ?thesis
        by (rule clientDoes_client) (use step fr in auto)
    qed
  qed
qed

lemma world_reach_parts:
  assumes "reach world_initial (world_step E) w"
  shows "reach initial (relay_step (e_unmarshal E) (e_cfg E)) (w_relay w) \<and>
    (\<forall>i c. w_client w i = Some c \<longrightarrow> reach sdk_initial (sdk_step (e_lib E) (e_sbm E)) c)"
  using assms
proof (induction rule: reach.induct)
  case (reach_init w)
  then show ?case by (auto simp: world_initial_def intro: reach.reach_init)
next
  case (reach_step w w')
  from reach_step.hyps(2) obtain e where e: "world_do E e w = Some w'" "world_fresh e w" by blast
  have "reach initial (relay_step (e_unmarshal E) (e_cfg E)) (w_relay w')"
    using world_do_relay [OF e(1)] reach_step.IH by (metis reach.reach_step)
  moreover have "reach sdk_initial (sdk_step (e_lib E) (e_sbm E)) c" if "w_client w' i = Some c" for i c
  proof -
    consider "w_client w' = w_client w" | j d d' where "w_client w j = Some d" "sdk_step (e_lib E) (e_sbm E) d d'"
      "w_client w' = (w_client w)(j \<mapsto> d')"
      using world_do_client [OF e] by blast
    then show ?thesis
    proof cases
      case 1
      then show ?thesis using reach_step.IH that by simp
    next
      case 2
      then show ?thesis using reach_step.IH that by (auto split: if_splits intro: reach.reach_step)
    qed
  qed
  ultimately show ?case by blast
qed

section \<open>One frame up, one frame down\<close>

lemma world_dos_append:
  "world_dos E (es @ fs) w = Option.bind (world_dos E es w) (world_dos E fs)"
  by (induction es arbitrary: w) (simp_all split: option.split)

text \<open>
  \<open>joined w i a c cl\<close>: client \<open>i\<close>, in state \<open>c\<close>, is served by the relay on connection \<open>a\<close>, whose
  object is \<open>cl\<close>; nothing is on its way up, and everything the relay wrote has been read.
\<close>

definition joined :: "('h, 'c) world \<Rightarrow> device_id \<Rightarrow> cid \<Rightarrow> ('h, 'c) Client \<Rightarrow> client \<Rightarrow> bool" where
  "joined w i a c cl \<longleftrightarrow>
     w_client w i = Some c \<and> w_conn w i = Some a \<and> w_owner w a = Some i \<and> w_up w a = [] \<and>
     w_down w a = length (wire cl) \<and> wire cl \<noteq> [] \<and>
     heap (w_relay w) a = Some cl \<and> threads (w_relay w) a = Some Pumping \<and> clients (w_relay w) i = Some a \<and>
     DeviceID cl = i \<and> connOpen cl \<and> writing cl \<and> \<not> closed cl"

text \<open>What a step on behalf of one client leaves to another.\<close>

definition same_rest :: "('h, 'c) world \<Rightarrow> ('h, 'c) world \<Rightarrow> bool" where
  "same_rest w w' \<longleftrightarrow> store (w_relay w') = store (w_relay w) \<and> pairCodes (w_relay w') = pairCodes (w_relay w)"

lemma joined_app:
  assumes "joined w i a c cl" and "joined w j b d dl" and "i \<noteq> j"
    and "application e" and "sdk_do (e_lib E) (e_sbm E) e c = Some c'"
  obtains w' where "world_do E (App i e) w = Some w'" and "joined w' i a c' cl" and "joined w' j b d dl" and "same_rest w w'"
  using assms by (auto simp: joined_def clientDoes_def same_rest_def)

lemma joined_download:
  assumes "joined w i a c cl" and "joined w j b d dl" and "i \<noteq> j" and "a \<noteq> b"
    and "send cl = f # fs" and "\<not> closeAfter f"
    and "clientReads res t rnd now n pick (WireFrame f) = Some e" and "sdk_do (e_lib E) (e_sbm E) e c = Some c'"
  obtains w' where "world_dos E [Net (Write a True), Receive i res t rnd now n pick] w = Some w'"
    and "joined w' i a c' (cl\<lparr>send := fs, wire := wire cl @ [WireFrame f]\<rparr>)" and "joined w' j b d dl" and "same_rest w w'"
proof -
  let ?cl = "cl\<lparr>send := fs, wire := wire cl @ [WireFrame f]\<rparr>"
  let ?s = "onClient a (writeStep True) (w_relay w)"
  have wr: "writeStep True cl = ?cl" using assms(1,5,6) by (simp add: writeStep_def joined_def)
  have "world_dos E [Net (Write a True), Receive i res t rnd now n pick] w = Some (w\<lparr>w_relay := ?s,
      w_down := (w_down w)(a := Suc (w_down w a)), w_client := (w_client w)(i \<mapsto> c')\<rparr>)" (is "_ = Some ?w'")
    using assms(1,7,8) by (simp add: joined_def relayDoes_def heap_onClient wr clientDoes_def)
  moreover have "joined ?w' i a c' ?cl" "joined ?w' j b d dl" "same_rest w ?w'"
    using assms(1-4) by (simp_all add: joined_def heap_onClient wr same_rest_def)
  ultimately show thesis by (rule that)
qed

lemma joined_upload:
  assumes "joined w i a c cl" and "sends c = [f]"
    and "readPump (e_unmarshal E) rnd swap now a cl (inboundOf E f) (w_relay w) = s'"
  shows "world_dos E [Emit i, Arrive a rnd swap now] w = Some (w\<lparr>w_client := (w_client w)(i \<mapsto> c\<lparr>sends := []\<rparr>), w_relay := s'\<rparr>)"
proof -
  have "(w_up w)(a := []) = w_up w" using assms(1) by (simp add: joined_def fun_upd_idem)
  with assms show ?thesis
    by (auto simp: joined_def writeLoop_def relayDoes_def inboundOf_def split: outFrame.split)
qed

text \<open>A binary frame goes from a client to its peer.\<close>

lemma joined_route:
  assumes "joined w i a c cl" and "joined w j b d dl" and "i \<noteq> j" and "a \<noteq> b" and "j \<noteq> ''''"
    and "sends c = [BinaryFrame f]" and "pairedWith cl = j" and "\<not> oversize cl f"
    and "send dl = []" and "sdk_do (e_lib E) (e_sbm E) (BinaryFromServer res t rnd' now' n pick f) d = Some d'"
  obtains w' where
    "world_dos E [Emit i, Arrive a rnd swap now, Net (Write b True), Receive j res t rnd' now' n pick] w = Some w'"
    and "joined w' i a (c\<lparr>sends := []\<rparr>) cl" and "joined w' j b d' (dl\<lparr>wire := wire dl @ [WireFrame (envelopeFrame f)]\<rparr>)"
    and "same_rest w w'"
proof -
  let ?dl = "dl\<lparr>send := [envelopeFrame f]\<rparr>"
  have "readPump (e_unmarshal E) rnd swap now a cl (inboundOf E (BinaryFrame f)) (w_relay w) = Route f j (w_relay w)"
    using assms(5,7,8) by (simp add: readPump_def inboundOf_def Peer_def)
  moreover have "Route f j (w_relay w) = onClient b (\<lambda>_. ?dl) (w_relay w)"
    using assms(2,9) by (simp add: Route_def joined_def enqueueTo_eq enqueue_def sendBufferSize_def onClient_def)
  ultimately have up: "world_dos E [Emit i, Arrive a rnd swap now] w =
      Some (w\<lparr>w_client := (w_client w)(i \<mapsto> c\<lparr>sends := []\<rparr>), w_relay := onClient b (\<lambda>_. ?dl) (w_relay w)\<rparr>)" (is "_ = Some ?w1")
    using joined_upload [OF assms(1,6), of E rnd swap now] by simp
  have j1: "joined ?w1 i a (c\<lparr>sends := []\<rparr>) cl" "joined ?w1 j b d ?dl" "same_rest w ?w1"
    using assms(1-4) by (simp_all add: joined_def heap_onClient same_rest_def)
  have f: "send ?dl = envelopeFrame f # []" "\<not> closeAfter (envelopeFrame f)"
    "clientReads res t rnd' now' n pick (WireFrame (envelopeFrame f)) = Some (BinaryFromServer res t rnd' now' n pick f)"
    by simp_all
  obtain w' where down: "world_dos E [Net (Write b True), Receive j res t rnd' now' n pick] ?w1 = Some w'"
    and fin: "joined w' j b d' (?dl\<lparr>send := [], wire := wire ?dl @ [WireFrame (envelopeFrame f)]\<rparr>)"
      "joined w' i a (c\<lparr>sends := []\<rparr>) cl" "same_rest ?w1 w'"
    by (rule joined_download [OF j1(2,1) assms(3) [symmetric] assms(4) [symmetric] f assms(10)])
  have "world_dos E ([Emit i, Arrive a rnd swap now] @ [Net (Write b True), Receive j res t rnd' now' n pick]) w = Some w'"
    unfolding world_dos_append up bind.bind_lunit by (rule down)
  moreover have "?dl\<lparr>send := [], wire := wire ?dl @ [WireFrame (envelopeFrame f)]\<rparr> = dl\<lparr>wire := wire dl @ [WireFrame (envelopeFrame f)]\<rparr>"
    using assms(9) by (cases dl) simp
  ultimately show thesis
    using that [of w'] fin j1(3) by (simp add: same_rest_def del: world_dos.simps)
qed

section \<open>The phases of a pairing\<close>

text \<open>
  The requester \<open>i\<close> uses the channels \<open>ch\<close> and \<open>ch'\<close>, the acceptor \<open>j\<close> the channel \<open>dh\<close>; \<open>n\<close>, \<open>n'\<close>
  and \<open>k\<close>, \<open>k'\<close> are unused session addresses, \<open>r'\<close> and \<open>r\<close> the random bytes of the responder and
  the initiator.
\<close>

definition request_script :: "device_id \<Rightarrow> cid \<Rightarrow> bytes \<Rightarrow> time \<Rightarrow> chan \<Rightarrow> chan \<Rightarrow> sid \<Rightarrow> world_event list" where
  "request_script i a rnd now ch ch' n =
     [App i (CallRequest ch), Emit i, Arrive a (Some rnd) False now, Net (Write a True),
      Receive i SaveOk '''' [] now n i, App i (RequestDone ch ch')]"

definition accept_script ::
  "device_id \<Rightarrow> cid \<Rightarrow> device_id \<Rightarrow> cid \<Rightarrow> string \<Rightarrow> time \<Rightarrow> chan \<Rightarrow> sid \<Rightarrow> sid \<Rightarrow> bytes \<Rightarrow> world_event list" where
  "accept_script i a j b code now dh n k r =
     [App j (CallAccept dh code), Emit j, Arrive b None False now, Net (Write a True), Receive i SaveOk '''' [] now n i,
      Net (Write b True), Receive j SaveOk '''' r now k j]"

definition hop_script :: "device_id \<Rightarrow> cid \<Rightarrow> device_id \<Rightarrow> cid \<Rightarrow> string \<Rightarrow> bytes \<Rightarrow> time \<Rightarrow> sid \<Rightarrow> world_event list" where
  "hop_script i a j b t r now n =
     [Emit i, Arrive a None False now, Net (Write b True), Receive j SaveOk t r now n i]"

text \<open>What \<open>request_script\<close> and \<open>accept_script\<close> need of a client and its connection.\<close>

definition at_rest :: "('h, 'c) Client \<Rightarrow> client \<Rightarrow> bool" where
  "at_rest c cl \<longleftrightarrow> \<not> c_closed c \<and> pairWaiters c = [] \<and> sends c = [] \<and> send cl = []"

definition json_ok :: "('h, 'c) setting \<Rightarrow> client \<Rightarrow> sdkMessage \<Rightarrow> bool" where
  "json_ok E cl m \<longleftrightarrow> e_unmarshal E (e_marshal E m) = Some (asControl m) \<and> \<not> oversize cl (e_marshal E m)"

lemma asControl_requests [simp]:
  "asControl (emptyMessage ty) = zeroMessage ty"
  "asControl ((emptyMessage ty)\<lparr>m_Code := code\<rparr>) = (zeroMessage ty)\<lparr>msg_Code := code\<rparr>"
  by (simp_all add: asControl_def emptyMessage_def zeroMessage_def)

lemma asSdk_fields [simp]:
  "m_Type (asSdk m) = msg_Type m" "m_Code (asSdk m) = msg_Code m" "m_ExpiresIn (asSdk m) = msg_ExpiresIn m"
  "m_PeerID (asSdk m) = msg_PeerID m" "m_PeerStaticKey (asSdk m) = msg_PeerStaticKey m"
  by (simp_all add: asSdk_def)

text \<open>The relay reads the request for a code, or the acceptance of one.\<close>

definition pairCode :: "string \<Rightarrow> controlMessage" where
  "pairCode code = (zeroMessage ''pair_code'')\<lparr>msg_Code := code, msg_ExpiresIn := PairingCodeTTL div Second\<rparr>"

lemma request_arrives:
  assumes "joined w i a c cl" and "joined w j b d dl" and "i \<noteq> j" and "a \<noteq> b"
    and "sends c = [TextFrame (emptyMessage ''pair_request'')]" and "send cl = []"
    and "json_ok E cl (emptyMessage ''pair_request'')" and "GeneratePairingCode (Some rnd) = Some code"
  obtains w' where "world_dos E [Emit i, Arrive a (Some rnd) False now] w = Some w'"
    and "joined w' i a (c\<lparr>sends := []\<rparr>) (cl\<lparr>send := [textFrame (pairCode code)]\<rparr>)" and "joined w' j b d dl"
    and "store (w_relay w') = store (w_relay w)"
    and "entries (pairCodes (w_relay w')) code = Some \<lparr>requesterID = i, expiresAt = now + PairingCodeTTL\<rparr>"
proof -
  let ?s = "onClient a (\<lambda>_. cl\<lparr>send := [textFrame (pairCode code)]\<rparr>)
    (w_relay w\<lparr>pairCodes := Put now code i PairingCodeTTL (pairCodes (w_relay w))\<rparr>)"
  have "readPump (e_unmarshal E) (Some rnd) False now a cl (inboundOf E (TextFrame (emptyMessage ''pair_request''))) (w_relay w) = ?s"
    using assms(1,6-8)
    by (simp add: readPump_def inboundOf_def json_ok_def handleControl_def joined_def handlePairRequest_def zeroMessage_def
        sendJSON_eq enqueue_def sendBufferSize_def textFrame_def onClient_def pairCode_def)
  from joined_upload [OF assms(1,5) this]
  show thesis
    by (rule that) (use assms(1-4) in \<open>simp_all add: joined_def heap_onClient\<close>)
qed

lemma accept_arrives:
  assumes "joined w i a c cl" and "joined w j b d dl" and "i \<noteq> j" and "a \<noteq> b"
    and "sends d = [TextFrame ((emptyMessage ''pair_accept'')\<lparr>m_Code := code\<rparr>)]" and "send cl = []" and "send dl = []"
    and "json_ok E dl ((emptyMessage ''pair_accept'')\<lparr>m_Code := code\<rparr>)" and "code \<noteq> ''''"
    and "entries (pairCodes (w_relay w)) code = Some \<lparr>requesterID = i, expiresAt = x\<rparr>" and "now \<le> x"
    and "faults (store (w_relay w)) = []" and "{i, j} \<subseteq> known (store (w_relay w))"
    and "peer_of (store (w_relay w)) i = None" and "peer_of (store (w_relay w)) j = None"
  obtains w' where "world_dos E [Emit j, Arrive b None False now] w = Some w'"
    and "joined w' i a c (cl\<lparr>pairedWith := j, send := [textFrame (pairComplete code j (keyText (store (w_relay w)) j))]\<rparr>)"
    and "joined w' j b (d\<lparr>sends := []\<rparr>) (dl\<lparr>pairedWith := i, send := [textFrame (pairComplete code i (keyText (store (w_relay w)) i))]\<rparr>)"
    and "peer_of (store (w_relay w')) = (peer_of (store (w_relay w)))(i \<mapsto> j, j \<mapsto> i)"
proof -
  let ?msg = "(zeroMessage ''pair_accept'')\<lparr>msg_Code := code\<rparr>" and ?s = "w_relay w"
  have code: "msg_Code ?msg = code" by simp
  obtain st where st: "peer_of st = (peer_of (store ?s))(i \<mapsto> j, j \<mapsto> i)"
    and run: "handlePairAccept False now b j ?msg ?s = ?s\<lparr>store := st,
      pairCodes := (pairCodes ?s)\<lparr>entries := (entries (pairCodes ?s))(code := None)\<rparr>,
      heap := (heap ?s)(b \<mapsto> dl\<lparr>pairedWith := i, send := send dl @ [textFrame (pairComplete code i (keyText (store ?s) i))]\<rparr>,
        a \<mapsto> cl\<lparr>pairedWith := j, send := send cl @ [textFrame (pairComplete code j (keyText (store ?s) j))]\<rparr>)\<rparr>"
    using handlePairAccept_run [of ?s b dl i a cl ?msg "\<lparr>requesterID = i, expiresAt = x\<rparr>" now j False, unfolded code] assms
    by (auto simp: joined_def roomy_def sendBufferSize_def)
  have "readPump (e_unmarshal E) None False now b dl (inboundOf E (TextFrame ((emptyMessage ''pair_accept'')\<lparr>m_Code := code\<rparr>))) ?s =
      handlePairAccept False now b j ?msg ?s"
    using assms(2,8) by (simp add: readPump_def inboundOf_def json_ok_def handleControl_def joined_def zeroMessage_def)
  from joined_upload [OF assms(2,5) this]
  show thesis
    by (rule that) (use assms(1-4,6,7) st in \<open>simp_all add: joined_def run\<close>)
qed

lemma request_phase:
  assumes "joined w i a c cl" and "joined w j b d dl" and "i \<noteq> j" and "a \<noteq> b" and "at_rest c cl"
    and "json_ok E cl (emptyMessage ''pair_request'')" and "GeneratePairingCode (Some rnd) = Some code"
    and "chans c ch = []" and "c_sessions c n = None"
  obtains w' ws where "world_dos E (request_script i a rnd now ch ch' n) w = Some w'"
    and "joined w' i a (c\<lparr>pairWaiters := [(code, \<lparr>wt_ch = ch', weAreAcceptor = False\<rparr>)]\<rparr>) (cl\<lparr>wire := ws\<rparr>)" and "joined w' j b d dl"
    and "store (w_relay w') = store (w_relay w)"
    and "entries (pairCodes (w_relay w')) code = Some \<lparr>requesterID = i, expiresAt = now + PairingCodeTTL\<rparr>"
proof -
  let ?E = "sdk_do (e_lib E) (e_sbm E)" and ?f = "textFrame (pairCode code)"
  let ?c1 = "c\<lparr>pairWaiters := [(requestKey, \<lparr>wt_ch = ch, weAreAcceptor = False\<rparr>)], sends := [TextFrame (emptyMessage ''pair_request'')]\<rparr>"
  have rest: "send cl = []" "sends c = []" "pairWaiters c = []" using assms(5) by (simp_all add: at_rest_def)
  have c1: "?E (CallRequest ch) c = Some ?c1" using request_pair_code assms(5) by (auto simp: at_rest_def)
  obtain w1 where w1: "world_do E (App i (CallRequest ch)) w = Some w1" "joined w1 i a ?c1 cl" "joined w1 j b d dl" "same_rest w w1"
    by (rule joined_app [OF assms(1-3) _ c1]) simp
  have req: "sends ?c1 = [TextFrame (emptyMessage ''pair_request'')]" by simp
  let ?c2 = "?c1\<lparr>sends := []\<rparr>" and ?cl = "cl\<lparr>send := [?f]\<rparr>"
  obtain w2 where w2: "world_dos E [Emit i, Arrive a (Some rnd) False now] w1 = Some w2" "joined w2 i a ?c2 ?cl" "joined w2 j b d dl"
    "store (w_relay w2) = store (w_relay w1)"
    "entries (pairCodes (w_relay w2)) code = Some \<lparr>requesterID = i, expiresAt = now + PairingCodeTTL\<rparr>"
    by (rule request_arrives [OF w1(2,3) assms(3,4) req rest(1) assms(6,7)])
  let ?c3 = "?c2\<lparr>pairWaiters := [], chans := (chans ?c2)(ch := [emptyResult\<lparr>res_Code := code, res_ExpiresIn := PairingCodeTTL div Second\<rparr>])\<rparr>"
  have c3: "?E (FromServer [] n (asSdk (pairCode code))) ?c2 = Some ?c3"
    using pair_code_arrives [of ?c2 ch "asSdk (pairCode code)" n] assms(8,9) by (simp add: pairCode_def zeroMessage_def)
  have f: "send ?cl = ?f # []" "\<not> closeAfter ?f"
    "clientReads SaveOk '''' [] now n i (WireFrame ?f) = Some (FromServer [] n (asSdk (pairCode code)))"
    by (simp_all add: textFrame_def)
  let ?fin = "?cl\<lparr>send := [], wire := wire ?cl @ [WireFrame ?f]\<rparr>"
  obtain w3 where w3: "world_dos E [Net (Write a True), Receive i SaveOk '''' [] now n i] w2 = Some w3"
    "joined w3 i a ?c3 ?fin" "joined w3 j b d dl" "same_rest w2 w3"
    by (rule joined_download [OF w2(2,3) assms(3,4) f c3])
  let ?c4 = "?c3\<lparr>pairWaiters := [(code, \<lparr>wt_ch = ch', weAreAcceptor = False\<rparr>)], chans := (chans ?c3)(ch := [])\<rparr>"
  have c4: "?E (RequestDone ch ch') ?c3 = Some ?c4"
    by (rule pair_code_returned(2)) simp_all
  obtain w4 where w4: "world_do E (App i (RequestDone ch ch')) w3 = Some w4" "joined w4 i a ?c4 ?fin" "joined w4 j b d dl" "same_rest w3 w4"
    by (rule joined_app [OF w3(2,3) assms(3) _ c4]) simp
  have "request_script i a rnd now ch ch' n = [App i (CallRequest ch)] @ [Emit i, Arrive a (Some rnd) False now] @
      [Net (Write a True), Receive i SaveOk '''' [] now n i] @ [App i (RequestDone ch ch')]"
    by (simp add: request_script_def)
  then have "world_dos E (request_script i a rnd now ch ch' n) w = Some w4"
    using w1(1) w2(1) w3(1) w4(1) by (simp only: world_dos_append world_dos.simps option.case bind.bind_lunit)
  moreover have "?c4 = c\<lparr>pairWaiters := [(code, \<lparr>wt_ch = ch', weAreAcceptor = False\<rparr>)]\<rparr>" "?fin = cl\<lparr>wire := wire ?fin\<rparr>"
    using rest assms(8) by (cases c, auto)
  ultimately show thesis
    using that [of w4 "wire ?fin"] w4(2-4) w3(4) w2(4,5) w1(4) by (simp only: same_rest_def)
qed

text \<open>Both clients read their \<^verbatim>\<open>pair_complete\<close>; the acceptor starts the handshake.\<close>

lemma learn_phase:
  assumes "joined w i a c cl" and "joined w j b d dl" and "i \<noteq> j" and "a \<noteq> b"
    and "send cl = [textFrame (pairComplete code j kj)]" and "send dl = [textFrame (pairComplete code i ki)]"
    and "pairWaiters c = [(code, \<lparr>wt_ch = ch', weAreAcceptor = False\<rparr>)]" and "c_sessions c n = None"
    and "pairWaiters d = [(code, \<lparr>wt_ch = dh, weAreAcceptor = True\<rparr>)]" and "c_sessions d k = None" and "\<not> c_closed d" and "sends d = []"
    and "newInitiatorSession (e_lib E) r (opt_PrivateKey (opts d)) = Inr (s, m1)"
  obtains w' us vs where
    "world_dos E [Net (Write a True), Receive i SaveOk '''' [] now n i, Net (Write b True), Receive j SaveOk '''' r now k j] w = Some w'"
    and "joined w' i a (c\<lparr>pairWaiters := [], peers := (peers c)(j \<mapsto> (newPeerConn j kj)\<lparr>firstPairWaiter := Some ch'\<rparr>)\<rparr>)
      (cl\<lparr>send := [], wire := us\<rparr>)"
    and "joined w' j b (d\<lparr>pairWaiters := [], peers := (peers d)(i \<mapsto> (newPeerConn i ki)\<lparr>firstPairWaiter := Some dh, active := Some k\<rparr>),
        c_sessions := (c_sessions d)(k \<mapsto> s), sends := [BinaryFrame (encodeEnvelope envelopeHandshake m1)]\<rparr>) (dl\<lparr>send := [], wire := vs\<rparr>)"
    and "same_rest w w'"
proof -
  let ?E = "sdk_do (e_lib E) (e_sbm E)" and ?f = "pairComplete code j kj" and ?g = "pairComplete code i ki"
  let ?c' = "c\<lparr>pairWaiters := [], peers := (peers c)(j \<mapsto> (newPeerConn j kj)\<lparr>firstPairWaiter := Some ch'\<rparr>)\<rparr>"
  have c': "?E (FromServer [] n (asSdk ?f)) c = Some ?c'"
    by (rule requester_learns_peer [OF assms(7)]) (use assms(8) in \<open>simp_all add: pairComplete_def zeroMessage_def\<close>)
  have reads: "\<not> closeAfter (textFrame m)"
    "clientReads SaveOk '''' x now y z (WireFrame (textFrame m)) = Some (FromServer x y (asSdk m))" for x y z m
    by (simp_all add: textFrame_def)
  obtain w1 where w1: "world_dos E [Net (Write a True), Receive i SaveOk '''' [] now n i] w = Some w1"
    "joined w1 i a ?c' (cl\<lparr>send := [], wire := wire cl @ [WireFrame (textFrame ?f)]\<rparr>)" "joined w1 j b d dl" "same_rest w w1"
    by (rule joined_download [OF assms(1-5) reads c'])
  let ?d' = "d\<lparr>pairWaiters := [], peers := (peers d)(i \<mapsto> (newPeerConn i ki)\<lparr>firstPairWaiter := Some dh, active := Some k\<rparr>),
    c_sessions := (c_sessions d)(k \<mapsto> s), sends := [BinaryFrame (encodeEnvelope envelopeHandshake m1)]\<rparr>"
  have d': "?E (FromServer r k (asSdk ?g)) d = Some ?d'"
    by (rule acceptor_learns_peer [OF assms(9)]) (use assms(10-13) in \<open>simp_all add: pairComplete_def zeroMessage_def\<close>)
  obtain w2 where w2: "world_dos E [Net (Write b True), Receive j SaveOk '''' r now k j] w1 = Some w2"
    "joined w2 j b ?d' (dl\<lparr>send := [], wire := wire dl @ [WireFrame (textFrame ?g)]\<rparr>)"
    "joined w2 i a ?c' (cl\<lparr>send := [], wire := wire cl @ [WireFrame (textFrame ?f)]\<rparr>)" "same_rest w1 w2"
    by (rule joined_download [OF w1(3,2) assms(3) [symmetric] assms(4) [symmetric] assms(6) reads d'])
  have "world_dos E ([Net (Write a True), Receive i SaveOk '''' [] now n i] @ [Net (Write b True), Receive j SaveOk '''' r now k j]) w = Some w2"
    unfolding world_dos_append w1(1) bind.bind_lunit by (rule w2(1))
  moreover have "same_rest w w2" using w1(4) w2(4) by (simp add: same_rest_def)
  ultimately show thesis using that w2(2,3) by (simp del: world_dos.simps)
qed

lemma accept_phase:
  assumes "joined w i a c cl" and "joined w j b d dl" and "i \<noteq> j" and "a \<noteq> b"
    and "pairWaiters c = [(code, \<lparr>wt_ch = ch', weAreAcceptor = False\<rparr>)]" and "send cl = []" and "at_rest d dl"
    and "json_ok E dl ((emptyMessage ''pair_accept'')\<lparr>m_Code := code\<rparr>)" and "code \<noteq> ''''"
    and "entries (pairCodes (w_relay w)) code = Some \<lparr>requesterID = i, expiresAt = x\<rparr>" and "now \<le> x"
    and "faults (store (w_relay w)) = []" and "{i, j} \<subseteq> known (store (w_relay w))"
    and "peer_of (store (w_relay w)) i = None" and "peer_of (store (w_relay w)) j = None"
    and "newInitiatorSession (e_lib E) r (opt_PrivateKey (opts d)) = Inr (s, m1)"
    and "c_sessions c n = None" and "c_sessions d k = None"
  obtains w' us vs where "world_dos E (accept_script i a j b code now dh n k r) w = Some w'"
    and "joined w' i a (c\<lparr>pairWaiters := [], peers := (peers c)(j \<mapsto>
        (newPeerConn j (keyText (store (w_relay w)) j))\<lparr>firstPairWaiter := Some ch'\<rparr>)\<rparr>) (cl\<lparr>pairedWith := j, wire := us\<rparr>)"
    and "joined w' j b (d\<lparr>peers := (peers d)(i \<mapsto>
        (newPeerConn i (keyText (store (w_relay w)) i))\<lparr>firstPairWaiter := Some dh, active := Some k\<rparr>),
        c_sessions := (c_sessions d)(k \<mapsto> s), sends := [BinaryFrame (encodeEnvelope envelopeHandshake m1)]\<rparr>)
      (dl\<lparr>pairedWith := i, wire := vs\<rparr>)"
    and "peer_of (store (w_relay w')) = (peer_of (store (w_relay w)))(i \<mapsto> j, j \<mapsto> i)"
proof -
  let ?key = "keyText (store (w_relay w))" and ?acc = "TextFrame ((emptyMessage ''pair_accept'')\<lparr>m_Code := code\<rparr>)"
  let ?d1 = "d\<lparr>pairWaiters := [(code, \<lparr>wt_ch = dh, weAreAcceptor = True\<rparr>)], sends := [?acc]\<rparr>" and ?d2 = "d\<lparr>pairWaiters := [(code, \<lparr>wt_ch = dh, weAreAcceptor = True\<rparr>)], sends := []\<rparr>"
  have rest: "send dl = []" "\<not> c_closed d" "sends d = []" "pairWaiters d = []" using assms(7) by (simp_all add: at_rest_def)
  have d1: "sdk_do (e_lib E) (e_sbm E) (CallAccept dh code) d = Some ?d1" by (rule accept_pair) (use rest in simp_all)
  obtain w1 where w1: "world_do E (App j (CallAccept dh code)) w = Some w1" "joined w1 j b ?d1 dl" "joined w1 i a c cl" "same_rest w w1"
    by (rule joined_app [OF assms(2,1) assms(3) [symmetric] _ d1]) simp
  have eqs: "store (w_relay w1) = store (w_relay w)" "pairCodes (w_relay w1) = pairCodes (w_relay w)"
    using w1(4) by (simp_all add: same_rest_def)
  have acc: "sends ?d1 = [?acc]" by simp
  let ?cl = "cl\<lparr>pairedWith := j, send := [textFrame (pairComplete code j (?key j))]\<rparr>"
    and ?dl = "dl\<lparr>pairedWith := i, send := [textFrame (pairComplete code i (?key i))]\<rparr>"
  obtain w2 where w2: "world_dos E [Emit j, Arrive b None False now] w1 = Some w2" "joined w2 i a c ?cl" "joined w2 j b (?d1\<lparr>sends := []\<rparr>) ?dl"
    "peer_of (store (w_relay w2)) = (peer_of (store (w_relay w)))(i \<mapsto> j, j \<mapsto> i)"
    by (rule accept_arrives [OF w1(3,2) assms(3,4) acc assms(6) rest(1) assms(8,9), unfolded eqs, OF assms(10-15)])
  have eq2: "?d1\<lparr>sends := []\<rparr> = ?d2" by simp
  have pre: "send ?cl = [textFrame (pairComplete code j (?key j))]" "send ?dl = [textFrame (pairComplete code i (?key i))]"
    "pairWaiters c = [(code, \<lparr>wt_ch = ch', weAreAcceptor = False\<rparr>)]" "c_sessions c n = None"
    "pairWaiters ?d2 = [(code, \<lparr>wt_ch = dh, weAreAcceptor = True\<rparr>)]" "c_sessions ?d2 k = None" "\<not> c_closed ?d2" "sends ?d2 = []"
    "newInitiatorSession (e_lib E) r (opt_PrivateKey (opts ?d2)) = Inr (s, m1)"
    using assms(5,16-18) rest by simp_all
  obtain w3 us vs where w3: "world_dos E [Net (Write a True), Receive i SaveOk '''' [] now n i, Net (Write b True), Receive j SaveOk '''' r now k j] w2 = Some w3"
    and fin: "joined w3 i a (c\<lparr>pairWaiters := [], peers := (peers c)(j \<mapsto> (newPeerConn j (?key j))\<lparr>firstPairWaiter := Some ch'\<rparr>)\<rparr>) (?cl\<lparr>send := [], wire := us\<rparr>)"
    "joined w3 j b (?d2\<lparr>pairWaiters := [], peers := (peers ?d2)(i \<mapsto> (newPeerConn i (?key i))\<lparr>firstPairWaiter := Some dh, active := Some k\<rparr>),
        c_sessions := (c_sessions ?d2)(k \<mapsto> s), sends := [BinaryFrame (encodeEnvelope envelopeHandshake m1)]\<rparr>) (?dl\<lparr>send := [], wire := vs\<rparr>)"
    and same: "same_rest w2 w3"
    by (rule learn_phase [OF w2(2) w2(3) [unfolded eq2] assms(3,4) pre])
  have "accept_script i a j b code now dh n k r = [App j (CallAccept dh code)] @ [Emit j, Arrive b None False now] @
      [Net (Write a True), Receive i SaveOk '''' [] now n i, Net (Write b True), Receive j SaveOk '''' r now k j]"
    by (simp add: accept_script_def)
  then have run: "world_dos E (accept_script i a j b code now dh n k r) w = Some w3"
    using w1(1) w2(1) w3 by (simp only: world_dos_append world_dos.simps option.case bind.bind_lunit)
  have "?cl\<lparr>send := [], wire := us\<rparr> = cl\<lparr>pairedWith := j, wire := us\<rparr>" "?dl\<lparr>send := [], wire := vs\<rparr> = dl\<lparr>pairedWith := i, wire := vs\<rparr>"
    using rest(1) assms(6) by (cases cl; cases dl; simp)+
  moreover have "?d2\<lparr>pairWaiters := [], peers := X, c_sessions := Y, sends := Z\<rparr> = d\<lparr>peers := X, c_sessions := Y, sends := Z\<rparr>" for X Y Z
    using rest(4) by (cases d) simp
  ultimately show thesis
    using that [OF run] fin same w2(4) by (simp add: same_rest_def)
qed

section \<open>The handshake through the relay\<close>

text \<open>A client whose first handshake with \<open>j\<close> succeeded: the caller gets the key, which is pinned.\<close>

definition paired_up :: "('h, 'c) Client \<Rightarrow> device_id \<Rightarrow> chan \<Rightarrow> bytes \<Rightarrow> bool" where
  "paired_up c j ch key \<longleftrightarrow> fst (waitPair ch c) = Some (Inr (j, key)) \<and> pinned c j = Some (encodeBase64 key)"

text \<open>A client that waits for the completion of a handshake with \<open>j\<close>, whose key will be \<open>key\<close>.\<close>

definition awaits :: "('h, 'c) Client \<Rightarrow> device_id \<Rightarrow> chan \<Rightarrow> sid option \<Rightarrow> bytes \<Rightarrow> bool" where
  "awaits c j ch act key \<longleftrightarrow> \<not> c_closed c \<and> chans c ch = [] \<and> pinned c j \<in> {None, Some (encodeBase64 key)} \<and> length key = 32 \<and>
     (\<exists>p. peers c j = Some p \<and> pc_id p = j \<and> active p = act \<and> pending p = None \<and> firstPairWaiter p = Some ch \<and>
       announcedStaticKey p \<in> {'''', encodeBase64 key})"

lemma awaits_answers:
  assumes "awaits c j ch None key" and "sends c = []"
    and "newResponderSession lib r (opt_PrivateKey (opts c)) = Inr b0"
    and "handleHandshakeMessage lib m1 b0 = ((Some m2, False, None), b1)" and "c_sessions c n = None"
  obtains c' where "sdk_do lib sbm (BinaryFromServer SaveOk t r now n j (encodeEnvelope envelopeHandshake m1)) c = Some c'"
    and "awaits c' j ch (Some n) key" and "c_sessions c' = (c_sessions c)(n \<mapsto> b1)"
    and "sends c' = [BinaryFrame (encodeEnvelope envelopeHandshake m2)]"
proof -
  obtain p where p: "peers c j = Some p" "pc_id p = j" "active p = None" "pending p = None" "firstPairWaiter p = Some ch"
    "announcedStaticKey p \<in> {'''', encodeBase64 key}" and open_c: "\<not> c_closed c"
    using assms(1) by (auto simp: awaits_def)
  show thesis
    by (rule that [OF responder_answers [OF p(1,3,4) open_c assms(2-5)]])
      (use assms(1) p in \<open>simp_all add: awaits_def pinned_def\<close>)
qed

lemma awaits_completes:
  assumes "awaits c j ch (Some k) key" and "sends c = []" and "c_sessions c k = Some s" and "\<not> ready s"
    and "handleHandshakeMessage lib m s = ((reply, True, None), s')" and "peerStatic s' = key"
    and "ready s'" and "cipherStates s' = Some (x, y)" and "c_sessions c n = None"
  obtains c' where "sdk_do lib sbm (BinaryFromServer SaveOk t r now n j (encodeEnvelope envelopeHandshake m)) c = Some c'"
    and "paired_up c' j ch key" and "talks c' j x" and "listens c' j y"
    and "sends c' = map (\<lambda>m. BinaryFrame (encodeEnvelope envelopeHandshake m)) (case reply of None \<Rightarrow> [] | Some m \<Rightarrow> [m])"
proof -
  obtain p where p: "peers c j = Some p" "pc_id p = j" "active p = Some k" "pending p = None" "firstPairWaiter p = Some ch"
    "announcedStaticKey p \<in> {'''', encodeBase64 key}" and c: "\<not> c_closed c" "chans c ch = []"
    "Get (pc_id p) (fst (peerStore c)) \<in> {None, Some (encodeBase64 key)}" "length key = 32"
    using assms(1) by (auto simp: awaits_def pinned_def)
  obtain st where st: "verifyAndPin SaveOk t p s' (peerStore c) = (Inr key, st)" "Get (pc_id p) (fst st) = Some (encodeBase64 key)"
    using verifyAndPin_agrees [of p "peerStore c" s' t] c(3,4) p(6) assms(6) by auto
  show thesis
    by (rule that [OF handshake_completes [OF p(1-5) assms(3-5) st(1) c(2,1) assms(2,9)]])
      (use p st(2) assms(7,8) in \<open>simp_all add: paired_up_def waitPair_def emptyResult_def pinned_def talks_def listens_def ready_def\<close>)
qed

text \<open>No handshake message of two parties with proper keys is longer than \<open>L\<close> bytes.\<close>

definition handshakes_within :: "nat \<Rightarrow> ('h, 'c) noiseLib \<Rightarrow> bool" where
  "handshakes_within L lib \<longleftrightarrow> (\<forall>p q r r' a0 b0 b1 a1 m1 m2 m3 x y.
     length p = 32 \<longrightarrow> length q = 32 \<longrightarrow> length r = 32 \<longrightarrow> length r' = 32 \<longrightarrow>
     newInitiatorSession lib r p = Inr (a0, m1) \<longrightarrow> newResponderSession lib r' q = Inr b0 \<longrightarrow>
     handleHandshakeMessage lib m1 b0 = ((Some m2, x), b1) \<longrightarrow> handleHandshakeMessage lib m2 a0 = ((Some m3, y), a1) \<longrightarrow>
     length m1 \<le> L \<and> length m2 \<le> L \<and> length m3 \<le> L)"

lemma small_envelope: "length m \<le> L \<Longrightarrow> int L < maxMessageBytes cl \<Longrightarrow> \<not> oversize cl (encodeEnvelope k m)"
  by (simp add: oversize_def encodeEnvelope_def)

lemma handshake_phase:
  assumes "joined w i a c cl" and "joined w j b d dl" and "i \<noteq> j" and "a \<noteq> b" and "i \<noteq> ''''" and "j \<noteq> ''''"
    and "pairedWith cl = j" and "pairedWith dl = i" and "send cl = []" and "send dl = []"
    and "int L < maxMessageBytes cl" and "int L < maxMessageBytes dl" and "length m1 \<le> L" and "length m2 \<le> L" and "length m3 \<le> L"
    and "awaits c j ch None keyd" and "sends c = []" and "c_sessions c n = None" and "c_sessions c n' = None" and "n \<noteq> n'"
    and "awaits d i dh (Some k) keyc" and "sends d = [BinaryFrame (encodeEnvelope envelopeHandshake m1)]" and "c_sessions d k = Some a0"
    and "c_sessions d k' = None"
    and "newResponderSession (e_lib E) r (opt_PrivateKey (opts c)) = Inr b0"
    and "handleHandshakeMessage (e_lib E) m1 b0 = ((Some m2, False, None), b1)"
    and "handleHandshakeMessage (e_lib E) m2 a0 = ((Some m3, True, None), a1)"
    and "handleHandshakeMessage (e_lib E) m3 b1 = ((None, True, None), b2)"
    and "\<not> ready a0" and "\<not> ready b1" and "ready a1" and "ready b2" and "peerStatic a1 = keyc" and "peerStatic b2 = keyd"
    and "cipherStates a1 = Some (x, y)" and "cipherStates b2 = Some (u, v)"
  obtains w' c' d' us vs where
    "world_dos E (hop_script j b i a t r now n @ hop_script i a j b t r now k' @ hop_script j b i a t r now n') w = Some w'"
    and "joined w' i a c' (cl\<lparr>wire := us\<rparr>)" and "joined w' j b d' (dl\<lparr>wire := vs\<rparr>)" and "sends c' = []" and "sends d' = []"
    and "paired_up c' j ch keyd" and "talks c' j u" and "listens c' j v"
    and "paired_up d' i dh keyc" and "talks d' i x" and "listens d' i y"
    and "store (w_relay w') = store (w_relay w)"
proof -
  let ?env = "encodeEnvelope envelopeHandshake"
  have small: "\<not> oversize cl (?env m2)" "\<not> oversize dl (?env m1)" "\<not> oversize dl (?env m3)"
    using small_envelope assms(11-15) by blast+
  note sym = assms(3) [symmetric] assms(4) [symmetric]
  obtain c1 where c1: "sdk_do (e_lib E) (e_sbm E) (BinaryFromServer SaveOk t r now n j (?env m1)) c = Some c1"
    "awaits c1 j ch (Some n) keyd" "c_sessions c1 = (c_sessions c)(n \<mapsto> b1)" "sends c1 = [BinaryFrame (?env m2)]"
    by (rule awaits_answers [OF assms(16,17,25,26,18)])
  obtain w1 where w1: "world_dos E (hop_script j b i a t r now n) w = Some w1" "joined w1 j b (d\<lparr>sends := []\<rparr>) dl"
    "joined w1 i a c1 (cl\<lparr>wire := wire cl @ [WireFrame (envelopeFrame (?env m1))]\<rparr>)" "same_rest w w1"
    unfolding hop_script_def
    by (rule joined_route [OF assms(2,1) sym assms(5) assms(22) assms(8) small(2) assms(9) c1(1)])
  let ?d1 = "d\<lparr>sends := []\<rparr>" and ?cl1 = "cl\<lparr>wire := wire cl @ [WireFrame (envelopeFrame (?env m1))]\<rparr>"
  have "awaits ?d1 i dh (Some k) keyc" "sends ?d1 = []" "c_sessions ?d1 k = Some a0" "c_sessions ?d1 k' = None"
    using assms(21,23,24) by (simp_all add: awaits_def pinned_def)
  then obtain d2 where d2: "sdk_do (e_lib E) (e_sbm E) (BinaryFromServer SaveOk t r now k' i (?env m2)) ?d1 = Some d2"
    "paired_up d2 i dh keyc" "talks d2 i x" "listens d2 i y" "sends d2 = map (\<lambda>m. BinaryFrame (?env m)) (case Some m3 of None \<Rightarrow> [] | Some m \<Rightarrow> [m])"
    by (rule awaits_completes [OF _ _ _ assms(29,27,33,31,35)])
  have cl1: "pairedWith ?cl1 = j" "\<not> oversize ?cl1 (?env m2)" "send ?cl1 = []" using assms(7,9) small(1) by (simp_all add: oversize_def)
  obtain w2 where w2: "world_dos E (hop_script i a j b t r now k') w1 = Some w2" "joined w2 i a (c1\<lparr>sends := []\<rparr>) ?cl1"
    "joined w2 j b d2 (dl\<lparr>wire := wire dl @ [WireFrame (envelopeFrame (?env m2))]\<rparr>)" "same_rest w1 w2"
    unfolding hop_script_def
    by (rule joined_route [OF w1(3,2) assms(3,4,6) c1(4) cl1(1,2) assms(10) d2(1)])
  let ?c2 = "c1\<lparr>sends := []\<rparr>" and ?dl2 = "dl\<lparr>wire := wire dl @ [WireFrame (envelopeFrame (?env m2))]\<rparr>"
  have "awaits ?c2 j ch (Some n) keyd" "sends ?c2 = []" "c_sessions ?c2 n = Some b1" "c_sessions ?c2 n' = None"
    using c1(2,3) assms(19,20) by (simp_all add: awaits_def pinned_def)
  then obtain c3 where c3: "sdk_do (e_lib E) (e_sbm E) (BinaryFromServer SaveOk t r now n' j (?env m3)) ?c2 = Some c3"
    "paired_up c3 j ch keyd" "talks c3 j u" "listens c3 j v" "sends c3 = map (\<lambda>m. BinaryFrame (?env m)) (case None of None \<Rightarrow> [] | Some m \<Rightarrow> [m])"
    by (rule awaits_completes [OF _ _ _ assms(30,28,34,32,36)])
  have m3: "sends d2 = [BinaryFrame (?env m3)]" using d2(5) by simp
  have dl2: "pairedWith ?dl2 = i" "\<not> oversize ?dl2 (?env m3)" using assms(8) small(3) by (simp_all add: oversize_def)
  obtain w3 where w3: "world_dos E (hop_script j b i a t r now n') w2 = Some w3" "joined w3 j b (d2\<lparr>sends := []\<rparr>) ?dl2"
    "joined w3 i a c3 (?cl1\<lparr>wire := wire ?cl1 @ [WireFrame (envelopeFrame (?env m3))]\<rparr>)" "same_rest w2 w3"
    unfolding hop_script_def
    by (rule joined_route [OF w2(3,2) sym assms(5) m3 dl2 cl1(3) c3(1)])
  have run: "world_dos E (hop_script j b i a t r now n @ hop_script i a j b t r now k' @ hop_script j b i a t r now n') w = Some w3"
    by (simp only: world_dos_append w1(1) w2(1) w3(1) bind.bind_lunit)
  have fin: "sends c3 = []" "sends (d2\<lparr>sends := []\<rparr>) = []" "paired_up (d2\<lparr>sends := []\<rparr>) i dh keyc" "talks (d2\<lparr>sends := []\<rparr>) i x"
    "listens (d2\<lparr>sends := []\<rparr>) i y" "store (w_relay w3) = store (w_relay w)"
    using c3(5) d2(2-4) w1(4) w2(4) w3(4)
    by (simp_all add: paired_up_def waitPair_def pinned_def talks_def listens_def same_rest_def split: list.splits)
  show thesis
    by (rule that [OF run _ w3(2) fin(1,2) c3(2-4) fin(3-6)]) (use w3(3) in simp)
qed

definition pairing_script ::
  "device_id \<Rightarrow> cid \<Rightarrow> device_id \<Rightarrow> cid \<Rightarrow> bytes \<Rightarrow> string \<Rightarrow> time \<Rightarrow> time \<Rightarrow> string \<Rightarrow> bytes \<Rightarrow> chan \<Rightarrow> chan \<Rightarrow> chan \<Rightarrow>
    sid \<Rightarrow> sid \<Rightarrow> sid \<Rightarrow> sid \<Rightarrow> world_event list" where
  "pairing_script i a j b rnd code now later t r ch ch' dh n n' k k' =
     request_script i a rnd now ch ch' n @ accept_script i a j b code later dh n k r @
     hop_script j b i a t r later n @ hop_script i a j b t r later k' @ hop_script j b i a t r later n'"

text \<open>
  What a device brings to its first pairing with \<open>j\<close>: it is registered and unpaired, idle, its
  private key has 32 bytes, the server has its public key or none, and what it pinned for \<open>j\<close>, if
  anything, is the key \<open>j\<close> has.
\<close>

definition deviceKey :: "('h, 'c) setting \<Rightarrow> ('h, 'c) Client \<Rightarrow> bytes" where
  "deviceKey E c = PublicKeyOf (e_sbm E) (opt_PrivateKey (opts c))"

definition can_pair :: "('h, 'c) setting \<Rightarrow> db \<Rightarrow> device_id \<Rightarrow> ('h, 'c) Client \<Rightarrow> client \<Rightarrow> device_id \<Rightarrow> bytes \<Rightarrow> bool" where
  "can_pair E st i c cl j key \<longleftrightarrow> i \<noteq> '''' \<and> i \<in> known st \<and> peer_of st i = None \<and> at_rest c cl \<and>
     length (opt_PrivateKey (opts c)) = 32 \<and> length (deviceKey E c) = 32 \<and>
     keyText st i \<in> {'''', encodeBase64 (deviceKey E c)} \<and> pinned c j \<in> {None, Some (encodeBase64 key)}"

section \<open>Properties\<close>


text \<open>Two registered devices with the library, connected and welcomed.\<close>

definition sample_setting :: "(bool \<times> nat \<times> bytes \<times> bytes, nat) setting" where
  "sample_setting = \<lparr>e_lib = plainLib, e_sbm = id,
     e_marshal = (\<lambda>m. if m_Type m = ''pair_request'' then [4] else if m_Type m = ''pair_accept'' then [5] else []),
     e_unmarshal = (\<lambda>raw. if raw = [4] then Some (zeroMessage ''pair_request'')
       else if raw = [5] then Some ((zeroMessage ''pair_accept'')\<lparr>msg_Code := ''000258''\<rparr>) else None),
     e_cfg = sample_cfg\<rparr>"

definition sample_served :: "event list" where
  "sample_served = [Create (sample_device ''a''), Create (sample_device ''b''), Connect 1 ''a'' ''ta'' True 0, Hub True, Welcome 0,
     Connect 1 ''b'' ''tb'' True 1, Hub True, Welcome 1, Write 0 True, Write 1 True]"

definition sample_device_client :: "device_id \<Rightarrow> bytes \<Rightarrow> (bool \<times> nat \<times> bytes \<times> bytes, nat) Client" where
  "sample_device_client i key = newClient (sample_options\<lparr>opt_DeviceID := i, opt_PrivateKey := key\<rparr>)
     (\<lparr>ps_path = ''p'', ps_peers = Map.empty\<rparr>, Map.empty)"

definition sample_world :: "relay \<Rightarrow> (bool \<times> nat \<times> bytes \<times> bytes, nat) world" where
  "sample_world s = \<lparr>w_relay = s,
     w_client = [''a'' \<mapsto> sample_device_client ''a'' (replicate 32 1), ''b'' \<mapsto> sample_device_client ''b'' (replicate 32 2)],
     w_conn = [''a'' \<mapsto> 0, ''b'' \<mapsto> 1], w_owner = [0 \<mapsto> ''a'', 1 \<mapsto> ''b''], w_up = (\<lambda>_. []), w_down = (\<lambda>_. 1)\<rparr>"

lemma sample_device_client_fields [simp]:
  "c_closed (sample_device_client i key) = False" "pairWaiters (sample_device_client i key) = []" "sends (sample_device_client i key) = []"
  "opt_PrivateKey (opts (sample_device_client i key)) = key" "chans (sample_device_client i key) ch = []"
  "c_sessions (sample_device_client i key) n = None" "pinned (sample_device_client i key) j = None"
  by (simp_all add: sample_device_client_def newClient_def pinned_def Get_def)

lemma plainLib_handshakes: "handshakes_within 32 plainLib"
  unfolding handshakes_within_def
  by (auto simp: newInitiatorSession_def newResponderSession_def handleHandshakeMessage_def plainLib_def)

lemma sample_served_relay:
  obtains s cl dl where "performs (\<lambda>_. None) sample_cfg sample_served sample_start = Some s"
    and "joined (sample_world s) ''a'' 0 (sample_device_client ''a'' (replicate 32 1)) cl" and "send cl = []" and "maxMessageBytes cl = 65536"
    and "joined (sample_world s) ''b'' 1 (sample_device_client ''b'' (replicate 32 2)) dl" and "send dl = []" and "maxMessageBytes dl = 65536"
    and "faults (store s) = []" and "{''a'', ''b''} \<subseteq> known (store s)" and "peer_of (store s) ''a'' = None" and "peer_of (store s) ''b'' = None"
    and "keyText (store s) ''a'' = ''''" and "keyText (store s) ''b'' = ''''"
proof -
  have "case performs (\<lambda>_. None) sample_cfg sample_served sample_start of None \<Rightarrow> False
    | Some s \<Rightarrow> (case heap s 0 of None \<Rightarrow> False
        | Some cl \<Rightarrow> DeviceID cl = ''a'' \<and> connOpen cl \<and> writing cl \<and> \<not> closed cl \<and> send cl = [] \<and> length (wire cl) = 1 \<and> maxMessageBytes cl = 65536) \<and>
      (case heap s 1 of None \<Rightarrow> False
        | Some cl \<Rightarrow> DeviceID cl = ''b'' \<and> connOpen cl \<and> writing cl \<and> \<not> closed cl \<and> send cl = [] \<and> length (wire cl) = 1 \<and> maxMessageBytes cl = 65536) \<and>
      threads s 0 = Some Pumping \<and> threads s 1 = Some Pumping \<and> clients s ''a'' = Some 0 \<and> clients s ''b'' = Some 1 \<and>
      faults (store s) = [] \<and> {''a'', ''b''} \<subseteq> known (store s) \<and> peer_of (store s) ''a'' = None \<and> peer_of (store s) ''b'' = None \<and>
      keyText (store s) ''a'' = '''' \<and> keyText (store s) ''b'' = ''''"
    by code_simp
  then obtain s cl dl where "performs (\<lambda>_. None) sample_cfg sample_served sample_start = Some s"
    and cl: "heap s 0 = Some cl" "DeviceID cl = ''a''" "connOpen cl" "writing cl" "\<not> closed cl" "send cl = []" "length (wire cl) = 1"
      "maxMessageBytes cl = 65536" "threads s 0 = Some Pumping" "clients s ''a'' = Some 0"
    and dl: "heap s 1 = Some dl" "DeviceID dl = ''b''" "connOpen dl" "writing dl" "\<not> closed dl" "send dl = []" "length (wire dl) = 1"
      "maxMessageBytes dl = 65536" "threads s 1 = Some Pumping" "clients s ''b'' = Some 1"
    and st: "faults (store s) = []" "{''a'', ''b''} \<subseteq> known (store s)" "peer_of (store s) ''a'' = None" "peer_of (store s) ''b'' = None"
      "keyText (store s) ''a'' = ''''" "keyText (store s) ''b'' = ''''"
    by (auto simp del: perform.simps performs.simps split: option.splits)
  moreover have "joined (sample_world s) ''a'' 0 (sample_device_client ''a'' (replicate 32 1)) cl"
    "joined (sample_world s) ''b'' 1 (sample_device_client ''b'' (replicate 32 2)) dl"
    using cl dl by (auto simp: joined_def sample_world_def)
  ultimately show thesis by (intro that)
qed

lemma PublicKeyOf_id: "PublicKeyOf id = id"
  by (simp add: fun_eq_iff PublicKeyOf_def)


text \<open>
  C36: the welcome can be overtaken. The relay hands a connection to its hub before it sends the
  welcome; when the peer connects in between, the hub queues its status first. Every client of the
  library that dials such a connection, with correct credentials and no failure anywhere, gives
  up, because the first frame is not a welcome.
\<close>

theorem welcome_overtaken:
  "\<exists>es s rc first. performs (\<lambda>_. None) sample_cfg es sample_start = Some s \<and> heap s 0 = Some rc \<and> connOpen rc \<and>
     threads s 0 = Some Pumping \<and> clients s ''a'' = Some 0 \<and> firstFrame (wire rc) = Some (1, first) \<and>
     (\<forall>sbm c. fst (dial sbm first True c) = Inl (UnexpectedType ''peer_status''))"
proof -
  let ?es = "[Create (sample_device ''a''), Create (sample_device ''b''), Link False ''a'' ''b'', Connect 1 ''a'' ''ta'' True 0, Hub True,
    Connect 1 ''b'' ''tb'' True 1, Hub True, Welcome 0, Write 0 True, Write 0 True]"
  have "case performs (\<lambda>_. None) sample_cfg ?es sample_start of None \<Rightarrow> False
    | Some s \<Rightarrow> threads s 0 = Some Pumping \<and> clients s ''a'' = Some 0 \<and> (case heap s 0 of None \<Rightarrow> False
        | Some rc \<Rightarrow> connOpen rc \<and> map_option fst (firstFrame (wire rc)) = Some 1 \<and>
            (case Option.bind (firstFrame (wire rc)) snd of Some (Inr m) \<Rightarrow> m_Type m = ''peer_status'' | _ \<Rightarrow> False))"
    by code_simp
  then obtain s rc first m where "performs (\<lambda>_. None) sample_cfg ?es sample_start = Some s" "heap s 0 = Some rc" "connOpen rc"
    "threads s 0 = Some Pumping" "clients s ''a'' = Some 0" "firstFrame (wire rc) = Some (1, first)"
    and "first = Some (Inr m)" "m_Type m = ''peer_status''"
    by (auto simp del: perform.simps performs.simps split: option.splits sum.splits)
  moreover from this have "fst (dial sbm first True c) = Inl (UnexpectedType ''peer_status'')" for sbm c
    by (simp add: dial_def)
  ultimately show ?thesis by blast
qed

end
