(* ===== verification/Ts_Peer.thy ===== *)
theory Ts_Peer
  imports Ts_Noise Sdk_Peer Sdk_Peer_Store
begin

text \<open>
  The TypeScript library below its client: typed errors (\<^verbatim>\<open>sdk/ts/src/errors.ts\<close>), keys
  (\<^verbatim>\<open>crypto.ts\<close>), the connection to one peer (\<^verbatim>\<open>peer.ts\<close>) and the two pin stores
  (\<^verbatim>\<open>peerStore.ts\<close>, \<^verbatim>\<open>node.ts\<close>). Sessions are objects compared by identity and live in a heap, as in
  the model of the Go peer, with which the peer is compared. The clock, counted in milliseconds as
  \<^verbatim>\<open>Date.now()\<close> does, the randomness and the address of a new session are arguments. A call that
  throws has the result \<open>None\<close> or an error, together with the state it leaves behind.
\<close>

section \<open>Errors\<close>

datatype errorClass =
    InvalidCodeError | CodeExpiredError | AlreadyPairedError | PeerOfflineError | RateLimitedError
  | MalformedError | InternalError | KeyMismatchError | NotReadyError | PeerKeyMismatchError

record RelaylyClientError =
  errClass :: errorClass
  errMessage :: string

text \<open>The machine code each class passes to the constructor of its base class.\<close>

fun errCode :: "errorClass \<Rightarrow> string" where
  "errCode InvalidCodeError = ''invalid_code''"
| "errCode CodeExpiredError = ''code_expired''"
| "errCode AlreadyPairedError = ''already_paired''"
| "errCode PeerOfflineError = ''peer_offline''"
| "errCode RateLimitedError = ''rate_limited''"
| "errCode MalformedError = ''malformed''"
| "errCode InternalError = ''internal''"
| "errCode KeyMismatchError = ''key_mismatch''"
| "errCode NotReadyError = ''not_ready''"
| "errCode PeerKeyMismatchError = ''peer_key_mismatch''"

definition errorForCode :: "string \<Rightarrow> string \<Rightarrow> RelaylyClientError" where
  "errorForCode code message =
     (if code = ''invalid_code'' then \<lparr>errClass = InvalidCodeError, errMessage = message\<rparr>
      else if code = ''code_expired'' then \<lparr>errClass = CodeExpiredError, errMessage = message\<rparr>
      else if code = ''already_paired'' then \<lparr>errClass = AlreadyPairedError, errMessage = message\<rparr>
      else if code = ''peer_offline'' then \<lparr>errClass = PeerOfflineError, errMessage = message\<rparr>
      else if code = ''rate_limited'' then \<lparr>errClass = RateLimitedError, errMessage = message\<rparr>
      else if code = ''malformed'' then \<lparr>errClass = MalformedError, errMessage = message\<rparr>
      else if code = ''key_mismatch'' then \<lparr>errClass = KeyMismatchError, errMessage = message\<rparr>
      else \<lparr>errClass = InternalError, errMessage = (if message = '''' then code else message)\<rparr>)"

text \<open>The errors whose constructor takes the identifier of the peer; \<open>CHR 0x27\<close> is the apostrophe.\<close>

definition newNotReadyError :: "device_id \<Rightarrow> RelaylyClientError" where
  "newNotReadyError peerId =
     \<lparr>errClass = NotReadyError, errMessage = ''relayly: peer '' @ peerId @ [CHR 0x27] @ ''s session is not ready''\<rparr>"

definition newPeerKeyMismatchError :: "device_id \<Rightarrow> RelaylyClientError" where
  "newPeerKeyMismatchError peerId =
     \<lparr>errClass = PeerKeyMismatchError,
      errMessage = ''relayly: peer '' @ peerId @ [CHR 0x27] @ ''s authenticated key does not match the pinned key''\<rparr>"

text \<open>The sentinel of the Go library that stands for the same condition.\<close>

fun sentinelOf :: "errorClass \<Rightarrow> sentinel" where
  "sentinelOf InvalidCodeError = ErrInvalidCode"
| "sentinelOf CodeExpiredError = ErrCodeExpired"
| "sentinelOf AlreadyPairedError = ErrAlreadyPairedSdk"
| "sentinelOf PeerOfflineError = ErrPeerOffline"
| "sentinelOf RateLimitedError = ErrRateLimited"
| "sentinelOf MalformedError = ErrMalformed"
| "sentinelOf InternalError = ErrInternal"
| "sentinelOf KeyMismatchError = ErrKeyMismatch"
| "sentinelOf NotReadyError = ErrNotReady"
| "sentinelOf PeerKeyMismatchError = ErrPeerKeyMismatch"

section \<open>Keys\<close>

definition ts_generateKey :: "prims \<Rightarrow> bytes \<Rightarrow> KeyPair" where
  "ts_generateKey P rnd = (let kp = generateKeypair P rnd in \<lparr>privateKey = privateKey kp, publicKey = publicKey kp\<rparr>)"

text \<open>\<open>decode\<close> is the base64 decoder of the platform, \<^verbatim>\<open>Buffer.from\<close> or \<^verbatim>\<open>atob\<close>; \<open>None\<close> when it throws.\<close>

definition keyPairFromPrivateKey :: "prims \<Rightarrow> (string \<Rightarrow> bytes option) \<Rightarrow> string \<Rightarrow> KeyPair option" where
  "keyPairFromPrivateKey P decode base64PrivateKey =
     (case decode base64PrivateKey of
        None \<Rightarrow> None
      | Some priv \<Rightarrow>
          (if length priv \<noteq> 32 then None
           else Some \<lparr>privateKey = priv, publicKey = publicKeyFromPrivate P priv\<rparr>))"

section \<open>The peer\<close>

type_synonym tsSessions = "sid \<Rightarrow> NoiseSession option"
type_synonym promise = nat

definition UNSOLICITED_MSG1_MIN_INTERVAL_MS :: int where
  "UNSOLICITED_MSG1_MIN_INTERVAL_MS = 2000"

text \<open>A waiter resolves or rejects the promise of the call that registered it.\<close>

record PeerConnection =
  tp_id :: device_id
  tp_announced :: string
  tp_active :: "sid option"
  tp_pending :: "sid option"
  tp_lastUnsolicited :: int
  tp_waiter :: "promise option"

definition newPeerConnection :: "device_id \<Rightarrow> string \<Rightarrow> PeerConnection" where
  "newPeerConnection i key =
     \<lparr>tp_id = i, tp_announced = key, tp_active = None, tp_pending = None, tp_lastUnsolicited = 0, tp_waiter = None\<rparr>"

definition ts_setFirstPairWaiter :: "promise \<Rightarrow> PeerConnection \<Rightarrow> PeerConnection" where
  "ts_setFirstPairWaiter w p = p\<lparr>tp_waiter := Some w\<rparr>"

definition ts_takeFirstPairWaiter :: "PeerConnection \<Rightarrow> promise option \<times> PeerConnection" where
  "ts_takeFirstPairWaiter p = (tp_waiter p, p\<lparr>tp_waiter := None\<rparr>)"

definition peerStartAsInitiator ::
  "prims \<Rightarrow> bytes \<Rightarrow> sid \<Rightarrow> KeyPair \<Rightarrow> PeerConnection \<times> tsSessions \<Rightarrow> bytes option \<times> PeerConnection \<times> tsSessions" where
  "peerStartAsInitiator P rnd n kp st =
     (let (p, H) = st in
      case ts_startAsInitiator P kp rnd of
        None \<Rightarrow> (None, p, H)
      | Some (session, msg1) \<Rightarrow> (Some msg1, p\<lparr>tp_active := Some n\<rparr>, H(n \<mapsto> session)))"

definition peerStartRekey ::
  "prims \<Rightarrow> bytes \<Rightarrow> sid \<Rightarrow> KeyPair \<Rightarrow> PeerConnection \<times> tsSessions \<Rightarrow> bytes option \<times> PeerConnection \<times> tsSessions" where
  "peerStartRekey P rnd n kp st =
     (let (p, H) = st in
      case ts_startAsInitiator P kp rnd of
        None \<Rightarrow> (None, p, H)
      | Some (session, msg1) \<Rightarrow> (Some msg1, p\<lparr>tp_pending := Some n\<rparr>, H(n \<mapsto> session)))"

definition isReadyAt :: "tsSessions \<Rightarrow> sid \<Rightarrow> bool" where
  "isReadyAt H k \<longleftrightarrow> (case H k of None \<Rightarrow> False | Some s \<Rightarrow> ts_status s = Ready)"

text \<open>The session an envelope is for: its address and \<open>wasPending\<close>, or \<open>None\<close> when it is dropped.\<close>

definition ts_chooseSession ::
  "prims \<Rightarrow> bytes \<Rightarrow> int \<Rightarrow> sid \<Rightarrow> KeyPair \<Rightarrow> PeerConnection \<times> tsSessions \<Rightarrow>
    (sid \<times> bool) option \<times> PeerConnection \<times> tsSessions" where
  "ts_chooseSession P rnd now n kp st =
     (let (p, H) = st in
      case tp_pending p of
        Some k \<Rightarrow> (Some (k, True), p, H)
      | None \<Rightarrow>
          (case tp_active p of
             Some a \<Rightarrow>
               (if \<not> isReadyAt H a then (Some (a, False), p, H)
                else if now - tp_lastUnsolicited p < UNSOLICITED_MSG1_MIN_INTERVAL_MS then (None, p, H)
                else (Some (n, True), p\<lparr>tp_lastUnsolicited := now, tp_pending := Some n\<rparr>, H(n \<mapsto> ts_startAsResponder P kp rnd)))
           | None \<Rightarrow> (Some (n, False), p\<lparr>tp_active := Some n\<rparr>, H(n \<mapsto> ts_startAsResponder P kp rnd))))"

record HandshakeOutcome =
  oc_reply :: "bytes option"
  oc_completed :: "sid option"
  oc_wasPending :: bool

definition peerHandleEnvelope ::
  "prims \<Rightarrow> bytes \<Rightarrow> int \<Rightarrow> sid \<Rightarrow> KeyPair \<Rightarrow> bytes \<Rightarrow> PeerConnection \<times> tsSessions \<Rightarrow>
    HandshakeOutcome option \<times> PeerConnection \<times> tsSessions" where
  "peerHandleEnvelope P rnd now n kp d st =
     (case ts_chooseSession P rnd now n kp st of
        (None, p, H) \<Rightarrow> (Some \<lparr>oc_reply = None, oc_completed = None, oc_wasPending = False\<rparr>, p, H)
      | (Some (k, wasPending), p, H) \<Rightarrow>
          (case H k of
             None \<Rightarrow> (None, p, H)
           | Some s \<Rightarrow>
               (case ts_handle P d s of
                  (None, s') \<Rightarrow> (None, p, H(k \<mapsto> s'))
                | (Some reply, s') \<Rightarrow>
                    (Some \<lparr>oc_reply = reply, oc_completed = (if ts_status s' \<noteq> Handshaking then Some k else None),
                           oc_wasPending = wasPending\<rparr>, p, H(k \<mapsto> s')))))"

definition ts_promote :: "sid \<Rightarrow> PeerConnection \<Rightarrow> PeerConnection" where
  "ts_promote k p = (if tp_pending p = Some k then p\<lparr>tp_active := Some k, tp_pending := None\<rparr> else p)"

definition ts_abandon :: "sid \<Rightarrow> PeerConnection \<Rightarrow> PeerConnection" where
  "ts_abandon k p = (if tp_pending p = Some k then p\<lparr>tp_pending := None\<rparr> else p)"

definition peerPublicKey :: "PeerConnection \<times> tsSessions \<Rightarrow> bytes option" where
  "peerPublicKey st =
     (let (p, H) = st in
      case Option.bind (tp_active p) H of
        None \<Rightarrow> None
      | Some s \<Rightarrow> (if ts_status s = Ready then ts_peerStatic s else None))"

definition ts_peerSend :: "prims \<Rightarrow> bytes \<Rightarrow> PeerConnection \<times> tsSessions \<Rightarrow> bytes option \<times> tsSessions" where
  "ts_peerSend P payload st =
     (let (p, H) = st in
      case Option.bind (tp_active p) H of
        None \<Rightarrow> (None, H)
      | Some s \<Rightarrow> (case ts_encrypt P payload s of (r, s') \<Rightarrow> (r, H(the (tp_active p) \<mapsto> s'))))"

definition ts_peerRecv :: "prims \<Rightarrow> bytes \<Rightarrow> PeerConnection \<times> tsSessions \<Rightarrow> bytes option \<times> tsSessions" where
  "ts_peerRecv P ciphertext st =
     (let (p, H) = st in
      case Option.bind (tp_active p) H of
        None \<Rightarrow> (None, H)
      | Some s \<Rightarrow> (case ts_decrypt P ciphertext s of (r, s') \<Rightarrow> (r, H(the (tp_active p) \<mapsto> s'))))"

section \<open>Pin stores\<close>

text \<open>The in-memory store; a \<^verbatim>\<open>Map\<close>. The first component says whether the promise resolves.\<close>

type_synonym memoryPins = "device_id \<Rightarrow> (string \<times> string) option"

definition memGet :: "device_id \<Rightarrow> memoryPins \<Rightarrow> (string \<times> string) option" where
  "memGet i pins = pins i"

declare memGet_def [simp]

definition memPinned :: "device_id \<Rightarrow> memoryPins \<Rightarrow> string option" where
  "memPinned i pins = map_option fst (memGet i pins)"

definition memPinOrVerify :: "string \<Rightarrow> device_id \<Rightarrow> string \<Rightarrow> memoryPins \<Rightarrow> RelaylyClientError option \<times> memoryPins" where
  "memPinOrVerify nowText i key pins =
     (case memGet i pins of
        Some (k, _) \<Rightarrow>
          ((if k \<noteq> key then Some (newPeerKeyMismatchError i) else None), pins)
      | None \<Rightarrow> (None, pins(i \<mapsto> (key, nowText))))"

interpretation ts_pin_lock: tofu_lock
  "\<lambda>i key pins. (fst (memPinOrVerify nowText i key pins) = None, snd (memPinOrVerify nowText i key pins))"
  "\<lambda>pins i. memPinned i pins" "\<lambda>_. True" for nowText :: string
  by unfold_locales (auto simp: memPinOrVerify_def memPinned_def split: option.splits if_splits)

text \<open>
  The file store. What is read is an object literal, whose prototype has properties of its own:
  reading \<^verbatim>\<open>pins[peerId]\<close> finds them too, as a value without \<^verbatim>\<open>static_key\<close>.
\<close>

definition objectPrototype :: "string list" where
  "objectPrototype =
     [''constructor'', ''__defineGetter__'', ''__defineSetter__'', ''hasOwnProperty'', ''__lookupGetter__'', ''__lookupSetter__'',
      ''isPrototypeOf'', ''propertyIsEnumerable'', ''toString'', ''valueOf'', ''__proto__'', ''toLocaleString'']"

datatype pinEntry = Own pinnedPeer | Inherited

definition pinEntryOf :: "pins \<Rightarrow> device_id \<Rightarrow> pinEntry option" where
  "pinEntryOf pins i =
     (case pins i of
        Some e \<Rightarrow> Some (Own e)
      | None \<Rightarrow> if i \<in> set objectPrototype then Some Inherited else None)"

definition fileLoad :: "bool \<Rightarrow> string \<Rightarrow> disk \<Rightarrow> pins option" where
  "fileLoad readable path fs =
     (case fs path of
        None \<Rightarrow> Some (\<lambda>_. None)
      | Some f \<Rightarrow>
          (if \<not> readable then None
           else case f of EmptyFile \<Rightarrow> Some (\<lambda>_. None) | Peers ps \<Rightarrow> Some ps | Unparsable \<Rightarrow> None))"

definition fileSave :: "save_result \<Rightarrow> string \<Rightarrow> pins \<Rightarrow> disk \<Rightarrow> bool \<times> disk" where
  "fileSave res path pins fs =
     (let tmp = path @ ''.tmp'' in
      case res of
        SaveOk \<Rightarrow> (True, (fs(tmp := None))(path \<mapsto> Peers pins))
      | MkdirFailed \<Rightarrow> (False, fs)
      | WriteTmpFailed \<Rightarrow> (False, fs(tmp \<mapsto> Unparsable))
      | RenameFailed \<Rightarrow> (False, fs(tmp \<mapsto> Peers pins)))"

definition fileGet :: "bool \<Rightarrow> string \<Rightarrow> device_id \<Rightarrow> disk \<Rightarrow> pinEntry option option" where
  "fileGet readable path i fs = map_option (\<lambda>pins. pinEntryOf pins i) (fileLoad readable path fs)"

datatype filePinError = PinKeyMismatch | PinLoadFailed | PinSaveFailed

text \<open>
  \<^verbatim>\<open>pinOrVerify\<close> awaits twice, so other calls run between its halves: it reads the file, then decides
  and writes what it read together with the new entry. \<open>Inl\<close> is the result of a call that ends,
  \<open>Inr\<close> the object it still has to save.
\<close>

definition filePinDecide :: "string \<Rightarrow> device_id \<Rightarrow> string \<Rightarrow> pins option \<Rightarrow> filePinError option + pins" where
  "filePinDecide nowText i key loaded =
     (case loaded of
        None \<Rightarrow> Inl (Some PinLoadFailed)
      | Some pins \<Rightarrow>
          (case pinEntryOf pins i of
             Some (Own e) \<Rightarrow> Inl (if pin_StaticKey e \<noteq> key then Some PinKeyMismatch else None)
           | Some Inherited \<Rightarrow> Inl (Some PinKeyMismatch)
           | None \<Rightarrow> Inr (pins(i \<mapsto> \<lparr>pin_StaticKey = key, pin_PinnedAt = nowText\<rparr>))))"

definition filePinFinish :: "save_result \<Rightarrow> string \<Rightarrow> filePinError option + pins \<Rightarrow> disk \<Rightarrow> filePinError option \<times> disk" where
  "filePinFinish res path decided fs =
     (case decided of
        Inl r \<Rightarrow> (r, fs)
      | Inr pins \<Rightarrow> (case fileSave res path pins fs of (ok, fs') \<Rightarrow> (if ok then None else Some PinSaveFailed, fs')))"

text \<open>A call that nothing interrupts.\<close>

definition filePinOrVerify ::
  "bool \<Rightarrow> save_result \<Rightarrow> string \<Rightarrow> string \<Rightarrow> device_id \<Rightarrow> string \<Rightarrow> disk \<Rightarrow> filePinError option \<times> disk" where
  "filePinOrVerify readable res nowText path i key fs =
     filePinFinish res path (filePinDecide nowText i key (fileLoad readable path fs)) fs"

text \<open>What is pinned in the file.\<close>

definition filePinned :: "string \<Rightarrow> disk \<Rightarrow> device_id \<Rightarrow> string option" where
  "filePinned path fs i = (case fs path of Some (Peers ps) \<Rightarrow> map_option pin_StaticKey (ps i) | _ \<Rightarrow> None)"

interpretation ts_file_lock: tofu_lock
  "\<lambda>i key fs. (fst (filePinOrVerify readable res nowText path i key fs) = None, snd (filePinOrVerify readable res nowText path i key fs))"
  "filePinned path" "\<lambda>_. True" for readable :: bool and res :: save_result and nowText path :: string
  by unfold_locales
    (auto simp: filePinOrVerify_def filePinFinish_def filePinDecide_def fileLoad_def fileSave_def filePinned_def pinEntryOf_def Let_def
      split: option.splits if_splits storeFile.splits save_result.splits)

section \<open>The two peers\<close>

text \<open>
  The calls the clients make on a peer, and what each library answers. A call that throws in
  TypeScript answers \<open>Handled None\<close>; the Go library returns an error for a handshake message that
  arrives after the end of the handshake. Go counts the clock in nanoseconds.
\<close>

datatype peerCall =
    CallStart bytes sid | CallRekey bytes sid | CallEnvelope bytes int sid bytes
  | CallPromote sid | CallAbandon sid | CallSend bytes | CallRecv bytes | CallSetWaiter nat | CallTakeWaiter

datatype peerObs =
    Gave "bytes option" | Handled "(bytes option \<times> sid option \<times> bool) option" | Waiter "nat option" | Quiet

fun ts_call :: "prims \<Rightarrow> bytes \<Rightarrow> peerCall \<Rightarrow> PeerConnection \<times> tsSessions \<Rightarrow> peerObs \<times> PeerConnection \<times> tsSessions" where
  "ts_call P priv (CallStart rnd n) st = (case peerStartAsInitiator P rnd n (pairOf P priv) st of (r, st') \<Rightarrow> (Gave r, st'))"
| "ts_call P priv (CallRekey rnd n) st = (case peerStartRekey P rnd n (pairOf P priv) st of (r, st') \<Rightarrow> (Gave r, st'))"
| "ts_call P priv (CallEnvelope rnd now n d) st =
     (case peerHandleEnvelope P rnd now n (pairOf P priv) d st of
        (r, st') \<Rightarrow> (Handled (map_option (\<lambda>c. (oc_reply c, oc_completed c, oc_wasPending c)) r), st'))"
| "ts_call P priv (CallPromote k) st = (Quiet, ts_promote k (fst st), snd st)"
| "ts_call P priv (CallAbandon k) st = (Quiet, ts_abandon k (fst st), snd st)"
| "ts_call P priv (CallSend m) st = (case ts_peerSend P m st of (r, H) \<Rightarrow> (Gave r, fst st, H))"
| "ts_call P priv (CallRecv m) st = (case ts_peerRecv P m st of (r, H) \<Rightarrow> (Gave r, fst st, H))"
| "ts_call P priv (CallSetWaiter w) st = (Quiet, ts_setFirstPairWaiter w (fst st), snd st)"
| "ts_call P priv CallTakeWaiter st = (case ts_takeFirstPairWaiter (fst st) of (w, p) \<Rightarrow> (Waiter w, p, snd st))"

definition answered :: "sdk_error + bytes \<Rightarrow> bytes option" where
  "answered r = (case r of Inl _ \<Rightarrow> None | Inr b \<Rightarrow> Some b)"

definition afterFinish :: sdk_error where
  "afterFinish = Sentinel (ErrOther ''handshake message received after handshake finished'')"

fun go_call ::
  "prims \<Rightarrow> bytes \<Rightarrow> peerCall \<Rightarrow> peerConn \<times> (HandshakeState, CipherState) sessions \<Rightarrow>
    peerObs \<times> peerConn \<times> (HandshakeState, CipherState) sessions" where
  "go_call P priv (CallStart rnd n) st = (case startAsInitiator (tsLib P) rnd n priv st of (r, st') \<Rightarrow> (Gave (answered r), st'))"
| "go_call P priv (CallRekey rnd n) st = (case startRekeyAsInitiator (tsLib P) rnd n priv st of (r, st') \<Rightarrow> (Gave (answered r), st'))"
| "go_call P priv (CallEnvelope rnd now n d) st =
     (case peerHandleHandshake (tsLib P) rnd (1000000 * now) n priv d st of
        ((reply, completed, wasPending, err), st') \<Rightarrow>
          (Handled (if err = Some afterFinish then None else Some (reply, completed, wasPending)), st'))"
| "go_call P priv (CallPromote k) st = (Quiet, promote k (fst st), snd st)"
| "go_call P priv (CallAbandon k) st = (Quiet, abandon k (fst st), snd st)"
| "go_call P priv (CallSend m) st = (case peerSend (tsLib P) m st of (r, H) \<Rightarrow> (Gave (answered r), fst st, H))"
| "go_call P priv (CallRecv m) st = (case peerRecv (tsLib P) m st of (r, H) \<Rightarrow> (Gave (answered r), fst st, H))"
| "go_call P priv (CallSetWaiter w) st = (Quiet, setFirstPairWaiter w (fst st), snd st)"
| "go_call P priv CallTakeWaiter st = (case takeFirstPairWaiter (fst st) of (w, p) \<Rightarrow> (Waiter w, p, snd st))"

fun observe :: "('c \<Rightarrow> 's \<Rightarrow> 'o \<times> 's) \<Rightarrow> 'c list \<Rightarrow> 's \<Rightarrow> 'o list" where
  "observe f [] s = []"
| "observe f (c # cs) s = (case f c s of (x, s') \<Rightarrow> x # observe f cs s')"

text \<open>The zero time of Go lies before every interval, the zero of \<^verbatim>\<open>Date.now()\<close> at the epoch.\<close>

fun afterEpoch :: "peerCall \<Rightarrow> bool" where
  "afterEpoch (CallEnvelope rnd now n d) \<longleftrightarrow> 2000 \<le> now"
| "afterEpoch _ \<longleftrightarrow> True"

text \<open>The simulation: same fields, and at each address sessions in the same state.\<close>

definition heap_sim :: "tsSessions \<Rightarrow> (HandshakeState, CipherState) sessions \<Rightarrow> bool" where
  "heap_sim H G \<longleftrightarrow> (\<forall>k. rel_option agrees (H k) (G k))"

definition clock_sim :: "time option \<Rightarrow> int \<Rightarrow> bool" where
  "clock_sim g t \<longleftrightarrow> (case g of None \<Rightarrow> t = 0 | Some l \<Rightarrow> l = 1000000 * t)"

definition peer_sim :: "PeerConnection \<times> tsSessions \<Rightarrow> peerConn \<times> (HandshakeState, CipherState) sessions \<Rightarrow> bool" where
  "peer_sim st gst \<longleftrightarrow>
     (let (p, H) = st; (q, G) = gst in
      active q = tp_active p \<and> pending q = tp_pending p \<and> firstPairWaiter q = tp_waiter p \<and>
      clock_sim (lastUnsolicitedMsg1 q) (tp_lastUnsolicited p) \<and>
      (\<forall>k. tp_active p = Some k \<or> tp_pending p = Some k \<longrightarrow> H k \<noteq> None) \<and> heap_sim H G)"

lemma heap_simD: "heap_sim H G \<Longrightarrow> H k = None \<longleftrightarrow> G k = None"
  by (metis heap_sim_def option.rel_distinct(1,2) rel_option_None1 rel_option_None2)

lemma heap_sim_cases:
  assumes "heap_sim H G"
  obtains "H k = None" "G k = None" | t s where "H k = Some t" "G k = Some s" "agrees t s"
  using assms unfolding heap_sim_def by (metis option.rel_cases)

lemma heap_sim_upd: "heap_sim H G \<Longrightarrow> agrees t s \<Longrightarrow> heap_sim (H(k \<mapsto> t)) (G(k \<mapsto> s))"
  by (simp add: heap_sim_def)

lemma agrees_ready: "agrees t s \<Longrightarrow> ready s \<longleftrightarrow> ts_status t = Ready"
  by (auto simp: agrees_def ready_def split: tsStatus.splits)

lemma heap_sim_ready: "heap_sim H G \<Longrightarrow> readyAt G k \<longleftrightarrow> isReadyAt H k"
  by (cases rule: heap_sim_cases [of H G k]) (auto simp: readyAt_def isReadyAt_def agrees_ready)

lemma agrees_handle:
  assumes "agrees t s" and "handleHandshakeMessage (tsLib P) d s = ((reply, fin, err), s')" and "ts_handle P d t = (r, t')"
  shows "agrees t' s' \<and>
    (if ts_status t = Handshaking then r = Some reply \<and> (fin \<longleftrightarrow> ts_status t' \<noteq> Handshaking) \<and> err \<noteq> Some afterFinish
     else r = None \<and> err = Some afterFinish)"
proof (cases "ts_status t = Handshaking")
  case True
  then have "session_status s = statusHandshaking" using assms(1) by (auto simp: agrees_def)
  then have "err \<noteq> Some afterFinish"
    using assms(2) by (auto simp: handleHandshakeMessage_def failLocked_def noiseError_def afterFinish_def Let_def split: option.splits if_splits)
  then show ?thesis
    using True agrees_handle_initiator [OF assms(1) True _ assms(2,3)] agrees_handle_responder [OF assms(1) True _ assms(2,3)]
    by (cases "ts_initiator t") simp_all
next
  case False
  then have "session_status s \<noteq> statusHandshaking" using assms(1) by (auto simp: agrees_def split: tsStatus.splits)
  then show ?thesis using False assms by (auto simp: handleHandshakeMessage_def ts_handle_def afterFinish_def)
qed

lemma start_sim:
  "(\<exists>e. newInitiatorSession (tsLib P) rnd priv = Inl e) \<and> ts_startAsInitiator P (pairOf P priv) rnd = None \<or>
   (\<exists>t s m. newInitiatorSession (tsLib P) rnd priv = Inr (s, m) \<and> ts_startAsInitiator P (pairOf P priv) rnd = Some (t, m) \<and> agrees t s)"
proof (cases "ts_startAsInitiator P (pairOf P priv) rnd")
  case None
  then have "ts_writeMessage P (newHandshakeState P True (pairOf P priv) rnd) = None"
    by (auto simp: ts_startAsInitiator_def newNoiseSession_def Let_def)
  with None show ?thesis by (simp add: newInitiatorSession_def)
next
  case (Some tm)
  then show ?thesis using agrees_initiator [of P priv rnd "fst tm" "snd tm"] by (cases tm) auto
qed

lemma sim_chooses:
  assumes "peer_sim (p, H) (q, G)" and "2000 \<le> now"
  shows "\<exists>r p' H' q' G'. ts_chooseSession P rnd now n (pairOf P priv) (p, H) = (r, p', H') \<and>
    chooseSession (tsLib P) rnd (1000000 * now) n priv (q, G) = (Inr r, q', G') \<and> peer_sim (p', H') (q', G') \<and>
    (\<forall>k w. r = Some (k, w) \<longrightarrow> H' k \<noteq> None)"
proof -
  obtain s where s: "newResponderSession (tsLib P) rnd priv = Inr s" "agrees (ts_startAsResponder P (pairOf P priv) rnd) s"
    using agrees_responder by blast
  have hs: "heap_sim H G" using assms(1) by (simp add: peer_sim_def)
  note up = heap_sim_upd [OF hs s(2), of n]
  show ?thesis
  proof (cases "tp_pending p")
    case (Some k)
    then show ?thesis using assms(1) by (auto simp: ts_chooseSession_def chooseSession_def peer_sim_def)
  next
    case None
    then have q: "pending q = None" "active q = tp_active p" using assms(1) by (simp_all add: peer_sim_def)
    show ?thesis
    proof (cases "tp_active p")
      case None
      then show ?thesis
        using assms(1) s(1) up q \<open>tp_pending p = None\<close>
        by (simp add: ts_chooseSession_def chooseSession_def peer_sim_def)
    next
      case (Some a)
      have "(case lastUnsolicitedMsg1 q of None \<Rightarrow> False | Some l \<Rightarrow> 1000000 * now - l < unsolicitedMsg1MinInterval) \<longleftrightarrow>
        now - tp_lastUnsolicited p < UNSOLICITED_MSG1_MIN_INTERVAL_MS"
        using assms by (auto simp: peer_sim_def clock_sim_def UNSOLICITED_MSG1_MIN_INTERVAL_MS_def unsolicitedMsg1MinInterval_def split: option.splits)
      then show ?thesis
        using assms(1) s(1) up q \<open>tp_pending p = None\<close> Some heap_sim_ready [OF hs, of a]
        by (simp add: ts_chooseSession_def chooseSession_def peer_sim_def clock_sim_def Let_def)
    qed
  qed
qed


lemma sim_crypt:
  assumes "peer_sim (p, H) (q, G)"
  shows "fst (ts_peerSend P m (p, H)) = answered (fst (peerSend (tsLib P) m (q, G))) \<and>
    peer_sim (p, snd (ts_peerSend P m (p, H))) (q, snd (peerSend (tsLib P) m (q, G))) \<and>
    fst (ts_peerRecv P m (p, H)) = answered (fst (peerRecv (tsLib P) m (q, G))) \<and>
    peer_sim (p, snd (ts_peerRecv P m (p, H))) (q, snd (peerRecv (tsLib P) m (q, G)))"
proof (cases "tp_active p")
  case None
  moreover have "active q = tp_active p" using assms by (simp add: peer_sim_def)
  ultimately show ?thesis
    using assms by (simp add: ts_peerSend_def peerSend_def ts_peerRecv_def peerRecv_def answered_def)
next
  case (Some k)
  have hs: "heap_sim H G" and a: "active q = Some k" and "H k \<noteq> None" using assms Some by (auto simp: peer_sim_def)
  then obtain t s where ts: "H k = Some t" "G k = Some s" "agrees t s"
    by (metis heap_sim_cases)
  note cr = agrees_crypt [OF ts(3), of P m]
  have up: "peer_sim (p, H(k \<mapsto> t')) (q, G(k \<mapsto> s'))" if "agrees t' s'" for t' s'
    using assms heap_sim_upd [OF hs that, of k] by (auto simp: peer_sim_def)
  show ?thesis
    using Some a ts cr up
    by (simp add: ts_peerSend_def peerSend_def ts_peerRecv_def peerRecv_def answered_def case_prod_beta)
qed


lemma sim_envelope:
  assumes "peer_sim st gst" and "2000 \<le> now"
    and "ts_call P priv (CallEnvelope rnd now n d) st = (x, st')" and "go_call P priv (CallEnvelope rnd now n d) gst = (y, gst')"
  shows "x = y \<and> peer_sim st' gst'"
proof -
  obtain p H q G where st: "st = (p, H)" "gst = (q, G)" by fastforce
  obtain r p' H' q' G' where c: "ts_chooseSession P rnd now n (pairOf P priv) (p, H) = (r, p', H')"
    "chooseSession (tsLib P) rnd (1000000 * now) n priv (q, G) = (Inr r, q', G')" "peer_sim (p', H') (q', G')"
    "\<forall>k w. r = Some (k, w) \<longrightarrow> H' k \<noteq> None"
    using sim_chooses [of p H q G now P rnd n priv] assms(1,2) st by blast
  show ?thesis
  proof (cases r)
    case None
    then show ?thesis using assms(3,4) c st by (auto simp: peerHandleEnvelope_def peerHandleHandshake_def)
  next
    case (Some kw)
    obtain k w where kw: "kw = (k, w)" by fastforce
    have hs: "heap_sim H' G'" and "H' k \<noteq> None" using c(3,4) Some kw by (simp_all add: peer_sim_def)
    then obtain t s where ts: "H' k = Some t" "G' k = Some s" "agrees t s"
      by (metis heap_sim_cases)
    obtain rr t' where h1: "ts_handle P d t = (rr, t')" by fastforce
    obtain reply fin err s' where h2: "handleHandshakeMessage (tsLib P) d s = ((reply, fin, err), s')" by (metis prod_cases3 surj_pair)
    note ag = agrees_handle [OF ts(3) h2 h1]
    have "peer_sim (p', H'(k \<mapsto> t')) (q', G'(k \<mapsto> s'))"
      using c(3) heap_sim_upd [OF hs, of t' s' k] ag by (auto simp: peer_sim_def)
    moreover have "st' = (p', H'(k \<mapsto> t'))" "gst' = (q', G'(k \<mapsto> s'))"
      using assms(3,4) c(1,2) st Some kw ts h1 h2
      by (auto simp: peerHandleEnvelope_def peerHandleHandshake_def split: option.splits)
    moreover have "x = y"
    proof (cases "ts_status t = Handshaking")
      case True
      then show ?thesis using assms(3,4) c(1,2) st Some kw ts h1 h2 ag
        by (simp add: peerHandleEnvelope_def peerHandleHandshake_def)
    next
      case False
      then show ?thesis using assms(3,4) c(1,2) st Some kw ts h1 h2 ag
        by (simp add: peerHandleEnvelope_def peerHandleHandshake_def)
    qed
    ultimately show ?thesis by simp
  qed
qed


lemma sim_start:
  assumes "peer_sim (p, H) (q, G)" and "ts_call P priv c (p, H) = (x, st')" and "go_call P priv c (q, G) = (y, gst')"
    and "c = CallStart rnd n \<or> c = CallRekey rnd n"
  shows "x = y \<and> peer_sim st' gst'"
proof -
  have hs: "heap_sim H G" using assms(1) by (simp add: peer_sim_def)
  consider e where "newInitiatorSession (tsLib P) rnd priv = Inl e" "ts_startAsInitiator P (pairOf P priv) rnd = None"
    | t s m where "newInitiatorSession (tsLib P) rnd priv = Inr (s, m)" "ts_startAsInitiator P (pairOf P priv) rnd = Some (t, m)" "agrees t s"
    using start_sim by blast
  then show ?thesis
  proof cases
    case 1
    then show ?thesis using assms
      by (elim disjE) (simp_all add: peerStartAsInitiator_def startAsInitiator_def peerStartRekey_def startRekeyAsInitiator_def answered_def)
  next
    case 2
    then show ?thesis using assms heap_sim_upd [OF hs 2(3), of n]
      by (elim disjE) (auto simp: peerStartAsInitiator_def startAsInitiator_def peerStartRekey_def startRekeyAsInitiator_def answered_def peer_sim_def)
  qed
qed

lemma sim_settle:
  assumes "peer_sim (p, H) (q, G)"
  shows "peer_sim (ts_promote k p, H) (promote k q, G)" and "peer_sim (ts_abandon k p, H) (abandon k q, G)"
    and "peer_sim (ts_setFirstPairWaiter w p, H) (setFirstPairWaiter w q, G)"
    and "fst (ts_takeFirstPairWaiter p) = fst (takeFirstPairWaiter q)"
    and "peer_sim (snd (ts_takeFirstPairWaiter p), H) (snd (takeFirstPairWaiter q), G)"
  using assms
  by (simp_all add: peer_sim_def ts_promote_def promote_def ts_abandon_def abandon_def
      ts_setFirstPairWaiter_def setFirstPairWaiter_def ts_takeFirstPairWaiter_def takeFirstPairWaiter_def)

lemma sim_call:
  assumes "peer_sim st gst" and "afterEpoch c" and "ts_call P priv c st = (x, st')" and "go_call P priv c gst = (y, gst')"
  shows "x = y \<and> peer_sim st' gst'"
proof -
  obtain p H q G where st: "st = (p, H)" "gst = (q, G)" by fastforce
  note sim = assms(1) [unfolded st]
  show ?thesis
  proof (cases c)
    case (CallEnvelope rnd now n d)
    then show ?thesis using sim_envelope [OF assms(1)] assms(2-4) by simp
  next
    case (CallStart rnd n)
    then show ?thesis using sim_start [OF sim] assms(3,4) st by blast
  next
    case (CallRekey rnd n)
    then show ?thesis using sim_start [OF sim] assms(3,4) st by blast
  next
    case (CallSend m)
    then show ?thesis using assms(3,4) st sim_crypt [OF sim, of P m] by (auto simp: case_prod_beta)
  next
    case (CallRecv m)
    then show ?thesis using assms(3,4) st sim_crypt [OF sim, of P m] by (auto simp: case_prod_beta)
  next
    case (CallPromote k)
    then show ?thesis using assms(3,4) st sim_settle(1) [OF sim, of k] by auto
  next
    case (CallAbandon k)
    then show ?thesis using assms(3,4) st sim_settle(2) [OF sim, of k] by auto
  next
    case (CallSetWaiter w)
    then show ?thesis using assms(3,4) st sim_settle(3) [OF sim, of w] by auto
  next
    case CallTakeWaiter
    then show ?thesis using assms(3,4) st sim_settle(4,5) [OF sim] by (auto simp: case_prod_beta)
  qed
qed

section \<open>Properties\<close>

text \<open>
  C10: the two libraries drive a peer in the same way. Starting with a peer that was just created, the
  TypeScript class and the Go type give the same answers to every sequence of calls, handshake
  messages of any contents included, when they run on the same handshake implementation: the
  same replies, the same completed sessions, the same choice between first handshake and
  replacement, the same throttling and the same ciphertexts and plaintexts.
\<close>

theorem ts_peer_is_go_peer:
  assumes "list_all afterEpoch calls"
  shows "observe (ts_call P priv) calls (newPeerConnection i key, \<lambda>_. None) = observe (go_call P priv) calls (newPeerConn i key, \<lambda>_. None)"
proof -
  have "observe (ts_call P priv) calls st = observe (go_call P priv) calls gst" if "peer_sim st gst" for st gst
    using assms that
  proof (induction calls arbitrary: st gst)
    case (Cons c cs)
    obtain x st' y gst' where r: "ts_call P priv c st = (x, st')" "go_call P priv c gst = (y, gst')"
      by (metis surj_pair)
    with Cons.prems have "x = y" "peer_sim st' gst'" using sim_call [OF Cons.prems(2) _ r] by simp_all
    with Cons r show ?case by simp
  qed simp
  moreover have "peer_sim (newPeerConnection i key, \<lambda>_. None) (newPeerConn i key, \<lambda>_. None)"
    by (simp add: peer_sim_def newPeerConnection_def newPeerConn_def clock_sim_def heap_sim_def)
  ultimately show ?thesis by blast
qed

text \<open>At a key exchange that refuses the peer's key, as it does for a truncated one.\<close>

theorem ts_peer_is_go_peer_witness:
  "observe (go_call (toyPrims\<lparr>getSharedSecret := \<lambda>_ _. None\<rparr>) []) [CallEnvelope [] 5000 0 [9], CallEnvelope [] 5000 1 [9], CallSend [7]]
     (newPeerConn ''b'' '''', \<lambda>_. None) = [Handled (Some (None, Some 0, False)), Handled None, Gave None]"
proof -
  let ?P = "toyPrims\<lparr>getSharedSecret := \<lambda>_ _. None\<rparr>"
  let ?calls = "[CallEnvelope [] 5000 0 [9], CallEnvelope [] 5000 1 [9], CallSend [7]]"
  have "list_all afterEpoch ?calls" by simp
  note ts_peer_is_go_peer [OF this, of ?P "[]" "''b''" "''''"]
  moreover have "Option.bind (ts_readMessage ?P (newHandshakeState ?P False kp []) [9]) (\<lambda>(_, h). ts_writeMessage ?P h) = None" for kp
    by (auto simp: ts_readMessage_def readMsg1_def ts_writeMessage_def writeMsg2_def mixDh_def ts_dh_def Let_def bind_eq_None_conv
        newHandshakeState_def split: option.splits)
  then have "observe (ts_call ?P []) ?calls (newPeerConnection ''b'' '''', \<lambda>_. None)
    = [Handled (Some (None, Some 0, False)), Handled None, Gave None]"
    by (simp add: newPeerConnection_def peerHandleEnvelope_def ts_chooseSession_def isReadyAt_def ts_startAsResponder_def newNoiseSession_def
        ts_handle_def ts_fail_def ts_peerSend_def ts_encrypt_def Let_def)
  ultimately show ?thesis by simp
qed

text \<open>The typed errors of the two libraries are the same: a code of the server means the same condition in both.\<close>

lemma errorForCode_is_errForCode:
  "errorsIs (errForCode code message) s \<longleftrightarrow> sentinelOf (errClass (errorForCode code message)) = s"
  by (simp add: errForCode_def errorForCode_def Let_def)

lemma errorForCode_code:
  "errCode (errClass (errorForCode code message)) =
     (if code \<in> {''invalid_code'', ''code_expired'', ''already_paired'', ''peer_offline'', ''rate_limited'', ''malformed'', ''key_mismatch''}
      then code else ''internal'')"
  by (simp add: errorForCode_def)

text \<open>
  Two overlapping calls of \<^verbatim>\<open>pinOrVerify\<close> of the file store, both of which read the file before either writes
  it, are both accepted: with two different keys for one peer the second key replaces the pin
  of the first, and with two peers the pin of the first is lost.
\<close>

lemma file_pins_race:
  assumes "fileLoad True path fs = Some pins" and "pinEntryOf pins i = None" and "pinEntryOf pins j = None"
    and "filePinFinish SaveOk path (filePinDecide t1 i k1 (fileLoad True path fs)) fs = (r1, fs1)"
    and "filePinFinish SaveOk path (filePinDecide t2 j k2 (fileLoad True path fs)) fs1 = (r2, fs2)"
  shows "r1 = None \<and> r2 = None \<and> filePinned path fs1 i = Some k1 \<and> filePinned path fs2 j = Some k2 \<and>
    (i \<noteq> j \<longrightarrow> filePinned path fs2 i = None)"
  using assms
  by (auto simp: filePinFinish_def filePinDecide_def fileSave_def filePinned_def pinEntryOf_def Let_def split: option.splits if_splits)

text \<open>A peer that is named like a property every object has is never pinned: all its keys are refused.\<close>

lemma prototype_names_never_pinned:
  assumes "i \<in> set objectPrototype" and "fileLoad readable path fs = Some pins" and "pins i = None"
  shows "filePinOrVerify readable res nowText path i key fs = (Some PinKeyMismatch, fs)"
  using assms by (simp add: filePinOrVerify_def filePinFinish_def filePinDecide_def pinEntryOf_def)

text \<open>A key saved by the library is found again; what does not decode to 32 bytes is refused.\<close>

lemma keyPair_roundtrip:
  assumes "length rnd = 32" and "\<And>b. decode (encodeBase64 b) = Some b"
  shows "keyPairFromPrivateKey P decode (encodeBase64 (privateKey (ts_generateKey P rnd))) = Some (ts_generateKey P rnd)"
  using assms by (simp add: keyPairFromPrivateKey_def ts_generateKey_def generateKeypair_def publicKeyFromPrivate_def)

end
