(* ===== verification/Ts_Transport.thy ===== *)
theory Ts_Transport
  imports Sdk_Client
begin

text \<open>
  What the TypeScript client is built on: the event emitter at the top of \<^verbatim>\<open>sdk/ts/src/client.ts\<close> and the
  WebSocket with automatic reconnection (\<^verbatim>\<open>transport.ts\<close>). A listener is a function value: what it does
  is up to its owner, the emitter only decides which listeners are called and in which order.
  Sockets and timers are objects and have addresses; the state of a socket is changed by the
  platform, and its events are the arguments of the operations below.
\<close>

section \<open>The emitter\<close>

text \<open>\<^verbatim>\<open>once\<close> registers a new function object around the listener; the number tells them apart.\<close>

datatype 'f listener = On 'f | Once nat 'f

fun fnOf :: "'f listener \<Rightarrow> 'f" where
  "fnOf (On f) = f"
| "fnOf (Once n f) = f"

definition emitterOn :: "'f listener \<Rightarrow> 'f listener list \<Rightarrow> 'f listener list" where
  "emitterOn l arr = arr @ [l]"

definition emitterOff :: "'f listener \<Rightarrow> 'f listener list \<Rightarrow> 'f listener list" where
  "emitterOff l arr = remove1 l arr"

text \<open>
  \<^verbatim>\<open>forEach\<close> visits the indices below the length the array had at the start and skips those that the
  array does not have any more. A listener registered with \<^verbatim>\<open>once\<close> removes itself after its call.
  The result: the listeners called, in order, and the array.
\<close>

fun forEachFrom :: "nat \<Rightarrow> nat \<Rightarrow> 'f listener list \<Rightarrow> 'f list \<times> 'f listener list" where
  "forEachFrom k 0 arr = ([], arr)"
| "forEachFrom k (Suc r) arr =
     (if k < length arr then
        (let l = arr ! k;
             arr1 = (case l of On f \<Rightarrow> arr | Once n f \<Rightarrow> emitterOff l arr);
             (called, arr2) = forEachFrom (Suc k) r arr1
         in (fnOf l # called, arr2))
      else forEachFrom (Suc k) r arr)"

definition emitterEmit :: "'f listener list \<Rightarrow> 'f list \<times> 'f listener list" where
  "emitterEmit arr = forEachFrom 0 (length arr) arr"

section \<open>The transport\<close>

datatype sockState = CONNECTING | OPEN | CLOSING | CLOSED

record tsTransport =
  tt_reconnectDelay :: int
  tt_maxDelay :: int
  tt_ws :: "nat option"
  tt_socks :: "sockState list"
  tt_timer :: "nat option"
  tt_timers :: "int option list"
  tt_attempt :: nat
  tt_delay :: int
  tt_closed :: bool
  tt_sent :: "(nat \<times> outFrame) list"

definition DEFAULT_RECONNECT_DELAY_MS :: int where
  "DEFAULT_RECONNECT_DELAY_MS = 1000"

definition DEFAULT_MAX_RECONNECT_DELAY_MS :: int where
  "DEFAULT_MAX_RECONNECT_DELAY_MS = 60000"

text \<open>
  The sockets made so far are the list \<open>tt_socks\<close>, the timers made so far \<open>tt_timers\<close>: the delay of a timer that
  is set, \<open>None\<close> once it fired or was cleared.
\<close>

definition newTransport :: "int option \<Rightarrow> int option \<Rightarrow> tsTransport" where
  "newTransport reconnectDelayMs maxReconnectDelayMs =
     (let d = (case reconnectDelayMs of None \<Rightarrow> DEFAULT_RECONNECT_DELAY_MS | Some d \<Rightarrow> d);
          m = (case maxReconnectDelayMs of None \<Rightarrow> DEFAULT_MAX_RECONNECT_DELAY_MS | Some m \<Rightarrow> m)
      in \<lparr>tt_reconnectDelay = d, tt_maxDelay = m, tt_ws = None, tt_socks = [], tt_timer = None, tt_timers = [],
          tt_attempt = 0, tt_delay = d, tt_closed = False, tt_sent = []\<rparr>)"

definition transportConnect :: "tsTransport \<Rightarrow> tsTransport" where
  "transportConnect t =
     (if tt_closed t then t else t\<lparr>tt_ws := Some (length (tt_socks t)), tt_socks := tt_socks t @ [CONNECTING]\<rparr>)"

text \<open>The listener of \<^verbatim>\<open>open\<close>, for any of the sockets.\<close>

definition transportOpened :: "tsTransport \<Rightarrow> tsTransport" where
  "transportOpened t = t\<lparr>tt_attempt := 0, tt_delay := tt_reconnectDelay t\<rparr>"

definition scheduleReconnect :: "tsTransport \<Rightarrow> nat option \<times> tsTransport" where
  "scheduleReconnect t =
     (if tt_closed t \<or> tt_reconnectDelay t = 0 then (None, t)
      else (Some (tt_attempt t + 1),
            t\<lparr>tt_attempt := tt_attempt t + 1, tt_timer := Some (length (tt_timers t)), tt_timers := tt_timers t @ [Some (tt_delay t)]\<rparr>))"

text \<open>The callback of the timer.\<close>

definition transportTimer :: "nat \<Rightarrow> tsTransport \<Rightarrow> tsTransport" where
  "transportTimer i t =
     (if i < length (tt_timers t) \<and> tt_timers t ! i \<noteq> None
      then transportConnect (t\<lparr>tt_timers := (tt_timers t)[i := None], tt_delay := min (tt_delay t * 2) (tt_maxDelay t)\<rparr>)
      else t)"

definition isConnected :: "tsTransport \<Rightarrow> bool" where
  "isConnected t \<longleftrightarrow> (case tt_ws t of None \<Rightarrow> False | Some w \<Rightarrow> tt_socks t ! w = OPEN)"

text \<open>\<open>None\<close> when it throws.\<close>

definition transportSend :: "outFrame \<Rightarrow> tsTransport \<Rightarrow> tsTransport option" where
  "transportSend f t =
     (if \<not> isConnected t then None else Some (t\<lparr>tt_sent := tt_sent t @ [(the (tt_ws t), f)]\<rparr>))"

text \<open>\<^verbatim>\<open>WebSocket.close\<close> of the platform: a socket that is not closed yet is closing.\<close>

definition sockClose :: "sockState \<Rightarrow> sockState" where
  "sockClose s = (if s = CLOSED then CLOSED else CLOSING)"

definition transportClose :: "tsTransport \<Rightarrow> tsTransport" where
  "transportClose t =
     (let t1 = t\<lparr>tt_closed := True\<rparr>;
          t2 = (case tt_timer t1 of None \<Rightarrow> t1 | Some i \<Rightarrow> t1\<lparr>tt_timers := (tt_timers t1)[i := None], tt_timer := None\<rparr>)
      in case tt_ws t2 of
           None \<Rightarrow> t2
         | Some w \<Rightarrow> t2\<lparr>tt_socks := (tt_socks t2)[w := sockClose (tt_socks t2 ! w)], tt_ws := None\<rparr>)"

section \<open>Lemmas\<close>

lemma forEach_on:
  "forEachFrom k (length gs) (ls @ map On gs) = (gs, ls @ map On gs)" if "length ls = k"
  using that
proof (induction gs arbitrary: k ls)
  case (Cons g gs)
  have "forEachFrom (Suc k) (length gs) ((ls @ [On g]) @ map On gs) = (gs, (ls @ [On g]) @ map On gs)"
    using Cons.prems by (intro Cons.IH) simp
  with Cons.prems show ?case by (simp add: nth_append)
qed simp

text \<open>Without \<^verbatim>\<open>once\<close> every listener is called, in the order of registration.\<close>

lemma emit_calls_all: "emitterEmit (map On gs) = (gs, map On gs)"
  using forEach_on [of "[]" 0 gs] by (simp add: emitterEmit_def)

lemma forEach_prefix:
  "forEachFrom (length ls) (length fs + r) (ls @ map On fs @ arr) =
     (fs @ fst (forEachFrom (length ls + length fs) r (ls @ map On fs @ arr)), snd (forEachFrom (length ls + length fs) r (ls @ map On fs @ arr)))"
proof (induction fs arbitrary: ls)
  case (Cons f fs)
  show ?case using Cons.IH [of "ls @ [On f]"] by (simp add: nth_append case_prod_beta Let_def)
qed simp

lemma forEach_beyond: "length arr \<le> k \<Longrightarrow> forEachFrom k r arr = ([], arr)"
  by (induction r arbitrary: k) simp_all

text \<open>
  A listener registered with \<^verbatim>\<open>once\<close> makes the one registered after it miss the event: it moves into the
  place the loop has already visited.
\<close>

lemma once_skips_next:
  "emitterEmit (map On fs @ Once n f # l # map On gs) = (fs @ f # gs, map On fs @ l # map On gs)"
proof -
  let ?k = "length fs"
  have *: "remove1 (Once n f) (map On fs @ Once n f # l # map On gs) = map On fs @ l # map On gs"
    by (auto simp: remove1_append)
  have "forEachFrom (Suc ?k) (Suc (length gs)) ((map On fs @ [l]) @ map On gs) =
      forEachFrom (Suc ?k) (length gs + 1) ((map On fs @ [l]) @ map On gs)" by simp
  also have "\<dots> = (gs, map On fs @ l # map On gs)"
    using forEach_prefix [of "map On fs @ [l]" gs 1 "[]"] by (simp add: forEach_beyond del: forEachFrom.simps)
  finally have "forEachFrom ?k (2 + length gs) (map On fs @ Once n f # l # map On gs) = (f # gs, map On fs @ l # map On gs)"
    using * by (simp add: nth_append emitterOff_def del: forEachFrom.simps(2)) (simp add: nth_append emitterOff_def)
  then show ?thesis
    using forEach_prefix [of "[]" fs "2 + length gs" "Once n f # l # map On gs"]
    by (simp add: emitterEmit_def del: forEachFrom.simps)
qed

text \<open>
  The delays of a client that never gets through: in each round the socket closes, the
  reconnection is scheduled, and its timer fires.
\<close>

fun retryDelays :: "nat \<Rightarrow> tsTransport \<Rightarrow> int list" where
  "retryDelays 0 t = []"
| "retryDelays (Suc n) t =
     (case scheduleReconnect t of
        (None, t1) \<Rightarrow> []
      | (Some attempt, t1) \<Rightarrow>
          (case tt_timer t1 of
             None \<Rightarrow> []
           | Some i \<Rightarrow> the (tt_timers t1 ! i) # retryDelays n (transportTimer i t1)))"

definition backoffDelay :: "int \<Rightarrow> int \<Rightarrow> nat \<Rightarrow> int" where
  "backoffDelay base cap k = (if k = 0 then base else min (base * 2 ^ k) cap)"

lemma backoffDelay_Suc: "0 \<le> cap \<Longrightarrow> min (backoffDelay base cap k * 2) cap = backoffDelay base cap (Suc k)"
  by (auto simp: backoffDelay_def min_def)

lemma retryDelays_from:
  assumes "\<not> tt_closed t" and "tt_reconnectDelay t \<noteq> 0" and "0 \<le> tt_maxDelay t"
    and "tt_delay t = backoffDelay base (tt_maxDelay t) k"
  shows "retryDelays n t = map (backoffDelay base (tt_maxDelay t)) [k..<k + n]"
  using assms
proof (induction n arbitrary: t k)
  case (Suc n)
  obtain a t1 where s: "scheduleReconnect t = (Some a, t1)" "tt_timer t1 = Some (length (tt_timers t))"
    "tt_timers t1 = tt_timers t @ [Some (tt_delay t)]" "\<not> tt_closed t1" "tt_reconnectDelay t1 = tt_reconnectDelay t"
    "tt_maxDelay t1 = tt_maxDelay t" "tt_delay t1 = tt_delay t"
    using Suc.prems by (simp add: scheduleReconnect_def)
  let ?t2 = "transportTimer (length (tt_timers t)) t1"
  have "\<not> tt_closed ?t2" "tt_reconnectDelay ?t2 = tt_reconnectDelay t" "tt_maxDelay ?t2 = tt_maxDelay t"
    "tt_delay ?t2 = backoffDelay base (tt_maxDelay t) (Suc k)"
    using s Suc.prems(4) backoffDelay_Suc [OF Suc.prems(3), of base k]
    by (simp_all add: transportTimer_def transportConnect_def)
  then have "retryDelays n ?t2 = map (backoffDelay base (tt_maxDelay t)) [Suc k..<Suc k + n]"
    using Suc.IH [of ?t2 "Suc k"] Suc.prems(2,3) by simp
  with s Suc.prems(4) show ?case by (simp add: upt_conv_Cons [of k] del: upt_Suc)
qed simp

section \<open>Properties\<close>

text \<open>
  The reconnection delays of the TypeScript client. Once a connection was up, or right at the start, a client
  that does not get through retries for ever: it waits the configured delay first, twice as
  long after every failure, and never longer than the configured maximum, except that the
  first delay is not capped.
\<close>

theorem ts_backoff:
  assumes "\<not> tt_closed t" and "tt_reconnectDelay t \<noteq> 0" and "0 \<le> tt_maxDelay t"
  shows "retryDelays n (transportOpened t) =
    map (\<lambda>k. if k = 0 then tt_reconnectDelay t else min (tt_reconnectDelay t * 2 ^ k) (tt_maxDelay t)) [0..<n]"
proof -
  have "retryDelays n (transportOpened t) = map (backoffDelay (tt_reconnectDelay t) (tt_maxDelay t)) [0..<n]"
    using assms retryDelays_from [of "transportOpened t" "tt_reconnectDelay t" 0 n] by (simp add: transportOpened_def backoffDelay_def)
  then show ?thesis by (simp add: backoffDelay_def [abs_def])
qed

theorem ts_backoff_witness:
  "retryDelays 8 (newTransport None None) = [1000, 2000, 4000, 8000, 16000, 32000, 60000, 60000]"
proof -
  let ?t = "newTransport None None"
  have "\<not> tt_closed ?t" "tt_reconnectDelay ?t \<noteq> 0" "0 \<le> tt_maxDelay ?t"
    by (simp_all add: newTransport_def DEFAULT_RECONNECT_DELAY_MS_def DEFAULT_MAX_RECONNECT_DELAY_MS_def)
  note ts_backoff [OF this, of 8]
  moreover have "transportOpened ?t = ?t" by (simp add: transportOpened_def newTransport_def)
  moreover have "[0..<8] = [0, 1, 2, 3, 4, 5, 6, 7 :: nat]" by (simp add: upt_rec)
  ultimately show ?thesis
    by (simp add: newTransport_def DEFAULT_RECONNECT_DELAY_MS_def DEFAULT_MAX_RECONNECT_DELAY_MS_def del: retryDelays.simps)
qed

end
