(* ===== verification/Ts_Client.thy ===== *)
theory Ts_Client
  imports Ts_Peer Ts_Transport Pairing_Tokens "HOL-Library.AList"
begin

text \<open>
  The client of the TypeScript library (\<^verbatim>\<open>sdk/ts/src/client.ts\<close>): its calls, the handlers of everything
  that arrives on the socket, the completion of a handshake, and the system of all of them. The
  program is single-threaded; a handler runs to its end or to its first \<^verbatim>\<open>await\<close>, and what follows the
  \<^verbatim>\<open>await\<close> in \<^verbatim>\<open>resolveHandshake\<close> is a job that is resumed later. Peers, sessions, promises, sockets and timers are
  objects with addresses. An exception leaves the handler with what it changed so far. Listeners
  of the application are recorded when they are called; what they call in turn are later events.
\<close>

section \<open>Data\<close>

datatype tsError = Typed RelaylyClientError | Plain string

datatype tsOutcome = ResolvedPeer device_id bytes | ResolvedCode string int string | ResolvedUnit | RejectedWith tsError

datatype tsEvent =
    EvMessage device_id bytes time | EvPaired device_id bytes | EvReady device_id | EvPeerStatus device_id bool
  | EvUnpaired "device_id option" | EvConnected | EvDisconnected string | EvReconnecting nat | EvError string string

fun evName :: "tsEvent \<Rightarrow> string" where
  "evName (EvMessage _ _ _) = ''message''"
| "evName (EvPaired _ _) = ''paired''"
| "evName (EvReady _) = ''ready''"
| "evName (EvPeerStatus _ _) = ''peerStatus''"
| "evName (EvUnpaired _) = ''unpaired''"
| "evName EvConnected = ''connected''"
| "evName (EvDisconnected _) = ''disconnected''"
| "evName (EvReconnecting _) = ''reconnecting''"
| "evName (EvError _ _) = ''error''"

text \<open>A listener of the application, or one of the two that \<^verbatim>\<open>waitForPairing\<close> registers.\<close>

datatype tsFn = App nat | ResolvePeer promise | RejectError promise

text \<open>A control frame; \<open>None\<close> for a property that is absent.\<close>

record WireMessage =
  f_type :: string
  f_version :: "int option"
  f_peers :: "(device_id \<times> string) list option"
  f_code :: "string option"
  f_expires :: "int option"
  f_peer :: "device_id option"
  f_peerKey :: "string option"
  f_online :: "bool option"
  f_message :: "string option"

text \<open>What \<^verbatim>\<open>JSON.parse\<close> makes of a text frame.\<close>

datatype parsed = Malformed | NullValue | Frame WireMessage

text \<open>What is left of \<^verbatim>\<open>resolveHandshake\<close> after the \<^verbatim>\<open>await\<close>: the peer, the session, the authenticated key and the outcome of the pin.\<close>

record resolveJob =
  j_peer :: nat
  j_session :: sid
  j_wasPending :: bool
  j_key :: bytes
  j_pin :: "RelaylyClientError option"

record RelaylyClient =
  tc_serverUrl :: string
  tc_deviceId :: device_id
  tc_priv :: bytes
  tc_transport :: tsTransport
  tc_store :: memoryPins
  tc_peerConns :: "(device_id \<times> nat) list"
  tc_peers :: "PeerConnection list"
  tc_sessions :: tsSessions
  tc_nextSession :: sid
  tc_pairRequest :: "promise option"
  tc_pairAccepts :: "(string \<times> promise) list"
  tc_unpair :: "promise option"
  tc_auth :: "promise option"
  tc_pingTimer :: bool
  tc_promises :: "tsOutcome option list"
  tc_listeners :: "string \<Rightarrow> tsFn listener list"
  tc_nextOnce :: nat
  tc_jobs :: "resolveJob list"
  tc_emitted :: "tsEvent list"
  tc_appCalls :: "(nat \<times> tsEvent) list"

definition PROTOCOL_VERSION :: int where
  "PROTOCOL_VERSION = 1"

text \<open>A string that counts as true.\<close>

definition truthy :: "string option \<Rightarrow> bool" where
  "truthy s \<longleftrightarrow> s \<noteq> None \<and> s \<noteq> Some ''''"

definition orElse :: "'a option \<Rightarrow> 'a \<Rightarrow> 'a" where
  "orElse x d = (case x of None \<Rightarrow> d | Some v \<Rightarrow> v)"

section \<open>Promises and events\<close>

definition newPromise :: "RelaylyClient \<Rightarrow> promise \<times> RelaylyClient" where
  "newPromise c = (length (tc_promises c), c\<lparr>tc_promises := tc_promises c @ [None]\<rparr>)"

text \<open>Only the first settlement counts.\<close>

definition settle :: "promise \<Rightarrow> tsOutcome \<Rightarrow> RelaylyClient \<Rightarrow> RelaylyClient" where
  "settle p r c =
     (if p < length (tc_promises c) \<and> tc_promises c ! p = None then c\<lparr>tc_promises := (tc_promises c)[p := Some r]\<rparr> else c)"

definition settleOpt :: "promise option \<Rightarrow> tsOutcome \<Rightarrow> RelaylyClient \<Rightarrow> RelaylyClient" where
  "settleOpt p r c = (case p of None \<Rightarrow> c | Some q \<Rightarrow> settle q r c)"

definition callListener :: "tsEvent \<Rightarrow> tsFn \<Rightarrow> RelaylyClient \<Rightarrow> RelaylyClient" where
  "callListener ev f c =
     (case f of
        App n \<Rightarrow> c\<lparr>tc_appCalls := tc_appCalls c @ [(n, ev)]\<rparr>
      | ResolvePeer p \<Rightarrow> (case ev of EvPaired i k \<Rightarrow> settle p (ResolvedPeer i k) c | _ \<Rightarrow> c)
      | RejectError p \<Rightarrow> (case ev of EvError code msg \<Rightarrow> settle p (RejectedWith (Plain msg)) c | _ \<Rightarrow> c))"

definition ts_emit :: "tsEvent \<Rightarrow> RelaylyClient \<Rightarrow> RelaylyClient" where
  "ts_emit ev c =
     (let (called, arr) = emitterEmit (tc_listeners c (evName ev))
      in fold (callListener ev) called
           (c\<lparr>tc_emitted := tc_emitted c @ [ev], tc_listeners := (tc_listeners c)(evName ev := arr)\<rparr>))"

definition sendFrame :: "outFrame \<Rightarrow> RelaylyClient \<Rightarrow> RelaylyClient option" where
  "sendFrame f c = map_option (\<lambda>t. c\<lparr>tc_transport := t\<rparr>) (transportSend f (tc_transport c))"

text \<open>A statement that throws ends the handler.\<close>

definition sendThen :: "outFrame \<Rightarrow> (RelaylyClient \<Rightarrow> RelaylyClient) \<Rightarrow> RelaylyClient \<Rightarrow> RelaylyClient" where
  "sendThen f k c = (case sendFrame f c of None \<Rightarrow> c | Some c1 \<Rightarrow> k c1)"

definition updPeer :: "nat \<Rightarrow> PeerConnection \<Rightarrow> RelaylyClient \<Rightarrow> RelaylyClient" where
  "updPeer a p c = c\<lparr>tc_peers := (tc_peers c)[a := p]\<rparr>"

definition addPeer :: "device_id \<Rightarrow> string \<Rightarrow> RelaylyClient \<Rightarrow> RelaylyClient" where
  "addPeer i key c =
     c\<lparr>tc_peerConns := tc_peerConns c @ [(i, length (tc_peers c))], tc_peers := tc_peers c @ [newPeerConnection i key]\<rparr>"

definition tsSolePeer :: "RelaylyClient \<Rightarrow> nat option" where
  "tsSolePeer c = (case tc_peerConns c of [] \<Rightarrow> None | (i, a) # _ \<Rightarrow> Some a)"

section \<open>Addresses\<close>

definition replacePrefix :: "string \<Rightarrow> string \<Rightarrow> string \<Rightarrow> string" where
  "replacePrefix old new s = (if prefix old s then new @ drop (length old) s else s)"

definition normalizeUrl :: "string \<Rightarrow> string" where
  "normalizeUrl url =
     (if prefix ''http://'' url then replacePrefix ''http://'' ''ws://'' url
      else if prefix ''https://'' url then replacePrefix ''https://'' ''wss://'' url
      else url)"

text \<open>
  \<open>U url code\<close> stands for the platform's \<^verbatim>\<open>URL\<close> class: \<open>url\<close> with the path \<^verbatim>\<open>/pair\<close> and the query parameter \<^verbatim>\<open>code\<close>,
  printed; \<open>None\<close> when \<open>url\<close> does not parse.
\<close>

definition buildQrUrl :: "(string \<Rightarrow> string \<Rightarrow> string option) \<Rightarrow> string \<Rightarrow> string \<Rightarrow> string" where
  "buildQrUrl U serverUrl code =
     (case U (replacePrefix ''ws'' ''https'' serverUrl) code of
        Some u \<Rightarrow> replacePrefix ''https'' (if prefix ''wss'' serverUrl then ''wss'' else ''ws'') u
      | None \<Rightarrow> serverUrl @ ''/pair?code='' @ code)"

definition newRelaylyClient ::
  "string \<Rightarrow> device_id \<Rightarrow> bytes \<Rightarrow> memoryPins \<Rightarrow> int option \<Rightarrow> int option \<Rightarrow> RelaylyClient" where
  "newRelaylyClient serverUrl deviceId priv store reconnectDelayMs maxReconnectDelayMs =
     \<lparr>tc_serverUrl = normalizeUrl serverUrl, tc_deviceId = deviceId, tc_priv = priv,
      tc_transport = newTransport (Some (orElse reconnectDelayMs 1000)) (Some (orElse maxReconnectDelayMs 60000)),
      tc_store = store, tc_peerConns = [], tc_peers = [], tc_sessions = (\<lambda>_. None), tc_nextSession = 0,
      tc_pairRequest = None, tc_pairAccepts = [], tc_unpair = None, tc_auth = None, tc_pingTimer = False,
      tc_promises = [], tc_listeners = (\<lambda>_. []), tc_nextOnce = 0, tc_jobs = [], tc_emitted = [], tc_appCalls = []\<rparr>"

section \<open>Calls\<close>

text \<open>An exception in the executor of a promise rejects it.\<close>

definition sendOrReject :: "promise \<Rightarrow> outFrame \<Rightarrow> RelaylyClient \<Rightarrow> RelaylyClient" where
  "sendOrReject p f c =
     (case sendFrame f c of
        None \<Rightarrow> settle p (RejectedWith (Plain ''relayly: WebSocket is not connected'')) c
      | Some c1 \<Rightarrow> c1)"

definition ts_connect :: "RelaylyClient \<Rightarrow> RelaylyClient" where
  "ts_connect c =
     (let (p, c1) = newPromise c in c1\<lparr>tc_auth := Some p, tc_transport := transportConnect (tc_transport c1)\<rparr>)"

definition ts_requestPairCode :: "RelaylyClient \<Rightarrow> RelaylyClient" where
  "ts_requestPairCode c =
     (let (p, c1) = newPromise c in sendOrReject p (TextFrame (emptyMessage ''pair_request'')) (c1\<lparr>tc_pairRequest := Some p\<rparr>))"

definition ts_acceptPair :: "string \<Rightarrow> RelaylyClient \<Rightarrow> RelaylyClient" where
  "ts_acceptPair code c =
     (let (p, c1) = newPromise c
      in sendOrReject p (TextFrame ((emptyMessage ''pair_accept'')\<lparr>m_Code := code\<rparr>))
           (c1\<lparr>tc_pairAccepts := AList.update code p (tc_pairAccepts c1)\<rparr>))"

definition ts_unpair :: "RelaylyClient \<Rightarrow> RelaylyClient" where
  "ts_unpair c =
     (let (p, c1) = newPromise c in sendOrReject p (TextFrame (emptyMessage ''unpair'')) (c1\<lparr>tc_unpair := Some p\<rparr>))"

definition addListener :: "string \<Rightarrow> tsFn listener \<Rightarrow> RelaylyClient \<Rightarrow> RelaylyClient" where
  "addListener ev l c = c\<lparr>tc_listeners := (tc_listeners c)(ev := emitterOn l (tc_listeners c ev))\<rparr>"

definition removeListener :: "string \<Rightarrow> tsFn listener \<Rightarrow> RelaylyClient \<Rightarrow> RelaylyClient" where
  "removeListener ev l c = c\<lparr>tc_listeners := (tc_listeners c)(ev := emitterOff l (tc_listeners c ev))\<rparr>"

definition addOnce :: "string \<Rightarrow> tsFn \<Rightarrow> RelaylyClient \<Rightarrow> RelaylyClient" where
  "addOnce ev f c = addListener ev (Once (tc_nextOnce c) f) (c\<lparr>tc_nextOnce := tc_nextOnce c + 1\<rparr>)"

definition ts_waitForPairing :: "RelaylyClient \<Rightarrow> RelaylyClient" where
  "ts_waitForPairing c =
     (let (p, c1) = newPromise c in addOnce ''error'' (RejectError p) (addOnce ''paired'' (ResolvePeer p) c1))"

text \<open>
  \<^verbatim>\<open>send\<close>: the error it throws, if any. A frame that cannot be sent was encrypted before. The
  advice that ends the text of the first error, after a dash, is left out.
\<close>

definition ts_send :: "prims \<Rightarrow> device_id \<Rightarrow> bytes \<Rightarrow> RelaylyClient \<Rightarrow> tsError option \<times> RelaylyClient" where
  "ts_send P peerId payload c =
     (case map_of (tc_peerConns c) peerId of
        None \<Rightarrow> (Some (Plain (''relayly: no paired peer with ID '' @ [CHR 0x22] @ peerId @ [CHR 0x22])), c)
      | Some a \<Rightarrow>
          (case ts_peerSend P payload (tc_peers c ! a, tc_sessions c) of
             (None, H) \<Rightarrow> (Some (Typed (newNotReadyError peerId)), c\<lparr>tc_sessions := H\<rparr>)
           | (Some ct, H) \<Rightarrow>
               (let c1 = c\<lparr>tc_sessions := H\<rparr>
                in case sendFrame (BinaryFrame (encodeEnvelope envelopeTransport ct)) c1 of
                     None \<Rightarrow> (Some (Plain ''relayly: WebSocket is not connected''), c1)
                   | Some c2 \<Rightarrow> (None, c2))))"

definition ts_getPeers :: "RelaylyClient \<Rightarrow> (device_id \<times> bytes) list" where
  "ts_getPeers c =
     concat (map (\<lambda>(i, a). case peerPublicKey (tc_peers c ! a, tc_sessions c) of None \<Rightarrow> [] | Some k \<Rightarrow> [(i, k)]) (tc_peerConns c))"

definition ts_disconnect :: "RelaylyClient \<Rightarrow> RelaylyClient" where
  "ts_disconnect c = c\<lparr>tc_pingTimer := False, tc_transport := transportClose (tc_transport c)\<rparr>"

section \<open>Control frames\<close>

definition rejectAuth :: "tsError \<Rightarrow> RelaylyClient \<Rightarrow> RelaylyClient" where
  "rejectAuth e c = (settleOpt (tc_auth c) (RejectedWith e) c)\<lparr>tc_auth := None\<rparr>"

definition ts_handleClose :: "string \<Rightarrow> RelaylyClient \<Rightarrow> RelaylyClient" where
  "ts_handleClose reason c =
     ts_emit (EvDisconnected reason)
       (rejectAuth (Plain (''relayly: connection closed before welcome ('' @ reason @ '')'')) (c\<lparr>tc_pingTimer := False\<rparr>))"

fun addNewPeers :: "(device_id \<times> string) list \<Rightarrow> RelaylyClient \<Rightarrow> RelaylyClient" where
  "addNewPeers [] c = c"
| "addNewPeers ((i, key) # ps) c = addNewPeers ps (if map_of (tc_peerConns c) i = None then addPeer i key c else c)"

text \<open>A number as a template literal prints it; \<open>None\<close> is \<^verbatim>\<open>undefined\<close>.\<close>

definition numberText :: "int option \<Rightarrow> string" where
  "numberText v =
     (case v of
        None \<Rightarrow> ''undefined''
      | Some n \<Rightarrow> (if n < 0 then ''-'' @ decimal (nat (- n)) else decimal (nat n)))"

definition unsupportedVersion :: "int option \<Rightarrow> string" where
  "unsupportedVersion v =
     ''relayly: unsupported protocol_version '' @ numberText v @ '' (this SDK implements '' @ numberText (Some PROTOCOL_VERSION) @ '')''"

definition ts_handleWelcome :: "prims \<Rightarrow> WireMessage \<Rightarrow> RelaylyClient \<Rightarrow> RelaylyClient" where
  "ts_handleWelcome P frame c =
     (if f_version frame \<noteq> Some PROTOCOL_VERSION then rejectAuth (Plain (unsupportedVersion (f_version frame))) c
      else sendThen (TextFrame ((emptyMessage ''announce_key'')\<lparr>m_StaticKey := encodeBase64 (getPublicKey P (tc_priv c))\<rparr>))
        (\<lambda>c1. let c2 = ts_emit EvConnected (c1\<lparr>tc_pingTimer := True\<rparr>)
              in (settleOpt (tc_auth c2) ResolvedUnit c2)\<lparr>tc_auth := None\<rparr>)
        (addNewPeers (orElse (f_peers frame) []) c))"

definition ts_handlePairCode :: "(string \<Rightarrow> string \<Rightarrow> string option) \<Rightarrow> WireMessage \<Rightarrow> RelaylyClient \<Rightarrow> RelaylyClient" where
  "ts_handlePairCode U frame c =
     (case tc_pairRequest c of
        None \<Rightarrow> c
      | Some p \<Rightarrow>
          (if \<not> truthy (f_code frame) then c
           else let code = the (f_code frame)
             in settle p (ResolvedCode code (orElse (f_expires frame) 300) (buildQrUrl U (tc_serverUrl c) code))
                  (c\<lparr>tc_pairRequest := None\<rparr>)))"

text \<open>The peer object a \<^verbatim>\<open>pair_complete\<close> frame is about: a new one, or the one on record with the announced key replaced.\<close>

definition linkPeer :: "device_id \<Rightarrow> string \<Rightarrow> RelaylyClient \<Rightarrow> nat \<times> RelaylyClient" where
  "linkPeer i key c =
     (case map_of (tc_peerConns c) i of
        None \<Rightarrow> (length (tc_peers c), addPeer i key c)
      | Some a \<Rightarrow> (a, updPeer a ((tc_peers c ! a)\<lparr>tp_announced := key\<rparr>) c))"

text \<open>Runs an operation of a peer that may make a session, and stores the peer and the sessions.\<close>

definition withPeer ::
  "nat \<Rightarrow> (sid \<Rightarrow> PeerConnection \<times> tsSessions \<Rightarrow> 'r \<times> PeerConnection \<times> tsSessions) \<Rightarrow> RelaylyClient \<Rightarrow> 'r \<times> RelaylyClient" where
  "withPeer a f c =
     (case f (tc_nextSession c) (tc_peers c ! a, tc_sessions c) of
        (r, p, H) \<Rightarrow> (r, (updPeer a p c)\<lparr>tc_sessions := H, tc_nextSession := tc_nextSession c + 1\<rparr>))"

definition sendHandshake :: "bytes \<Rightarrow> (RelaylyClient \<Rightarrow> RelaylyClient) \<Rightarrow> RelaylyClient \<Rightarrow> RelaylyClient" where
  "sendHandshake m k c = sendThen (BinaryFrame (encodeEnvelope envelopeHandshake m)) k c"

definition ts_handlePairComplete :: "prims \<Rightarrow> bytes \<Rightarrow> WireMessage \<Rightarrow> RelaylyClient \<Rightarrow> RelaylyClient" where
  "ts_handlePairComplete P rnd frame c =
     (if \<not> truthy (f_peer frame) then c
      else
        let pendingAccept = (if truthy (f_code frame) then map_of (tc_pairAccepts c) (the (f_code frame)) else None);
            c1 = (if pendingAccept = None then c else c\<lparr>tc_pairAccepts := AList.delete (the (f_code frame)) (tc_pairAccepts c)\<rparr>);
            (a, c2) = linkPeer (the (f_peer frame)) (orElse (f_peerKey frame) '''') c1
        in case pendingAccept of
             None \<Rightarrow> c2
           | Some w \<Rightarrow>
               (case withPeer a (\<lambda>n. peerStartAsInitiator P rnd n (pairOf P (tc_priv c)))
                       (updPeer a (ts_setFirstPairWaiter w (tc_peers c2 ! a)) c2) of
                  (None, c3) \<Rightarrow> c3
                | (Some msg1, c3) \<Rightarrow> sendHandshake msg1 id c3))"

definition ts_handleUnpaired :: "WireMessage \<Rightarrow> RelaylyClient \<Rightarrow> RelaylyClient" where
  "ts_handleUnpaired frame c =
     (let c1 = (if truthy (f_peer frame) then c\<lparr>tc_peerConns := AList.delete (the (f_peer frame)) (tc_peerConns c)\<rparr> else c);
          c2 = (settleOpt (tc_unpair c1) ResolvedUnit c1)\<lparr>tc_unpair := None\<rparr>
      in ts_emit (EvUnpaired (f_peer frame)) c2)"

definition ts_handlePeerStatus :: "prims \<Rightarrow> bytes \<Rightarrow> WireMessage \<Rightarrow> RelaylyClient \<Rightarrow> RelaylyClient" where
  "ts_handlePeerStatus P rnd frame c =
     (let online = (f_online frame = Some True);
          c1 = (if truthy (f_peer frame) then ts_emit (EvPeerStatus (the (f_peer frame)) online) c else c)
      in if \<not> online \<or> \<not> truthy (f_peer frame) then c1
         else case map_of (tc_peerConns c1) (the (f_peer frame)) of
           None \<Rightarrow> c1
         | Some a \<Rightarrow>
             (if the (f_peer frame) \<le> tc_deviceId c1 then c1
              else case withPeer a (\<lambda>n. peerStartRekey P rnd n (pairOf P (tc_priv c1))) c1 of
                     (None, c2) \<Rightarrow> c2
                   | (Some msg1, c2) \<Rightarrow> sendHandshake msg1 id c2))"

definition ts_handleError :: "WireMessage \<Rightarrow> RelaylyClient \<Rightarrow> RelaylyClient" where
  "ts_handleError frame c =
     (let e = errorForCode (orElse (f_code frame) '''') (orElse (f_message frame) (orElse (f_code frame) ''unknown error''));
          c1 = rejectAuth (Typed e) (ts_emit (EvError (errCode (errClass e)) (errMessage e)) c);
          c2 = (settleOpt (tc_pairRequest c1) (RejectedWith (Typed e)) c1)\<lparr>tc_pairRequest := None\<rparr>;
          c3 = (fold (\<lambda>(code, p). settle p (RejectedWith (Typed e))) (tc_pairAccepts c2) c2)\<lparr>tc_pairAccepts := []\<rparr>
      in (settleOpt (tc_unpair c3) (RejectedWith (Typed e)) c3)\<lparr>tc_unpair := None\<rparr>)"

definition ts_handleControl ::
  "prims \<Rightarrow> (string \<Rightarrow> string \<Rightarrow> string option) \<Rightarrow> bytes \<Rightarrow> parsed \<Rightarrow> RelaylyClient \<Rightarrow> RelaylyClient" where
  "ts_handleControl P U rnd raw c =
     (case raw of
        Malformed \<Rightarrow> c
      | NullValue \<Rightarrow> c
      | Frame frame \<Rightarrow>
          (if f_type frame = ''welcome'' then ts_handleWelcome P frame c
           else if f_type frame = ''pair_code'' then ts_handlePairCode U frame c
           else if f_type frame = ''pair_complete'' then ts_handlePairComplete P rnd frame c
           else if f_type frame = ''unpaired'' then ts_handleUnpaired frame c
           else if f_type frame = ''peer_status'' then ts_handlePeerStatus P rnd frame c
           else if f_type frame = ''error'' then ts_handleError frame c
           else c))"

section \<open>Envelopes\<close>

text \<open>\<^verbatim>\<open>resolveHandshake\<close> from the point where its outcome, an error or the key, is known.\<close>

definition resolveFinish :: "nat \<Rightarrow> sid \<Rightarrow> bool \<Rightarrow> tsError + bytes \<Rightarrow> RelaylyClient \<Rightarrow> RelaylyClient" where
  "resolveFinish a k wasPending r c =
     (case r of
        Inl e \<Rightarrow>
          (if wasPending then updPeer a (ts_abandon k (tc_peers c ! a)) c
           else let (waiter, p) = ts_takeFirstPairWaiter (tc_peers c ! a);
                    c1 = settleOpt waiter (RejectedWith e) (updPeer a p c)
             in ts_emit (case e of Typed t \<Rightarrow> EvError (errCode (errClass t)) (errMessage t) | Plain m \<Rightarrow> EvError ''handshake_failed'' m) c1)
      | Inr key \<Rightarrow>
          (let p0 = (if wasPending then ts_promote k (tc_peers c ! a) else tc_peers c ! a);
               (waiter, p) = ts_takeFirstPairWaiter p0;
               c1 = settleOpt waiter (ResolvedPeer (tp_id p) key) (updPeer a p c);
               c2 = ts_emit (EvReady (tp_id p)) c1
           in if wasPending then c2 else ts_emit (EvPaired (tp_id p) key) c2))"

text \<open>Up to the \<^verbatim>\<open>await\<close>: the store of the default kind answers within the call, the rest is a job.\<close>

definition ts_resolveHandshake :: "string \<Rightarrow> nat \<Rightarrow> sid \<Rightarrow> bool \<Rightarrow> RelaylyClient \<Rightarrow> RelaylyClient" where
  "ts_resolveHandshake nowText a k wasPending c =
     (case tc_sessions c k of
        None \<Rightarrow> c
      | Some s \<Rightarrow>
          (if ts_status s \<noteq> Ready then resolveFinish a k wasPending (Inl (Plain (''relayly: handshake with '' @ tp_id (tc_peers c ! a) @ '' failed''))) c
           else case ts_peerStatic s of
             None \<Rightarrow> c
           | Some authenticated \<Rightarrow>
               (case memPinOrVerify nowText (tp_id (tc_peers c ! a)) (encodeBase64 authenticated) (tc_store c) of
                  (r, store) \<Rightarrow>
                    c\<lparr>tc_store := store,
                      tc_jobs := tc_jobs c @ [\<lparr>j_peer = a, j_session = k, j_wasPending = wasPending, j_key = authenticated, j_pin = r\<rparr>]\<rparr>)))"

text \<open>From the \<^verbatim>\<open>await\<close> on: the announced key is compared now.\<close>

definition jobOutcome :: "resolveJob \<Rightarrow> RelaylyClient \<Rightarrow> tsError + bytes" where
  "jobOutcome j c =
     (let p = tc_peers c ! j_peer j
      in case j_pin j of
           Some e \<Rightarrow> Inl (Typed e)
         | None \<Rightarrow>
             (if tp_announced p \<noteq> '''' \<and> tp_announced p \<noteq> encodeBase64 (j_key j)
              then Inl (Typed \<lparr>errClass = KeyMismatchError, errMessage =
                ''server-announced key for peer '' @ tp_id p @ '' does not match the authenticated handshake''\<rparr>)
              else Inr (j_key j)))"

definition ts_resume :: "nat \<Rightarrow> RelaylyClient \<Rightarrow> RelaylyClient" where
  "ts_resume n c =
     (if n < length (tc_jobs c) then
        (let j = tc_jobs c ! n
         in resolveFinish (j_peer j) (j_session j) (j_wasPending j) (jobOutcome j c)
              (c\<lparr>tc_jobs := take n (tc_jobs c) @ drop (Suc n) (tc_jobs c)\<rparr>))
      else c)"

definition ts_handleHandshake :: "prims \<Rightarrow> bytes \<Rightarrow> int \<Rightarrow> string \<Rightarrow> bytes \<Rightarrow> RelaylyClient \<Rightarrow> RelaylyClient" where
  "ts_handleHandshake P rnd now nowText payload c =
     (case tsSolePeer c of
        None \<Rightarrow> c
      | Some a \<Rightarrow>
          (case withPeer a (\<lambda>n. peerHandleEnvelope P rnd now n (pairOf P (tc_priv c)) payload) c of
             (None, c1) \<Rightarrow> c1
           | (Some outcome, c1) \<Rightarrow>
               (let finish = (\<lambda>c2. case oc_completed outcome of
                                     None \<Rightarrow> c2
                                   | Some k \<Rightarrow> ts_resolveHandshake nowText a k (oc_wasPending outcome) c2)
                in case oc_reply outcome of None \<Rightarrow> finish c1 | Some m \<Rightarrow> sendHandshake m finish c1)))"

definition ts_handleTransport :: "prims \<Rightarrow> time \<Rightarrow> bytes \<Rightarrow> RelaylyClient \<Rightarrow> RelaylyClient" where
  "ts_handleTransport P now ciphertext c =
     (case tsSolePeer c of
        None \<Rightarrow> c
      | Some a \<Rightarrow>
          (case ts_peerRecv P ciphertext (tc_peers c ! a, tc_sessions c) of
             (None, H) \<Rightarrow> c\<lparr>tc_sessions := H\<rparr>
           | (Some plaintext, H) \<Rightarrow> ts_emit (EvMessage (tp_id (tc_peers c ! a)) plaintext now) (c\<lparr>tc_sessions := H\<rparr>)))"

definition ts_handleBinary :: "prims \<Rightarrow> bytes \<Rightarrow> int \<Rightarrow> string \<Rightarrow> bytes \<Rightarrow> RelaylyClient \<Rightarrow> RelaylyClient" where
  "ts_handleBinary P rnd now nowText data c =
     (case decodeEnvelope data of
        (kind, payload, ok) \<Rightarrow>
          (if \<not> ok then c
           else if kind = envelopeHandshake then ts_handleHandshake P rnd now nowText payload c
           else if kind = envelopeTransport then ts_handleTransport P now payload c
           else c))"

definition ts_ping :: "RelaylyClient \<Rightarrow> RelaylyClient" where
  "ts_ping c = (if tc_pingTimer c then sendThen (TextFrame (emptyMessage ''ping'')) id c else c)"

section \<open>The system\<close>

text \<open>
  What can happen next: a call of the application, an event of a socket, a timer, or the
  continuation of a job. The platform delivers messages of open sockets only, and the events of
  a socket in the order open, messages, close.
\<close>

datatype tsInput =
    ApiConnect | ApiRequestPairCode | ApiAcceptPair string | ApiUnpair | ApiWaitForPairing | ApiSend device_id bytes | ApiDisconnect
  | ApiOn string nat | ApiOff string nat | ApiOnce string nat
  | SockOpened nat | SockClosed nat string | SockText nat bytes parsed | SockBinary nat bytes int string bytes
  | ReconnectTimer nat | PingTimer | Resume nat

definition sockIs :: "nat \<Rightarrow> sockState \<Rightarrow> RelaylyClient \<Rightarrow> bool" where
  "sockIs w s c \<longleftrightarrow> w < length (tt_socks (tc_transport c)) \<and> tt_socks (tc_transport c) ! w = s"

definition setSock :: "nat \<Rightarrow> sockState \<Rightarrow> RelaylyClient \<Rightarrow> RelaylyClient" where
  "setSock w s c = c\<lparr>tc_transport := (tc_transport c)\<lparr>tt_socks := (tt_socks (tc_transport c))[w := s]\<rparr>\<rparr>"

text \<open>The listener of \<^verbatim>\<open>close\<close>: the client's handler, then the reconnection, which announces itself.\<close>

definition sockClosed :: "string \<Rightarrow> RelaylyClient \<Rightarrow> RelaylyClient" where
  "sockClosed reason c =
     (if tt_closed (tc_transport c) then c
      else let c1 = ts_handleClose reason c
        in case scheduleReconnect (tc_transport c1) of
             (None, t) \<Rightarrow> c1\<lparr>tc_transport := t\<rparr>
           | (Some attempt, t) \<Rightarrow> ts_emit (EvReconnecting attempt) (c1\<lparr>tc_transport := t\<rparr>))"

fun ts_do :: "prims \<Rightarrow> (string \<Rightarrow> string \<Rightarrow> string option) \<Rightarrow> tsInput \<Rightarrow> RelaylyClient \<Rightarrow> RelaylyClient" where
  "ts_do P U ApiConnect c = ts_connect c"
| "ts_do P U ApiRequestPairCode c = ts_requestPairCode c"
| "ts_do P U (ApiAcceptPair code) c = ts_acceptPair code c"
| "ts_do P U ApiUnpair c = ts_unpair c"
| "ts_do P U ApiWaitForPairing c = ts_waitForPairing c"
| "ts_do P U (ApiSend i m) c = snd (ts_send P i m c)"
| "ts_do P U ApiDisconnect c = ts_disconnect c"
| "ts_do P U (ApiOn ev n) c = addListener ev (On (App n)) c"
| "ts_do P U (ApiOff ev n) c = removeListener ev (On (App n)) c"
| "ts_do P U (ApiOnce ev n) c = addOnce ev (App n) c"
| "ts_do P U (SockOpened w) c =
     (if sockIs w CONNECTING c
      then let c1 = setSock w OPEN c in c1\<lparr>tc_transport := transportOpened (tc_transport c1)\<rparr> else c)"
| "ts_do P U (SockClosed w reason) c =
     (if w < length (tt_socks (tc_transport c)) \<and> \<not> sockIs w CLOSED c then sockClosed reason (setSock w CLOSED c) else c)"
| "ts_do P U (SockText w rnd raw) c = (if sockIs w OPEN c then ts_handleControl P U rnd raw c else c)"
| "ts_do P U (SockBinary w rnd now nowText d) c = (if sockIs w OPEN c then ts_handleBinary P rnd now nowText d c else c)"
| "ts_do P U (ReconnectTimer i) c = c\<lparr>tc_transport := transportTimer i (tc_transport c)\<rparr>"
| "ts_do P U PingTimer c = ts_ping c"
| "ts_do P U (Resume n) c = ts_resume n c"

definition ts_runs :: "prims \<Rightarrow> (string \<Rightarrow> string \<Rightarrow> string option) \<Rightarrow> tsInput list \<Rightarrow> RelaylyClient \<Rightarrow> RelaylyClient" where
  "ts_runs P U evs c = fold (ts_do P U) evs c"

definition ts_init :: "RelaylyClient \<Rightarrow> bool" where
  "ts_init c \<longleftrightarrow> (\<exists>url i priv store d m. c = newRelaylyClient url i priv store d m)"

definition ts_step :: "prims \<Rightarrow> (string \<Rightarrow> string \<Rightarrow> string option) \<Rightarrow> RelaylyClient \<Rightarrow> RelaylyClient \<Rightarrow> bool" where
  "ts_step P U c c' \<longleftrightarrow> (\<exists>ev. c' = ts_do P U ev c)"

section \<open>What is announced is pinned\<close>

definition pinnedAs :: "RelaylyClient \<Rightarrow> device_id \<Rightarrow> bytes \<Rightarrow> bool" where
  "pinnedAs c i k \<longleftrightarrow> memPinned i (tc_store c) = Some (encodeBase64 k)"

text \<open>An outcome or an event that names the key of a peer names the one that is pinned.\<close>

fun outcomeOk :: "RelaylyClient \<Rightarrow> tsOutcome \<Rightarrow> bool" where
  "outcomeOk c (ResolvedPeer i k) \<longleftrightarrow> pinnedAs c i k"
| "outcomeOk c _ \<longleftrightarrow> True"

fun eventOk :: "RelaylyClient \<Rightarrow> tsEvent \<Rightarrow> bool" where
  "eventOk c (EvPaired i k) \<longleftrightarrow> pinnedAs c i k"
| "eventOk c (EvReady i) \<longleftrightarrow> memPinned i (tc_store c) \<noteq> None"
| "eventOk c _ \<longleftrightarrow> True"

definition jobOk :: "RelaylyClient \<Rightarrow> resolveJob \<Rightarrow> bool" where
  "jobOk c j \<longleftrightarrow> j_peer j < length (tc_peers c) \<and> (j_pin j = None \<longrightarrow> pinnedAs c (tp_id (tc_peers c ! j_peer j)) (j_key j))"

definition ts_inv :: "RelaylyClient \<Rightarrow> bool" where
  "ts_inv c \<longleftrightarrow>
     (\<forall>(i, a) \<in> set (tc_peerConns c). a < length (tc_peers c) \<and> tp_id (tc_peers c ! a) = i) \<and>
     (\<forall>j \<in> set (tc_jobs c). jobOk c j) \<and>
     (\<forall>ev \<in> set (tc_emitted c). eventOk c ev) \<and>
     (\<forall>r. Some r \<in> set (tc_promises c) \<longrightarrow> outcomeOk c r)"

text \<open>The parts of the state the invariant does not read.\<close>

lemma pinnedAs_frame [simp]:
  "pinnedAs (c\<lparr>tc_transport := t\<rparr>) = pinnedAs c" "pinnedAs (c\<lparr>tc_sessions := H\<rparr>) = pinnedAs c" "pinnedAs (c\<lparr>tc_nextSession := n\<rparr>) = pinnedAs c"
  "pinnedAs (c\<lparr>tc_pairRequest := q\<rparr>) = pinnedAs c" "pinnedAs (c\<lparr>tc_pairAccepts := l\<rparr>) = pinnedAs c" "pinnedAs (c\<lparr>tc_unpair := q\<rparr>) = pinnedAs c"
  "pinnedAs (c\<lparr>tc_auth := q\<rparr>) = pinnedAs c" "pinnedAs (c\<lparr>tc_pingTimer := b\<rparr>) = pinnedAs c" "pinnedAs (c\<lparr>tc_listeners := ls\<rparr>) = pinnedAs c"
  "pinnedAs (c\<lparr>tc_nextOnce := n\<rparr>) = pinnedAs c" "pinnedAs (c\<lparr>tc_appCalls := as\<rparr>) = pinnedAs c" "pinnedAs (c\<lparr>tc_promises := ps\<rparr>) = pinnedAs c"
  "pinnedAs (c\<lparr>tc_emitted := es\<rparr>) = pinnedAs c" "pinnedAs (c\<lparr>tc_peers := os\<rparr>) = pinnedAs c" "pinnedAs (c\<lparr>tc_peerConns := cs\<rparr>) = pinnedAs c"
  "pinnedAs (c\<lparr>tc_jobs := js\<rparr>) = pinnedAs c"
  by (simp_all add: pinnedAs_def fun_eq_iff)

lemma ok_cong:
  assumes "tc_store c' = tc_store c"
  shows "outcomeOk c' = outcomeOk c" "eventOk c' = eventOk c" "pinnedAs c' = pinnedAs c"
proof -
  show p: "pinnedAs c' = pinnedAs c" using assms by (intro ext) (simp add: pinnedAs_def)
  show "outcomeOk c' = outcomeOk c"
  proof
    fix r show "outcomeOk c' r = outcomeOk c r" using p by (cases r) simp_all
  qed
  show "eventOk c' = eventOk c"
  proof
    fix ev show "eventOk c' ev = eventOk c ev" using p assms by (cases ev) simp_all
  qed
qed

lemma ts_inv_same:
  assumes "ts_inv c" and "tc_store c' = tc_store c" and "tc_peers c' = tc_peers c" and "set (tc_peerConns c') \<subseteq> set (tc_peerConns c)"
    and "set (tc_jobs c') \<subseteq> set (tc_jobs c)" and "tc_emitted c' = tc_emitted c" and "tc_promises c' = tc_promises c"
  shows "ts_inv c'"
  using assms ok_cong [OF assms(2)] unfolding ts_inv_def jobOk_def by auto

lemma ts_inv_frame [simp]:
  "ts_inv (c\<lparr>tc_transport := t\<rparr>) = ts_inv c" "ts_inv (c\<lparr>tc_sessions := H\<rparr>) = ts_inv c" "ts_inv (c\<lparr>tc_nextSession := n\<rparr>) = ts_inv c"
  "ts_inv (c\<lparr>tc_pairRequest := q\<rparr>) = ts_inv c" "ts_inv (c\<lparr>tc_pairAccepts := l\<rparr>) = ts_inv c" "ts_inv (c\<lparr>tc_unpair := q\<rparr>) = ts_inv c"
  "ts_inv (c\<lparr>tc_auth := q\<rparr>) = ts_inv c" "ts_inv (c\<lparr>tc_pingTimer := b\<rparr>) = ts_inv c" "ts_inv (c\<lparr>tc_listeners := ls\<rparr>) = ts_inv c"
  "ts_inv (c\<lparr>tc_nextOnce := n\<rparr>) = ts_inv c" "ts_inv (c\<lparr>tc_appCalls := as\<rparr>) = ts_inv c"
  by (rule iffI; erule ts_inv_same; simp)+

lemma ts_inv_newPromise: "ts_inv c \<Longrightarrow> ts_inv (snd (newPromise c))"
  using ok_cong [of "snd (newPromise c)" c] by (auto simp: newPromise_def ts_inv_def jobOk_def)

lemma settle_frame [simp]:
  "tc_store (settle p r c) = tc_store c" "tc_peers (settle p r c) = tc_peers c" "tc_peerConns (settle p r c) = tc_peerConns c"
  "tc_jobs (settle p r c) = tc_jobs c" "tc_emitted (settle p r c) = tc_emitted c" "tc_sessions (settle p r c) = tc_sessions c"
  "tc_transport (settle p r c) = tc_transport c"
  by (simp_all add: settle_def)

lemma ts_inv_settle:
  assumes "ts_inv c" and "outcomeOk c r"
  shows "ts_inv (settle p r c)"
proof -
  have "Some x \<in> set (tc_promises (settle p r c)) \<Longrightarrow> Some x \<in> set (tc_promises c) \<or> x = r" for x
    by (auto simp: settle_def dest: set_update_subset_insert [THEN subsetD] split: if_splits)
  then show ?thesis
    using assms ok_cong [of "settle p r c" c] unfolding ts_inv_def jobOk_def by fastforce
qed

lemma callListener_frame [simp]:
  "tc_store (callListener ev f c) = tc_store c" "tc_peers (callListener ev f c) = tc_peers c" "tc_peerConns (callListener ev f c) = tc_peerConns c"
  "tc_jobs (callListener ev f c) = tc_jobs c" "tc_emitted (callListener ev f c) = tc_emitted c" "tc_sessions (callListener ev f c) = tc_sessions c"
  "tc_transport (callListener ev f c) = tc_transport c"
  by (simp_all add: callListener_def split: tsFn.split tsEvent.split)

lemma fold_callListener_frame [simp]:
  "tc_store (fold (callListener ev) fs c) = tc_store c" "tc_peers (fold (callListener ev) fs c) = tc_peers c"
  "tc_peerConns (fold (callListener ev) fs c) = tc_peerConns c" "tc_jobs (fold (callListener ev) fs c) = tc_jobs c"
  "tc_emitted (fold (callListener ev) fs c) = tc_emitted c" "tc_sessions (fold (callListener ev) fs c) = tc_sessions c"
  "tc_transport (fold (callListener ev) fs c) = tc_transport c"
  by (induction fs arbitrary: c) simp_all

lemma emit_frame [simp]:
  "tc_store (ts_emit ev c) = tc_store c" "tc_peers (ts_emit ev c) = tc_peers c" "tc_peerConns (ts_emit ev c) = tc_peerConns c"
  "tc_jobs (ts_emit ev c) = tc_jobs c" "tc_emitted (ts_emit ev c) = tc_emitted c @ [ev]" "tc_sessions (ts_emit ev c) = tc_sessions c"
  "tc_transport (ts_emit ev c) = tc_transport c"
  by (simp_all add: ts_emit_def case_prod_beta)

lemma ts_inv_callListener: "ts_inv c \<Longrightarrow> eventOk c ev \<Longrightarrow> ts_inv (callListener ev f c)"
  by (auto simp: callListener_def intro!: ts_inv_settle split: tsFn.split tsEvent.split)

lemma ts_inv_emit:
  assumes "ts_inv c" and "eventOk c ev"
  shows "ts_inv (ts_emit ev c)"
proof -
  have "ts_inv (fold (callListener ev) fs d)" if "ts_inv d" "eventOk d ev" for fs d
    using that
  proof (induction fs arbitrary: d)
    case (Cons f fs)
    then show ?case using ts_inv_callListener ok_cong(2) [of "callListener ev f d" d] by simp
  qed simp
  moreover have "ts_inv (c\<lparr>tc_emitted := tc_emitted c @ [ev], tc_listeners := ls\<rparr>)" for ls
    using assms ok_cong [of "c\<lparr>tc_emitted := tc_emitted c @ [ev], tc_listeners := ls\<rparr>" c] by (auto simp: ts_inv_def jobOk_def)
  moreover have "eventOk (c\<lparr>tc_emitted := tc_emitted c @ [ev], tc_listeners := ls\<rparr>) ev" for ls
    using assms(2) ok_cong(2) [of "c\<lparr>tc_emitted := tc_emitted c @ [ev], tc_listeners := ls\<rparr>" c] by simp
  ultimately show ?thesis by (simp add: ts_emit_def case_prod_beta)
qed

lemma ts_inv_settleOpt: "ts_inv c \<Longrightarrow> outcomeOk c r \<Longrightarrow> ts_inv (settleOpt p r c)"
  by (simp add: settleOpt_def ts_inv_settle split: option.split)

lemma settleOpt_frame [simp]:
  "tc_store (settleOpt p r c) = tc_store c" "tc_peers (settleOpt p r c) = tc_peers c" "tc_peerConns (settleOpt p r c) = tc_peerConns c"
  "tc_jobs (settleOpt p r c) = tc_jobs c" "tc_sessions (settleOpt p r c) = tc_sessions c" "tc_transport (settleOpt p r c) = tc_transport c"
  "tc_emitted (settleOpt p r c) = tc_emitted c"
  by (simp_all add: settleOpt_def split: option.split)

lemma ts_inv_sendThen: "ts_inv c \<Longrightarrow> (\<And>d. ts_inv d \<Longrightarrow> ts_inv (k d)) \<Longrightarrow> ts_inv (sendThen f k c)"
  by (auto simp: sendThen_def sendFrame_def split: option.split)

lemma ts_inv_sendHandshake: "ts_inv c \<Longrightarrow> (\<And>d. ts_inv d \<Longrightarrow> ts_inv (k d)) \<Longrightarrow> ts_inv (sendHandshake m k c)"
  by (simp add: sendHandshake_def ts_inv_sendThen)

lemma ts_inv_sendOrReject: "ts_inv c \<Longrightarrow> ts_inv (sendOrReject p f c)"
  by (auto simp: sendOrReject_def sendFrame_def intro!: ts_inv_settle split: option.split)

lemma updPeer_id:
  "tp_id p = tp_id (tc_peers c ! a) \<Longrightarrow> tp_id (tc_peers (updPeer a p c) ! b) = tp_id (tc_peers c ! b)"
  by (cases "a < length (tc_peers c)") (auto simp: updPeer_def nth_list_update list_update_beyond)

lemma ts_inv_updPeer:
  assumes "ts_inv c" and "tp_id p = tp_id (tc_peers c ! a)"
  shows "ts_inv (updPeer a p c)"
proof -
  have "tc_store (updPeer a p c) = tc_store c" "length (tc_peers (updPeer a p c)) = length (tc_peers c)"
    "tc_peerConns (updPeer a p c) = tc_peerConns c" "tc_jobs (updPeer a p c) = tc_jobs c"
    "tc_emitted (updPeer a p c) = tc_emitted c" "tc_promises (updPeer a p c) = tc_promises c"
    by (simp_all add: updPeer_def)
  then show ?thesis
    using assms(1) ok_cong [of "updPeer a p c" c] updPeer_id [OF assms(2)] by (simp add: ts_inv_def jobOk_def)
qed

lemma ts_inv_addPeer: "ts_inv c \<Longrightarrow> ts_inv (addPeer i key c)"
  using ok_cong [of "addPeer i key c" c]
  by (auto simp: ts_inv_def jobOk_def addPeer_def newPeerConnection_def nth_append)

lemma ts_inv_linkPeer: "ts_inv c \<Longrightarrow> ts_inv (snd (linkPeer i key c))"
  by (simp add: linkPeer_def ts_inv_addPeer ts_inv_updPeer split: option.split)

text \<open>No operation of a peer changes its name.\<close>

lemma peer_ops_id:
  "tp_id (fst (snd (peerStartAsInitiator P rnd n kp (p, H)))) = tp_id p" "tp_id (fst (snd (peerStartRekey P rnd n kp (p, H)))) = tp_id p"
  "tp_id (fst (snd (peerHandleEnvelope P rnd now n kp d (p, H)))) = tp_id p" "tp_id (ts_promote k p) = tp_id p" "tp_id (ts_abandon k p) = tp_id p"
  by (auto simp: peerStartAsInitiator_def peerStartRekey_def peerHandleEnvelope_def ts_chooseSession_def ts_promote_def ts_abandon_def
      split: option.splits prod.splits)

lemma ts_inv_withPeer:
  assumes "ts_inv c" and "\<And>n p H. tp_id (fst (snd (f n (p, H)))) = tp_id p"
  shows "ts_inv (snd (withPeer a f c))"
proof -
  obtain r p H where f: "f (tc_nextSession c) (tc_peers c ! a, tc_sessions c) = (r, p, H)" by (metis prod_cases3)
  then have "tp_id p = tp_id (tc_peers c ! a)" using assms(2) [of "tc_nextSession c" "tc_peers c ! a" "tc_sessions c"] by simp
  with f show ?thesis using ts_inv_updPeer [OF assms(1)] by (simp add: withPeer_def)
qed

lemma ts_inv_rejectAuth: "ts_inv c \<Longrightarrow> ts_inv (rejectAuth e c)"
  by (simp add: rejectAuth_def ts_inv_settleOpt)

lemma ts_inv_addNewPeers: "ts_inv c \<Longrightarrow> ts_inv (addNewPeers ps c)"
  by (induction ps c rule: addNewPeers.induct) (simp_all add: ts_inv_addPeer)

lemma ts_inv_handleWelcome: "ts_inv c \<Longrightarrow> ts_inv (ts_handleWelcome P frame c)"
  by (auto simp: ts_handleWelcome_def Let_def intro!: ts_inv_rejectAuth ts_inv_sendThen ts_inv_settleOpt ts_inv_emit ts_inv_addNewPeers)

lemma ts_inv_handlePairCode: "ts_inv c \<Longrightarrow> ts_inv (ts_handlePairCode U frame c)"
  by (auto simp: ts_handlePairCode_def Let_def intro!: ts_inv_settle split: option.split)

lemma ts_inv_start:
  assumes "ts_inv c"
  shows "ts_inv (case withPeer a (\<lambda>n. peerStartAsInitiator P rnd n kp) c of (None, d) \<Rightarrow> d | (Some m, d) \<Rightarrow> sendHandshake m id d)"
    and "ts_inv (case withPeer a (\<lambda>n. peerStartRekey P rnd n kp) c of (None, d) \<Rightarrow> d | (Some m, d) \<Rightarrow> sendHandshake m id d)"
proof -
  have "ts_inv (snd (withPeer a (\<lambda>n. peerStartAsInitiator P rnd n kp) c))" "ts_inv (snd (withPeer a (\<lambda>n. peerStartRekey P rnd n kp) c))"
    by (rule ts_inv_withPeer [OF assms], simp add: peer_ops_id)+
  then show "ts_inv (case withPeer a (\<lambda>n. peerStartAsInitiator P rnd n kp) c of (None, d) \<Rightarrow> d | (Some m, d) \<Rightarrow> sendHandshake m id d)"
    "ts_inv (case withPeer a (\<lambda>n. peerStartRekey P rnd n kp) c of (None, d) \<Rightarrow> d | (Some m, d) \<Rightarrow> sendHandshake m id d)"
    by (auto intro!: ts_inv_sendHandshake split: prod.splits option.splits)
qed

lemma ts_inv_handlePairComplete:
  assumes "ts_inv c"
  shows "ts_inv (ts_handlePairComplete P rnd frame c)"
proof (cases "truthy (f_peer frame)")
  case True
  define w where "w = (if truthy (f_code frame) then map_of (tc_pairAccepts c) (the (f_code frame)) else None)"
  define c1 where "c1 = (if w = None then c else c\<lparr>tc_pairAccepts := AList.delete (the (f_code frame)) (tc_pairAccepts c)\<rparr>)"
  obtain a c2 where l: "linkPeer (the (f_peer frame)) (orElse (f_peerKey frame) '''') c1 = (a, c2)" by fastforce
  have "ts_inv c1" using assms by (simp add: c1_def)
  then have c2: "ts_inv c2" using ts_inv_linkPeer [of c1] l by (metis snd_conv)
  have "ts_inv (updPeer a (ts_setFirstPairWaiter v (tc_peers c2 ! a)) c2)" for v
    by (rule ts_inv_updPeer [OF c2]) (simp add: ts_setFirstPairWaiter_def)
  then show ?thesis
    using True l c2 ts_inv_start(1)
    unfolding ts_handlePairComplete_def w_def [symmetric] c1_def [symmetric] Let_def
    by (simp add: c1_def [symmetric] split: option.split)
qed (simp add: assms ts_handlePairComplete_def)

lemma ts_inv_handleUnpaired:
  assumes "ts_inv c"
  shows "ts_inv (ts_handleUnpaired frame c)"
proof -
  have "ts_inv (c\<lparr>tc_peerConns := AList.delete i (tc_peerConns c)\<rparr>)" for i
    using assms by (rule ts_inv_same) (auto simp: AList.delete_eq)
  then show ?thesis using assms
    by (auto simp: ts_handleUnpaired_def Let_def intro!: ts_inv_emit ts_inv_settleOpt)
qed

lemma ts_inv_handlePeerStatus:
  assumes "ts_inv c"
  shows "ts_inv (ts_handlePeerStatus P rnd frame c)"
proof -
  let ?c1 = "if truthy (f_peer frame) then ts_emit (EvPeerStatus (the (f_peer frame)) (f_online frame = Some True)) c else c"
  have "ts_inv ?c1" using assms by (simp add: ts_inv_emit)
  then show ?thesis
    using ts_inv_start(2) unfolding ts_handlePeerStatus_def Let_def by (auto split: option.split)
qed

lemma ts_inv_rejectAll: "ts_inv d \<Longrightarrow> ts_inv (fold (\<lambda>(code, p). settle p (RejectedWith e)) l d)"
  by (induction l arbitrary: d) (auto simp: ts_inv_settle)

lemma ts_inv_handleError: "ts_inv c \<Longrightarrow> ts_inv (ts_handleError frame c)"
  by (auto simp: ts_handleError_def Let_def intro!: ts_inv_settleOpt ts_inv_rejectAll ts_inv_rejectAuth ts_inv_emit)

lemma updPeer_frame [simp]:
  "tc_store (updPeer a p c) = tc_store c" "tc_peerConns (updPeer a p c) = tc_peerConns c" "tc_jobs (updPeer a p c) = tc_jobs c"
  "tc_emitted (updPeer a p c) = tc_emitted c" "tc_sessions (updPeer a p c) = tc_sessions c" "tc_transport (updPeer a p c) = tc_transport c"
  "pinnedAs (updPeer a p c) = pinnedAs c"
  by (simp_all add: updPeer_def)

lemma ts_inv_resolveFinish:
  assumes "ts_inv c" and "\<And>key. r = Inr key \<Longrightarrow> pinnedAs c (tp_id (tc_peers c ! a)) key"
  shows "ts_inv (resolveFinish a k w r c)"
proof (cases r)
  case (Inl e)
  have "ts_inv (updPeer a (ts_abandon k (tc_peers c ! a)) c)"
    "ts_inv (updPeer a (snd (ts_takeFirstPairWaiter (tc_peers c ! a))) c)"
    by (rule ts_inv_updPeer [OF assms(1)], simp add: peer_ops_id ts_takeFirstPairWaiter_def)+
  then show ?thesis
    using Inl by (auto simp: resolveFinish_def ts_takeFirstPairWaiter_def intro!: ts_inv_emit ts_inv_settleOpt split: tsError.split)
next
  case (Inr key)
  define p where "p = snd (ts_takeFirstPairWaiter (if w then ts_promote k (tc_peers c ! a) else tc_peers c ! a))"
  have id: "tp_id p = tp_id (tc_peers c ! a)" by (simp add: p_def ts_takeFirstPairWaiter_def peer_ops_id)
  have pin: "pinnedAs c (tp_id p) key" using assms(2) Inr id by simp
  define c1 where "c1 = settleOpt (fst (ts_takeFirstPairWaiter (if w then ts_promote k (tc_peers c ! a) else tc_peers c ! a)))
    (ResolvedPeer (tp_id p) key) (updPeer a p c)"
  have st: "tc_store c1 = tc_store c" by (simp add: c1_def)
  have "ts_inv c1"
    using ts_inv_updPeer [OF assms(1) id] pin by (simp add: c1_def ts_inv_settleOpt)
  moreover have "eventOk c1 (EvReady (tp_id p))" "pinnedAs (ts_emit (EvReady (tp_id p)) c1) (tp_id p) key"
    using pin st by (auto simp: pinnedAs_def)
  moreover have "resolveFinish a k w r c =
    (if w then ts_emit (EvReady (tp_id p)) c1 else ts_emit (EvPaired (tp_id p) key) (ts_emit (EvReady (tp_id p)) c1))"
    by (simp add: resolveFinish_def Inr p_def c1_def Let_def case_prod_beta)
  ultimately show ?thesis by (simp add: ts_inv_emit)
qed

lemma ts_inv_resolveHandshake:
  assumes "ts_inv c" and "a < length (tc_peers c)"
  shows "ts_inv (ts_resolveHandshake nowText a k w c)"
proof (cases "\<exists>s key. tc_sessions c k = Some s \<and> ts_status s = Ready \<and> ts_peerStatic s = Some key")
  case True
  then obtain s key where s: "tc_sessions c k = Some s" "ts_status s = Ready" "ts_peerStatic s = Some key" by blast
  let ?i = "tp_id (tc_peers c ! a)"
  obtain r store where pin: "memPinOrVerify nowText ?i (encodeBase64 key) (tc_store c) = (r, store)" by fastforce
  let ?j = "\<lparr>j_peer = a, j_session = k, j_wasPending = w, j_key = key, j_pin = r\<rparr>"
  let ?c = "c\<lparr>tc_store := store, tc_jobs := tc_jobs c @ [?j]\<rparr>"
  have keep: "memPinned i (tc_store c) = Some v \<Longrightarrow> memPinned i store = Some v" for i v
    using ts_pin_lock.lock_keeps [where s = "tc_store c" and nowText = nowText and k' = ?i and v' = "encodeBase64 key"] pin by simp
  have new: "r = None \<Longrightarrow> pinnedAs ?c ?i key"
    using ts_pin_lock.lock_accept [where v = "encodeBase64 key" and nowText = nowText and k = ?i and s = "tc_store c"] pin by (simp add: pinnedAs_def)
  have pk: "pinnedAs c i v \<Longrightarrow> pinnedAs ?c i v" for i v using keep by (simp add: pinnedAs_def)
  have ek: "eventOk c ev \<Longrightarrow> eventOk ?c ev" for ev
    using keep pk by (cases ev) (auto simp: pinnedAs_def)
  have ok: "outcomeOk c o' \<Longrightarrow> outcomeOk ?c o'" for o' using pk by (cases o') auto
  have jk: "jobOk c j \<Longrightarrow> jobOk ?c j" for j using pk by (auto simp: jobOk_def)
  have "jobOk ?c ?j" using assms(2) new by (simp add: jobOk_def)
  then have "ts_inv ?c" using assms(1) ek ok jk unfolding ts_inv_def by fastforce
  with s pin show ?thesis by (simp add: ts_resolveHandshake_def)
next
  case False
  then show ?thesis
    using assms(1) by (auto simp: ts_resolveHandshake_def intro!: ts_inv_resolveFinish split: option.split)
qed

lemma ts_inv_resume:
  assumes "ts_inv c"
  shows "ts_inv (ts_resume n c)"
proof (cases "n < length (tc_jobs c)")
  case True
  let ?c = "c\<lparr>tc_jobs := take n (tc_jobs c) @ drop (Suc n) (tc_jobs c)\<rparr>"
  have "ts_inv ?c"
    using assms by (rule ts_inv_same) (auto dest: in_set_takeD in_set_dropD)
  moreover have "jobOk c (tc_jobs c ! n)" using assms True by (simp add: ts_inv_def)
  then have "jobOutcome (tc_jobs c ! n) c = Inr key \<Longrightarrow> pinnedAs ?c (tp_id (tc_peers ?c ! j_peer (tc_jobs c ! n))) key" for key
    by (auto simp: jobOutcome_def jobOk_def Let_def split: option.splits if_splits)
  ultimately show ?thesis
    using True ts_inv_resolveFinish by (simp add: ts_resume_def Let_def)
qed (simp add: assms ts_resume_def)

lemma ts_inv_sole: "ts_inv c \<Longrightarrow> tsSolePeer c = Some a \<Longrightarrow> a < length (tc_peers c)"
  by (auto simp: tsSolePeer_def ts_inv_def split: list.splits)

lemma ts_inv_handleHandshake:
  assumes "ts_inv c"
  shows "ts_inv (ts_handleHandshake P rnd now nowText d c)"
proof (cases "tsSolePeer c")
  case (Some a)
  let ?f = "\<lambda>n. peerHandleEnvelope P rnd now n (pairOf P (tc_priv c)) d"
  obtain r c1 where w: "withPeer a ?f c = (r, c1)" by fastforce
  have c1: "ts_inv c1" using ts_inv_withPeer [OF assms, of ?f a] w by (simp add: peer_ops_id)
  have len: "length (tc_peers c1) = length (tc_peers c)" using w by (auto simp: withPeer_def updPeer_def case_prod_beta)
  have fin: "ts_inv (case oc_completed oc of None \<Rightarrow> e | Some k \<Rightarrow> ts_resolveHandshake nowText a k (oc_wasPending oc) e)"
    if "ts_inv e" "length (tc_peers e) = length (tc_peers c)" for e oc
    using that ts_inv_resolveHandshake ts_inv_sole [OF assms Some] by (simp split: option.split)
  show ?thesis
  proof (cases r)
    case None
    then show ?thesis using Some w c1 by (simp add: ts_handleHandshake_def)
  next
    case (Some oc)
    show ?thesis
    proof (cases "oc_reply oc")
      case None
      then show ?thesis using \<open>tsSolePeer c = Some a\<close> Some w fin [OF c1 len] by (simp add: ts_handleHandshake_def Let_def)
    next
      case (Some m)
      have "ts_inv (case oc_completed oc of None \<Rightarrow> e | Some k \<Rightarrow> ts_resolveHandshake nowText a k (oc_wasPending oc) e)"
        if "sendFrame f c1 = Some e" for e f
        using that c1 len by (intro fin) (auto simp: sendFrame_def)
      then show ?thesis using \<open>tsSolePeer c = Some a\<close> \<open>r = Some oc\<close> Some w c1
        by (simp add: ts_handleHandshake_def sendHandshake_def sendThen_def Let_def split: option.split)
    qed
  qed
qed (simp add: assms ts_handleHandshake_def)

lemma ts_inv_handleBinary: "ts_inv c \<Longrightarrow> ts_inv (ts_handleBinary P rnd now nowText d c)"
  by (auto simp: ts_handleBinary_def ts_handleTransport_def ts_inv_handleHandshake intro!: ts_inv_emit
      split: prod.split option.split)

lemma ts_inv_handleControl: "ts_inv c \<Longrightarrow> ts_inv (ts_handleControl P U rnd raw c)"
  by (simp add: ts_handleControl_def ts_inv_handleWelcome ts_inv_handlePairCode ts_inv_handlePairComplete ts_inv_handleUnpaired
      ts_inv_handlePeerStatus ts_inv_handleError split: parsed.split)

lemma ts_inv_do: "ts_inv c \<Longrightarrow> ts_inv (ts_do P U ev c)"
proof (cases ev)
  case (ApiSend i m)
  then show "ts_inv c \<Longrightarrow> ?thesis" by (auto simp: ts_send_def sendFrame_def Let_def split: option.split prod.split)
next
  case (SockClosed w reason)
  have "ts_inv d \<Longrightarrow> ts_inv (sockClosed reason d)" for d
    by (auto simp: sockClosed_def ts_handleClose_def Let_def intro!: ts_inv_emit ts_inv_rejectAuth split: prod.split option.split)
  then show "ts_inv c \<Longrightarrow> ?thesis" using SockClosed by (simp add: setSock_def)
qed (use ts_inv_newPromise [of c] in \<open>auto simp: ts_connect_def ts_requestPairCode_def ts_acceptPair_def ts_unpair_def ts_waitForPairing_def
      ts_disconnect_def addListener_def removeListener_def addOnce_def setSock_def ts_ping_def Let_def case_prod_beta
      ts_inv_handleControl ts_inv_handleBinary ts_inv_resume intro!: ts_inv_sendOrReject ts_inv_sendThen\<close>)

interpretation ts_sys: inductive_invariant ts_init "ts_step P U" ts_inv
  for P :: prims and U :: "string \<Rightarrow> string \<Rightarrow> string option"
proof unfold_locales
  show "ts_init c \<Longrightarrow> ts_inv c" for c by (auto simp: ts_init_def ts_inv_def newRelaylyClient_def)
  show "ts_inv c \<Longrightarrow> ts_step P U c c' \<Longrightarrow> ts_inv c'" for c c' by (auto simp: ts_step_def ts_inv_do)
qed

end
