(* ===== verification/Ts_Pairing.thy ===== *)
theory Ts_Pairing
  imports Ts_Client
begin

text \<open>
  Properties of the TypeScript client: what it announces is pinned, a pairing of two clients
  completes and carries messages, and the places where the client falls short of the Go client:
  a rejected key stays in use, a call that is outstanding at \<^verbatim>\<open>disconnect\<close> never ends, a failed first
  handshake blocks the peer, and the address for the QR code is wrong for encrypted servers.
\<close>

section \<open>Two sessions\<close>

lemma crypt_lockstep:
  assumes "prims_contract P" and "keyedCipher c" and "ts_status t = Ready" and "ts_status u = Ready"
    and "sendCipher t = Some c" and "recvCipher u = Some c"
  shows "\<exists>ct s'. ts_encrypt P m t = (Some ct, s') \<and> fst (ts_decrypt P ct u) = Some m"
  by (rule cipher_lockstep [OF assms(1,2), of "[]" m]) (use assms(3-6) in \<open>simp add: ts_encrypt_def ts_decrypt_def\<close>)

lemma ts_session_run:
  assumes "prims_contract P" and "length p = 32" and "length q = 32" and "length r = 32" and "length r' = 32"
  obtains t0 m1 m2 m3 t1 b1 b2 where "ts_startAsInitiator P (pairOf P p) r = Some (t0, m1)" "ts_status t0 = Handshaking"
    "ts_handle P m1 (ts_startAsResponder P (pairOf P q) r') = (Some (Some m2), b1)" "ts_status b1 = Handshaking"
    "ts_handle P m2 t0 = (Some (Some m3), t1)" "ts_handle P m3 b1 = (Some None, b2)"
    "ts_status t1 = Ready" "ts_status b2 = Ready" "ts_peerStatic t1 = Some (getPublicKey P q)" "ts_peerStatic b2 = Some (getPublicKey P p)"
    "\<forall>m. \<exists>ct s'. ts_encrypt P m t1 = (Some ct, s') \<and> fst (ts_decrypt P ct b2) = Some m"
    "\<forall>m. \<exists>ct s'. ts_encrypt P m b2 = (Some ct, s') \<and> fst (ts_decrypt P ct t1) = Some m"
proof -
  obtain a0 b0 b1 a1 b2 m1 m2 m3 c1 c2 d1 d2 where run: "newInitiatorSession (tsLib P) r p = Inr (a0, m1)"
    "newResponderSession (tsLib P) r' q = Inr b0" "handleHandshakeMessage (tsLib P) m1 b0 = ((Some m2, False, None), b1)"
    "handleHandshakeMessage (tsLib P) m2 a0 = ((Some m3, True, None), a1)"
    "handleHandshakeMessage (tsLib P) m3 b1 = ((None, True, None), b2)"
    and fin: "ready a1" "ready b2" "peerStatic a1 = getPublicKey P q" "peerStatic b2 = getPublicKey P p"
    "cipherStates a1 = Some (c1, c2)" "cipherStates b2 = Some (d2, d1)" "tsPaired 1 c1 d1" "tsPaired 1 d2 c2"
    by (rule handshake_run [OF tsLib_contract [OF assms(1), of 1] assms(2-5)])
  obtain t0 where t0: "ts_startAsInitiator P (pairOf P p) r = Some (t0, m1)" "agrees t0 a0"
    using start_sim [of P r p] run(1) by auto
  have u0: "agrees (ts_startAsResponder P (pairOf P q) r') b0" using agrees_responder [of P r' q] run(2) by auto
  have s0: "ts_status t0 = Handshaking" "ts_status (ts_startAsResponder P (pairOf P q) r') = Handshaking"
    using t0(1) by (auto simp: ts_startAsInitiator_def ts_startAsResponder_def newNoiseSession_def Let_def)
  obtain r1 u1 where h1: "ts_handle P m1 (ts_startAsResponder P (pairOf P q) r') = (r1, u1)" by fastforce
  obtain r2 t1 where h2: "ts_handle P m2 t0 = (r2, t1)" by fastforce
  obtain r3 u2 where h3: "ts_handle P m3 u1 = (r3, u2)" by fastforce
  note k1 = agrees_handle [OF u0 run(3) h1] and k2 = agrees_handle [OF t0(2) run(4) h2]
  have s1: "r1 = Some (Some m2)" "ts_status u1 = Handshaking" "agrees u1 b1" using k1 s0 by simp_all
  note k3 = agrees_handle [OF s1(3) run(5) h3]
  have a: "agrees t1 a1" "agrees u2 b2" using k2 k3 by simp_all
  have rd: "ts_status t1 = Ready" "ts_status u2 = Ready" using a fin(1,2) agrees_ready by blast+
  have st: "ts_peerStatic t1 = Some (getPublicKey P q)" "ts_peerStatic u2 = Some (getPublicKey P p)"
    using a rd fin(3,4) by (simp_all add: agrees_def)
  have ci: "sendCipher t1 = Some c1" "recvCipher t1 = Some c2" "sendCipher u2 = Some d2" "recvCipher u2 = Some d1"
    using a rd fin(5,6) by (auto simp: agrees_def)
  have eq: "d1 = c1" "c2 = d2" "keyedCipher c1" "keyedCipher d2" using fin(7,8) by (auto simp: tsPaired_def)
  have "\<exists>ct s'. ts_encrypt P m t1 = (Some ct, s') \<and> fst (ts_decrypt P ct u2) = Some m" for m
    using crypt_lockstep [OF assms(1) eq(3) rd] ci eq(1) by simp
  moreover have "\<exists>ct s'. ts_encrypt P m u2 = (Some ct, s') \<and> fst (ts_decrypt P ct t1) = Some m" for m
    using crypt_lockstep [OF assms(1) eq(4) rd(2,1)] ci eq(2) by simp
  ultimately show thesis
    using that [OF t0(1) s0(1) _ s1(2) _ _ rd st] h1 h2 h3 k2 k3 s0 s1 by simp
qed

section \<open>Steps of a client\<close>

definition onlineAt :: "nat \<Rightarrow> RelaylyClient \<Rightarrow> bool" where
  "onlineAt w c \<longleftrightarrow> tt_ws (tc_transport c) = Some w \<and> w < length (tt_socks (tc_transport c)) \<and> tt_socks (tc_transport c) ! w = OPEN"

definition sent :: "RelaylyClient \<Rightarrow> outFrame list" where
  "sent c = map snd (tt_sent (tc_transport c))"

definition sendOn :: "nat \<Rightarrow> outFrame \<Rightarrow> RelaylyClient \<Rightarrow> RelaylyClient" where
  "sendOn w f c = c\<lparr>tc_transport := (tc_transport c)\<lparr>tt_sent := tt_sent (tc_transport c) @ [(w, f)]\<rparr>\<rparr>"

lemma sendFrame_online: "onlineAt w c \<Longrightarrow> sendFrame f c = Some (sendOn w f c)"
  by (simp add: sendFrame_def transportSend_def isConnected_def onlineAt_def sendOn_def)

lemma sendOn_fields [simp]:
  "sent (sendOn w f c) = sent c @ [f]" "tc_peers (sendOn w f c) = tc_peers c" "tc_peerConns (sendOn w f c) = tc_peerConns c"
  "tc_sessions (sendOn w f c) = tc_sessions c" "tc_store (sendOn w f c) = tc_store c" "tc_jobs (sendOn w f c) = tc_jobs c"
  "tc_promises (sendOn w f c) = tc_promises c" "tc_emitted (sendOn w f c) = tc_emitted c" "onlineAt v (sendOn w f c) = onlineAt v c"
  "tc_priv (sendOn w f c) = tc_priv c" "tc_nextSession (sendOn w f c) = tc_nextSession c"
  by (simp_all add: sendOn_def sent_def onlineAt_def)

lemma handshake_frame:
  "sockIs w OPEN c \<Longrightarrow> ts_do P U (SockBinary w rnd now t (encodeEnvelope envelopeHandshake d)) c = ts_handleHandshake P rnd now t d c"
  by (simp add: ts_handleBinary_def envelope_roundtrip)

lemma onlineAt_sock: "onlineAt w c \<Longrightarrow> sockIs w OPEN c"
  by (simp add: onlineAt_def sockIs_def)

text \<open>The state of a client that has one peer and its session.\<close>

definition peerState :: "RelaylyClient \<Rightarrow> device_id \<Rightarrow> PeerConnection \<Rightarrow> bool" where
  "peerState c i p \<longleftrightarrow> (\<exists>a. tc_peerConns c = [(i, a)] \<and> a < length (tc_peers c) \<and> tc_peers c ! a = p \<and> tp_id p = i)"

definition onlyCore :: "RelaylyClient \<Rightarrow> RelaylyClient \<Rightarrow> bool" where
  "onlyCore c c' \<longleftrightarrow> tc_store c' = tc_store c \<and> tc_jobs c' = tc_jobs c \<and> tc_promises c' = tc_promises c \<and> tc_emitted c' = tc_emitted c \<and>
     tc_priv c' = tc_priv c"

text \<open>The requesting side: the first message of the other device.\<close>

lemma step_first_message:
  assumes "onlineAt w c" and "peerState c i p" and "tp_active p = None" and "tp_pending p = None"
    and "ts_handle P m1 (ts_startAsResponder P (pairOf P (tc_priv c)) rnd) = (Some (Some m2), b1)" and "ts_status b1 = Handshaking"
    and "c' = ts_do P U (SockBinary w rnd now t (encodeEnvelope envelopeHandshake m1)) c"
  shows "onlineAt w c' \<and> sent c' = sent c @ [BinaryFrame (encodeEnvelope envelopeHandshake m2)] \<and>
    peerState c' i (p\<lparr>tp_active := Some (tc_nextSession c)\<rparr>) \<and> tc_sessions c' (tc_nextSession c) = Some b1 \<and> onlyCore c c'"
proof -
  obtain a where a: "tc_peerConns c = [(i, a)]" "a < length (tc_peers c)" "tc_peers c ! a = p" "tp_id p = i"
    using assms(2) by (auto simp: peerState_def)
  let ?n = "tc_nextSession c"
  let ?c1 = "(updPeer a (p\<lparr>tp_active := Some ?n\<rparr>) c)\<lparr>tc_sessions := (tc_sessions c)(?n \<mapsto> b1), tc_nextSession := ?n + 1\<rparr>"
  have "peerHandleEnvelope P rnd now ?n (pairOf P (tc_priv c)) m1 (p, tc_sessions c) =
    (Some \<lparr>oc_reply = Some m2, oc_completed = None, oc_wasPending = False\<rparr>, p\<lparr>tp_active := Some ?n\<rparr>, (tc_sessions c)(?n \<mapsto> b1))"
    using assms(3-6) by (simp add: peerHandleEnvelope_def ts_chooseSession_def)
  then have w: "withPeer a (\<lambda>n. peerHandleEnvelope P rnd now n (pairOf P (tc_priv c)) m1) c =
    (Some \<lparr>oc_reply = Some m2, oc_completed = None, oc_wasPending = False\<rparr>, ?c1)"
    using a(3) by (simp add: withPeer_def)
  have on: "onlineAt w ?c1" using assms(1) by (simp add: onlineAt_def)
  have "c' = sendOn w (BinaryFrame (encodeEnvelope envelopeHandshake m2)) ?c1"
    using assms(7) handshake_frame [OF onlineAt_sock [OF assms(1)]] w a(1) sendFrame_online [OF on]
    by (simp add: ts_handleHandshake_def tsSolePeer_def sendHandshake_def sendThen_def Let_def)
  then show ?thesis
    using on a by (simp add: peerState_def onlyCore_def updPeer_def sent_def sendOn_def onlineAt_def)
qed

text \<open>The last message of a first handshake for a client: the session is ready, the key is compared with the pin.\<close>

definition pinAllows :: "RelaylyClient \<Rightarrow> device_id \<Rightarrow> bytes \<Rightarrow> bool" where
  "pinAllows c i key \<longleftrightarrow> memPinned i (tc_store c) = None \<or> memPinned i (tc_store c) = Some (encodeBase64 key)"

lemma step_last_message:
  assumes "onlineAt w c" and "peerState c i p" and "tp_active p = Some k" and "tp_pending p = None" and "tc_sessions c k = Some s"
    and "ts_status s = Handshaking" and "ts_handle P d s = (Some reply, s')" and "ts_status s' = Ready" and "ts_peerStatic s' = Some key"
    and "c' = ts_do P U (SockBinary w rnd now t (encodeEnvelope envelopeHandshake d)) c" and "tc_jobs c = []"
  shows "onlineAt w c' \<and> sent c' = sent c @ (case reply of None \<Rightarrow> [] | Some m \<Rightarrow> [BinaryFrame (encodeEnvelope envelopeHandshake m)]) \<and>
    peerState c' i p \<and> tc_sessions c' k = Some s' \<and> tc_promises c' = tc_promises c \<and> tc_emitted c' = tc_emitted c \<and>
    tc_peerConns c' = tc_peerConns c \<and>
    tc_store c' = snd (memPinOrVerify t i (encodeBase64 key) (tc_store c)) \<and>
    tc_jobs c' = [\<lparr>j_peer = snd (hd (tc_peerConns c)), j_session = k, j_wasPending = False, j_key = key,
      j_pin = fst (memPinOrVerify t i (encodeBase64 key) (tc_store c))\<rparr>]"
proof -
  obtain a where a: "tc_peerConns c = [(i, a)]" "a < length (tc_peers c)" "tc_peers c ! a = p" "tp_id p = i"
    using assms(2) by (auto simp: peerState_def)
  let ?n = "tc_nextSession c"
  let ?oc = "\<lparr>oc_reply = reply, oc_completed = Some k, oc_wasPending = False\<rparr>"
  let ?c1 = "(updPeer a p c)\<lparr>tc_sessions := (tc_sessions c)(k \<mapsto> s'), tc_nextSession := ?n + 1\<rparr>"
  have "peerHandleEnvelope P rnd now ?n (pairOf P (tc_priv c)) d (p, tc_sessions c) = (Some ?oc, p, (tc_sessions c)(k \<mapsto> s'))"
    using assms(3-8) by (simp add: peerHandleEnvelope_def ts_chooseSession_def isReadyAt_def)
  then have w: "withPeer a (\<lambda>n. peerHandleEnvelope P rnd now n (pairOf P (tc_priv c)) d) c = (Some ?oc, ?c1)"
    using a(3) by (simp add: withPeer_def)
  let ?c2 = "case reply of None \<Rightarrow> ?c1 | Some m \<Rightarrow> sendOn w (BinaryFrame (encodeEnvelope envelopeHandshake m)) ?c1"
  have on: "onlineAt w ?c1" using assms(1) by (simp add: onlineAt_def)
  have "c' = ts_resolveHandshake t a k False ?c2"
    using assms(10) handshake_frame [OF onlineAt_sock [OF assms(1)]] w a(1) sendFrame_online [OF on]
    by (simp add: ts_handleHandshake_def tsSolePeer_def sendHandshake_def sendThen_def Let_def split: option.split)
  moreover have "tc_sessions ?c2 k = Some s'" "tc_peers ?c2 ! a = p" "tc_store ?c2 = tc_store c" "tc_peerConns ?c2 = [(i, a)]"
    "tc_peers ?c2 = (tc_peers c)[a := p]" "tc_jobs ?c2 = []" "tc_promises ?c2 = tc_promises c" "tc_emitted ?c2 = tc_emitted c"
    "onlineAt w ?c2" "sent ?c2 = sent c @ (case reply of None \<Rightarrow> [] | Some m \<Rightarrow> [BinaryFrame (encodeEnvelope envelopeHandshake m)])"
    using a assms(11) on by (simp_all add: updPeer_def sent_def onlineAt_def sendOn_def split: option.split)
  ultimately show ?thesis
    using a assms(8,9) by (simp add: ts_resolveHandshake_def peerState_def case_prod_beta sent_def onlineAt_def)
qed

lemma settle_keeps:
  "length (tc_promises (settle p r c)) = length (tc_promises c)"
  "tc_promises c ! q = Some x \<Longrightarrow> tc_promises (settle p r c) ! q = Some x"
  by (auto simp: settle_def nth_list_update split: if_splits)

lemma emit_keeps:
  "length (tc_promises (ts_emit ev c)) = length (tc_promises c)"
  "tc_promises c ! q = Some x \<Longrightarrow> tc_promises (ts_emit ev c) ! q = Some x"
proof -
  have call: "length (tc_promises (callListener ev f d)) = length (tc_promises d) \<and>
    (tc_promises d ! q = Some x \<longrightarrow> tc_promises (callListener ev f d) ! q = Some x)" for f d
    by (simp add: callListener_def settle_keeps split: tsFn.split tsEvent.split)
  have "length (tc_promises (fold (callListener ev) fs d)) = length (tc_promises d) \<and>
    (tc_promises d ! q = Some x \<longrightarrow> tc_promises (fold (callListener ev) fs d) ! q = Some x)" for fs d
    using call by (induction fs arbitrary: d) auto
  then show "length (tc_promises (ts_emit ev c)) = length (tc_promises c)"
    "tc_promises c ! q = Some x \<Longrightarrow> tc_promises (ts_emit ev c) ! q = Some x"
    by (simp_all add: ts_emit_def case_prod_beta)
qed

lemma onlineAt_cong: "tc_transport c' = tc_transport c \<Longrightarrow> onlineAt w c' = onlineAt w c"
  by (simp add: onlineAt_def)

text \<open>The continuation of a handshake whose key is accepted.\<close>

lemma step_resume_accepted:
  assumes "peerState c i p" and "tp_announced p = '''' \<or> tp_announced p = encodeBase64 key"
    and "tc_jobs c = [\<lparr>j_peer = snd (hd (tc_peerConns c)), j_session = k, j_wasPending = False, j_key = key, j_pin = None\<rparr>]"
    and "c' = ts_do P U (Resume 0) c"
  shows "EvPaired i key \<in> set (tc_emitted c') \<and> tc_transport c' = tc_transport c \<and> tc_sessions c' = tc_sessions c \<and>
    tc_store c' = tc_store c \<and> peerState c' i (p\<lparr>tp_waiter := None\<rparr>) \<and>
    (\<forall>q. tp_waiter p = Some q \<and> q < length (tc_promises c) \<and> tc_promises c ! q = None \<longrightarrow> tc_promises c' ! q = Some (ResolvedPeer i key))"
proof -
  obtain a where a: "tc_peerConns c = [(i, a)]" "a < length (tc_peers c)" "tc_peers c ! a = p" "tp_id p = i"
    using assms(1) by (auto simp: peerState_def)
  let ?p = "p\<lparr>tp_waiter := None\<rparr>"
  let ?c1 = "settleOpt (tp_waiter p) (ResolvedPeer i key) (updPeer a ?p (c\<lparr>tc_jobs := []\<rparr>))"
  have c': "c' = ts_emit (EvPaired i key) (ts_emit (EvReady i) ?c1)"
    using assms(2-4) a by (auto simp: ts_resume_def jobOutcome_def resolveFinish_def ts_takeFirstPairWaiter_def Let_def)
  have "tc_promises ?c1 ! q = Some (ResolvedPeer i key)" if "tp_waiter p = Some q" "q < length (tc_promises c)" "tc_promises c ! q = None" for q
    using that by (simp add: settleOpt_def settle_def updPeer_def)
  then have "tc_promises c' ! q = Some (ResolvedPeer i key)" if "tp_waiter p = Some q" "q < length (tc_promises c)" "tc_promises c ! q = None" for q
    using that emit_keeps(2) c' by simp
  then show ?thesis using c' a by (simp add: peerState_def updPeer_def)
qed

text \<open>The notification that a pairing was made, at the accepting and at the requesting side.\<close>

definition pairCompleteFrame :: "string \<Rightarrow> device_id \<Rightarrow> string \<Rightarrow> WireMessage" where
  "pairCompleteFrame code i key =
     \<lparr>f_type = ''pair_complete'', f_version = None, f_peers = None, f_code = Some code, f_expires = None,
      f_peer = Some i, f_peerKey = Some key, f_online = None, f_message = None\<rparr>"

lemma step_accepted:
  assumes "onlineAt w c" and "tc_peerConns c = []" and "tc_pairAccepts c = [(code, q)]" and "code \<noteq> ''''" and "i \<noteq> ''''"
    and "ts_startAsInitiator P (pairOf P (tc_priv c)) rnd = Some (t0, m1)"
    and "c' = ts_do P U (SockText w rnd (Frame (pairCompleteFrame code i key))) c"
  shows "onlineAt w c' \<and> sent c' = sent c @ [BinaryFrame (encodeEnvelope envelopeHandshake m1)] \<and>
    peerState c' i ((newPeerConnection i key)\<lparr>tp_active := Some (tc_nextSession c), tp_waiter := Some q\<rparr>) \<and>
    tc_sessions c' (tc_nextSession c) = Some t0 \<and> onlyCore c c'"
proof -
  let ?n = "tc_nextSession c"
  let ?p = "(newPeerConnection i key)\<lparr>tp_active := Some ?n, tp_waiter := Some q\<rparr>"
  let ?c1 = "c\<lparr>tc_pairAccepts := [], tc_peerConns := [(i, length (tc_peers c))], tc_peers := tc_peers c @ [?p],
    tc_sessions := (tc_sessions c)(?n \<mapsto> t0), tc_nextSession := Suc ?n\<rparr>"
  have on: "onlineAt w ?c1" using assms(1) by (simp add: onlineAt_def)
  have "c' = sendOn w (BinaryFrame (encodeEnvelope envelopeHandshake m1)) ?c1"
    using assms(2-7) onlineAt_sock [OF assms(1)] sendFrame_online [OF on]
    by (simp add: ts_handleControl_def ts_handlePairComplete_def pairCompleteFrame_def truthy_def linkPeer_def addPeer_def orElse_def
        updPeer_def ts_setFirstPairWaiter_def withPeer_def peerStartAsInitiator_def sendHandshake_def sendThen_def newPeerConnection_def Let_def)
  then show ?thesis using on by (simp add: peerState_def onlyCore_def newPeerConnection_def sent_def sendOn_def onlineAt_def)
qed

lemma step_requested:
  assumes "onlineAt w c" and "tc_peerConns c = []" and "map_of (tc_pairAccepts c) code = None" and "i \<noteq> ''''"
    and "c' = ts_do P U (SockText w rnd (Frame (pairCompleteFrame code i key))) c"
  shows "onlineAt w c' \<and> sent c' = sent c \<and> peerState c' i (newPeerConnection i key) \<and> onlyCore c c'"
  using assms onlineAt_sock [OF assms(1)]
  by (auto simp: ts_handleControl_def ts_handlePairComplete_def pairCompleteFrame_def truthy_def linkPeer_def addPeer_def orElse_def
      peerState_def onlyCore_def newPeerConnection_def sent_def onlineAt_def Let_def split: if_splits)

text \<open>A message over the ready session.\<close>

lemma step_send:
  assumes "onlineAt w c" and "peerState c i p" and "tp_active p = Some k" and "tc_sessions c k = Some s" and "ts_encrypt P m s = (Some ct, s')"
  shows "fst (ts_send P i m c) = None \<and> sent (snd (ts_send P i m c)) = sent c @ [BinaryFrame (encodeEnvelope envelopeTransport ct)]"
proof -
  obtain a where a: "tc_peerConns c = [(i, a)]" "tc_peers c ! a = p" using assms(2) by (auto simp: peerState_def)
  let ?c1 = "c\<lparr>tc_sessions := (tc_sessions c)(k \<mapsto> s')\<rparr>"
  have "onlineAt w ?c1" using assms(1) by (simp add: onlineAt_def)
  then show ?thesis
    using a assms(3-5) sendFrame_online [of w ?c1] by (simp add: ts_send_def ts_peerSend_def Let_def sent_def sendOn_def)
qed

lemma step_receive:
  assumes "onlineAt w c" and "peerState c i p" and "tp_active p = Some k" and "tc_sessions c k = Some s" and "fst (ts_decrypt P ct s) = Some m"
  shows "EvMessage i m now \<in> set (tc_emitted (ts_do P U (SockBinary w rnd now t (encodeEnvelope envelopeTransport ct)) c))"
proof -
  obtain a where a: "tc_peerConns c = [(i, a)]" "tc_peers c ! a = p" "tp_id p = i" using assms(2) by (auto simp: peerState_def)
  have "fst (ts_peerRecv P ct (p, tc_sessions c)) = Some m" using assms(3-5) by (simp add: ts_peerRecv_def case_prod_beta)
  then show ?thesis
    using a onlineAt_sock [OF assms(1)]
    by (simp add: ts_handleBinary_def envelope_roundtrip envelopeHandshake_def envelopeTransport_def ts_handleTransport_def tsSolePeer_def
        case_prod_beta split: option.split)
qed

section \<open>Pairing\<close>

text \<open>A client that is connected and has neither a peer nor an unfinished handshake.\<close>

definition unpairedAt :: "nat \<Rightarrow> RelaylyClient \<Rightarrow> bool" where
  "unpairedAt w c \<longleftrightarrow> onlineAt w c \<and> tc_peerConns c = [] \<and> tc_jobs c = [] \<and> length (tc_priv c) = 32"

lemma pin_accepts: "pinAllows c i key \<Longrightarrow> fst (memPinOrVerify t i (encodeBase64 key) (tc_store c)) = None"
  by (auto simp: pinAllows_def memPinOrVerify_def memPinned_def split: option.split)

text \<open>The inputs of the accepting and of the requesting device during a pairing.\<close>

definition acceptorRun :: "nat \<Rightarrow> bytes \<Rightarrow> string \<Rightarrow> device_id \<Rightarrow> string \<Rightarrow> bytes \<Rightarrow> tsInput list" where
  "acceptorRun w r code i key m2 =
     [SockText w r (Frame (pairCompleteFrame code i key)), SockBinary w [] 5000 ''t'' (encodeEnvelope envelopeHandshake m2), Resume 0]"

definition requesterRun :: "nat \<Rightarrow> bytes \<Rightarrow> string \<Rightarrow> device_id \<Rightarrow> string \<Rightarrow> bytes \<Rightarrow> bytes \<Rightarrow> tsInput list" where
  "requesterRun w r code i key m1 m3 =
     [SockText w [] (Frame (pairCompleteFrame code i key)), SockBinary w r 5000 ''t'' (encodeEnvelope envelopeHandshake m1),
      SockBinary w [] 5000 ''t'' (encodeEnvelope envelopeHandshake m3), Resume 0]"

lemma acceptor_run:
  assumes "unpairedAt w c" and "tc_pairAccepts c = [(code, q)]" and "code \<noteq> ''''" and "i \<noteq> ''''"
    and "q < length (tc_promises c)" and "tc_promises c ! q = None" and "pinAllows c i key"
    and "ts_startAsInitiator P (pairOf P (tc_priv c)) r = Some (t0, m1)" and "ts_status t0 = Handshaking"
    and "ts_handle P m2 t0 = (Some (Some m3), t1)" and "ts_status t1 = Ready" and "ts_peerStatic t1 = Some key"
    and "c' = ts_runs P U (acceptorRun w r code i (encodeBase64 key) m2) c"
  shows "onlineAt w c' \<and> tc_promises c' ! q = Some (ResolvedPeer i key) \<and>
    sent c' = sent c @ [BinaryFrame (encodeEnvelope envelopeHandshake m1), BinaryFrame (encodeEnvelope envelopeHandshake m3)] \<and>
    (\<exists>p k. peerState c' i p \<and> tp_active p = Some k \<and> tc_sessions c' k = Some t1)"
proof -
  have u: "onlineAt w c" "tc_peerConns c = []" "tc_jobs c = []" using assms(1) by (simp_all add: unpairedAt_def)
  define c1 where "c1 = ts_do P U (SockText w r (Frame (pairCompleteFrame code i (encodeBase64 key)))) c"
  let ?p = "(newPeerConnection i (encodeBase64 key))\<lparr>tp_active := Some (tc_nextSession c), tp_waiter := Some q\<rparr>"
  have s1: "onlineAt w c1" "sent c1 = sent c @ [BinaryFrame (encodeEnvelope envelopeHandshake m1)]" "peerState c1 i ?p"
    "tc_sessions c1 (tc_nextSession c) = Some t0" "onlyCore c c1"
    using step_accepted [OF u(1,2) assms(2-4,8) c1_def] by simp_all
  define c2 where "c2 = ts_do P U (SockBinary w [] 5000 ''t'' (encodeEnvelope envelopeHandshake m2)) c1"
  have "tp_active ?p = Some (tc_nextSession c)" "tp_pending ?p = None" "tc_jobs c1 = []"
    using s1(5) u(3) by (simp_all add: newPeerConnection_def onlyCore_def)
  note s2 = step_last_message [OF s1(1,3) this(1,2) s1(4) assms(9-12) c2_def this(3)]
  have pin: "fst (memPinOrVerify ''t'' i (encodeBase64 key) (tc_store c1)) = None"
    using pin_accepts [OF assms(7)] s1(5) by (simp add: onlyCore_def)
  have job: "tc_jobs c2 = [\<lparr>j_peer = snd (hd (tc_peerConns c2)), j_session = tc_nextSession c, j_wasPending = False, j_key = key, j_pin = None\<rparr>]"
    using s2 pin by (simp)
  have st2: "peerState c2 i ?p" "tc_promises c2 = tc_promises c" using s2 s1(5) by (simp_all add: onlyCore_def)
  have ann: "tp_announced ?p = '''' \<or> tp_announced ?p = encodeBase64 key" by (simp add: newPeerConnection_def)
  have c': "c' = ts_do P U (Resume 0) c2" using assms(13) by (simp add: ts_runs_def acceptorRun_def c1_def c2_def)
  note s3 = step_resume_accepted [OF st2(1) ann job c']
  have "tp_waiter ?p = Some q" "tp_active (?p\<lparr>tp_waiter := None\<rparr>) = Some (tc_nextSession c)" by simp_all
  moreover have "sent c' = sent c2" "onlineAt w c'" using s3 s2 onlineAt_cong [of c' c2 w] by (simp_all add: sent_def)
  moreover have "tc_sessions c' (tc_nextSession c) = Some t1" using s3 s2 by simp
  ultimately show ?thesis
    using s3 s2 s1(2) st2(2) assms(5,6) by auto
qed

lemma requester_run:
  assumes "unpairedAt w c" and "map_of (tc_pairAccepts c) code = None" and "i \<noteq> ''''" and "pinAllows c i key"
    and "ts_handle P m1 (ts_startAsResponder P (pairOf P (tc_priv c)) r) = (Some (Some m2), b1)" and "ts_status b1 = Handshaking"
    and "ts_handle P m3 b1 = (Some None, b2)" and "ts_status b2 = Ready" and "ts_peerStatic b2 = Some key"
    and "c' = ts_runs P U (requesterRun w r code i (encodeBase64 key) m1 m3) c"
  shows "onlineAt w c' \<and> EvPaired i key \<in> set (tc_emitted c') \<and> sent c' = sent c @ [BinaryFrame (encodeEnvelope envelopeHandshake m2)] \<and>
    (\<exists>p k. peerState c' i p \<and> tp_active p = Some k \<and> tc_sessions c' k = Some b2)"
proof -
  have u: "onlineAt w c" "tc_peerConns c = []" "tc_jobs c = []" using assms(1) by (simp_all add: unpairedAt_def)
  define c1 where "c1 = ts_do P U (SockText w [] (Frame (pairCompleteFrame code i (encodeBase64 key)))) c"
  let ?new = "newPeerConnection i (encodeBase64 key)"
  have s1: "onlineAt w c1" "sent c1 = sent c" "peerState c1 i ?new" "onlyCore c c1"
    using step_requested [OF u(1,2) assms(2,3) c1_def] by simp_all
  define c2 where "c2 = ts_do P U (SockBinary w r 5000 ''t'' (encodeEnvelope envelopeHandshake m1)) c1"
  let ?n = "tc_nextSession c1" let ?p = "?new\<lparr>tp_active := Some ?n\<rparr>"
  have "tp_active ?new = None" "tp_pending ?new = None" by (simp_all add: newPeerConnection_def)
  moreover have "ts_handle P m1 (ts_startAsResponder P (pairOf P (tc_priv c1)) r) = (Some (Some m2), b1)"
    using assms(5) s1(4) by (simp add: onlyCore_def)
  ultimately have s2: "onlineAt w c2" "sent c2 = sent c1 @ [BinaryFrame (encodeEnvelope envelopeHandshake m2)]"
    "peerState c2 i ?p" "tc_sessions c2 ?n = Some b1" "onlyCore c1 c2"
    using step_first_message [OF s1(1,3) _ _ _ assms(6) c2_def] by simp_all
  define c3 where "c3 = ts_do P U (SockBinary w [] 5000 ''t'' (encodeEnvelope envelopeHandshake m3)) c2"
  have "tp_active ?p = Some ?n" "tp_pending ?p = None" "tc_jobs c2 = []"
    using s1(4) s2(5) u(3) by (simp_all add: newPeerConnection_def onlyCore_def)
  note s3 = step_last_message [OF s2(1,3) this(1,2) s2(4) assms(6-9) c3_def this(3)]
  have pin: "fst (memPinOrVerify ''t'' i (encodeBase64 key) (tc_store c2)) = None"
    using pin_accepts [OF assms(4)] s1(4) s2(5) by (simp add: onlyCore_def)
  have job: "tc_jobs c3 = [\<lparr>j_peer = snd (hd (tc_peerConns c3)), j_session = ?n, j_wasPending = False, j_key = key, j_pin = None\<rparr>]"
    using s3 pin by (simp)
  have st3: "peerState c3 i ?p" using s3 by (simp)
  have ann: "tp_announced ?p = '''' \<or> tp_announced ?p = encodeBase64 key" by (simp add: newPeerConnection_def)
  have c': "c' = ts_do P U (Resume 0) c3" using assms(10) by (simp add: ts_runs_def requesterRun_def c1_def c2_def c3_def)
  note s4 = step_resume_accepted [OF st3 ann job c']
  have "tp_active (?p\<lparr>tp_waiter := None\<rparr>) = Some ?n" by simp
  moreover have "sent c' = sent c3" "onlineAt w c'" using s4 s3 onlineAt_cong [of c' c3 w] by (simp_all add: sent_def)
  moreover have "tc_sessions c' ?n = Some b2" using s4 s3 by simp
  ultimately show ?thesis
    using s4 s3 s2(2) s1(2) by auto
qed

section \<open>Properties\<close>

text \<open>
  C11: two TypeScript clients pair. When the relay tells both sides that a pairing was made and
  passes their three handshake messages on, then the accepting client's call resolves with the public key
  of the other device, the requesting client announces the public key of the accepting one,
  and from then on what either of them sends is delivered to the other unchanged.
\<close>

theorem ts_pairing_completes:
  assumes "prims_contract P" and "unpairedAt w A" and "unpairedAt v B" and "length r = 32" and "length r' = 32"
    and "tc_pairAccepts A = [(code, q)]" and "q < length (tc_promises A)" and "tc_promises A ! q = None" and "map_of (tc_pairAccepts B) code = None"
    and "code \<noteq> ''''" and "a \<noteq> ''''" and "b \<noteq> ''''"
    and "kA = getPublicKey P (tc_priv A)" and "kB = getPublicKey P (tc_priv B)" and "pinAllows A b kB" and "pinAllows B a kA"
  shows "\<exists>m1 m2 m3 A' B'. A' = ts_runs P U (acceptorRun w r code b (encodeBase64 kB) m2) A \<and>
    B' = ts_runs P U (requesterRun v r' code a (encodeBase64 kA) m1 m3) B \<and>
    sent A' = sent A @ [BinaryFrame (encodeEnvelope envelopeHandshake m1), BinaryFrame (encodeEnvelope envelopeHandshake m3)] \<and>
    sent B' = sent B @ [BinaryFrame (encodeEnvelope envelopeHandshake m2)] \<and>
    tc_promises A' ! q = Some (ResolvedPeer b kB) \<and> EvPaired a kA \<in> set (tc_emitted B') \<and>
    (\<forall>m. \<exists>ct. fst (ts_send P b m A') = None \<and> sent (snd (ts_send P b m A')) = sent A' @ [BinaryFrame (encodeEnvelope envelopeTransport ct)] \<and>
      EvMessage a m now \<in> set (tc_emitted (ts_do P U (SockBinary v rnd now t (encodeEnvelope envelopeTransport ct)) B'))) \<and>
    (\<forall>m. \<exists>ct. fst (ts_send P a m B') = None \<and> sent (snd (ts_send P a m B')) = sent B' @ [BinaryFrame (encodeEnvelope envelopeTransport ct)] \<and>
      EvMessage b m now \<in> set (tc_emitted (ts_do P U (SockBinary w rnd now t (encodeEnvelope envelopeTransport ct)) A')))"
proof -
  have len: "length (tc_priv A) = 32" "length (tc_priv B) = 32" using assms(2,3) by (simp_all add: unpairedAt_def)
  obtain t0 m1 m2 m3 t1 b1 b2 where s: "ts_startAsInitiator P (pairOf P (tc_priv A)) r = Some (t0, m1)" "ts_status t0 = Handshaking"
    "ts_handle P m1 (ts_startAsResponder P (pairOf P (tc_priv B)) r') = (Some (Some m2), b1)" "ts_status b1 = Handshaking"
    "ts_handle P m2 t0 = (Some (Some m3), t1)" "ts_handle P m3 b1 = (Some None, b2)"
    "ts_status t1 = Ready" "ts_status b2 = Ready" "ts_peerStatic t1 = Some (getPublicKey P (tc_priv B))" "ts_peerStatic b2 = Some (getPublicKey P (tc_priv A))"
    and x: "\<forall>m. \<exists>ct s'. ts_encrypt P m t1 = (Some ct, s') \<and> fst (ts_decrypt P ct b2) = Some m"
    "\<forall>m. \<exists>ct s'. ts_encrypt P m b2 = (Some ct, s') \<and> fst (ts_decrypt P ct t1) = Some m"
    by (rule ts_session_run [OF assms(1) len assms(4,5)])
  define A' where "A' = ts_runs P U (acceptorRun w r code b (encodeBase64 kB) m2) A"
  define B' where "B' = ts_runs P U (requesterRun v r' code a (encodeBase64 kA) m1 m3) B"
  note ra = acceptor_run [OF assms(2,6,10,12,7,8,15) s(1,2,5,7) s(9) [folded assms(14)] A'_def]
  note rb = requester_run [OF assms(3,9,11,16) s(3,4,6,8) s(10) [folded assms(13)] B'_def]
  obtain pa ka where pa: "peerState A' b pa" "tp_active pa = Some ka" "tc_sessions A' ka = Some t1" using ra by blast
  obtain pb kb where pb: "peerState B' a pb" "tp_active pb = Some kb" "tc_sessions B' kb = Some b2" using rb by blast
  have on: "onlineAt w A'" "onlineAt v B'" using ra rb by simp_all
  have "\<exists>ct. fst (ts_send P b m A') = None \<and> sent (snd (ts_send P b m A')) = sent A' @ [BinaryFrame (encodeEnvelope envelopeTransport ct)] \<and>
      EvMessage a m now \<in> set (tc_emitted (ts_do P U (SockBinary v rnd now t (encodeEnvelope envelopeTransport ct)) B'))" for m
    using x(1) step_send [OF on(1) pa] step_receive [OF on(2) pb] by blast
  moreover have "\<exists>ct. fst (ts_send P a m B') = None \<and> sent (snd (ts_send P a m B')) = sent B' @ [BinaryFrame (encodeEnvelope envelopeTransport ct)] \<and>
      EvMessage b m now \<in> set (tc_emitted (ts_do P U (SockBinary w rnd now t (encodeEnvelope envelopeTransport ct)) A'))" for m
    using x(2) step_send [OF on(2) pb] step_receive [OF on(1) pa] by blast
  ultimately show ?thesis using ra rb A'_def B'_def by blast
qed

text \<open>Two clients right before a pairing, over primitives without security.\<close>

definition sampleClient :: "device_id \<Rightarrow> 8 word \<Rightarrow> tsInput list \<Rightarrow> RelaylyClient" where
  "sampleClient i b evs = ts_runs toyPrims (\<lambda>url code. None) evs (newRelaylyClient ''ws://relay'' i (replicate 32 b) (\<lambda>_. None) None None)"

definition sampleAcceptor :: RelaylyClient where
  "sampleAcceptor = sampleClient ''a'' 1 [ApiConnect, SockOpened 0, ApiAcceptPair ''123456'']"

definition sampleRequester :: RelaylyClient where
  "sampleRequester = sampleClient ''b'' 2 [ApiConnect, SockOpened 0]"

lemmas sample_defs = sampleAcceptor_def sampleRequester_def sampleClient_def ts_runs_def newRelaylyClient_def ts_connect_def newPromise_def
  transportConnect_def newTransport_def ts_acceptPair_def sendOrReject_def sendFrame_def transportSend_def isConnected_def orElse_def
  sockIs_def setSock_def transportOpened_def Let_def

lemma ts_sample_ready:
  "unpairedAt 0 sampleAcceptor" "unpairedAt 0 sampleRequester" "tc_pairAccepts sampleAcceptor = [(''123456'', 1)]"
  "tc_promises sampleAcceptor = [None, None]" "tc_pairAccepts sampleRequester = []" "tc_store sampleAcceptor = (\<lambda>_. None)"
  "tc_store sampleRequester = (\<lambda>_. None)" "tc_priv sampleAcceptor = replicate 32 1" "tc_priv sampleRequester = replicate 32 2"
  by (simp_all add: sample_defs unpairedAt_def onlineAt_def)

theorem ts_pairing_completes_witness:
  "\<exists>(A' :: RelaylyClient) B'. tc_promises A' ! 1 = Some (ResolvedPeer ''b'' (replicate 32 2)) \<and> EvPaired ''a'' (replicate 32 1) \<in> set (tc_emitted B') \<and>
     (\<exists>evs. B' = ts_runs toyPrims (\<lambda>url code. None) evs sampleRequester)"
proof -
  have key: "replicate 32 1 = getPublicKey toyPrims (tc_priv sampleAcceptor)" "replicate 32 2 = getPublicKey toyPrims (tc_priv sampleRequester)"
    by (simp_all only: ts_sample_ready toyPrims_def prims.simps id_apply)
  have "q = 1 \<Longrightarrow> q < length (tc_promises sampleAcceptor) \<and> tc_promises sampleAcceptor ! q = None" for q by (simp add: ts_sample_ready)
  then have pr: "1 < length (tc_promises sampleAcceptor)" "tc_promises sampleAcceptor ! 1 = None" by blast+
  have ne: "map_of (tc_pairAccepts sampleRequester) ''123456'' = None" "''123456'' \<noteq> ''''" "''a'' \<noteq> ''''" "''b'' \<noteq> ''''"
    by (simp_all add: ts_sample_ready)
  have al: "pinAllows sampleAcceptor ''b'' (replicate 32 2)" "pinAllows sampleRequester ''a'' (replicate 32 1)"
    by (simp_all add: pinAllows_def memPinned_def ts_sample_ready)
  from ts_pairing_completes [OF toyPrims_contract ts_sample_ready(1,2) length_replicate [of 32 7] length_replicate [of 32 9] ts_sample_ready(3) pr ne key al,
      where U = "\<lambda>url code. None" and now = 0 and rnd = "[]" and t = "''t''"]
  show ?thesis
  proof (elim exE conjE)
    fix m1 m3 B' and A' :: RelaylyClient
    assume "B' = ts_runs toyPrims (\<lambda>url code. None) (requesterRun 0 (replicate 32 9) ''123456'' ''a'' (encodeBase64 (replicate 32 1)) m1 m3) sampleRequester"
      "tc_promises A' ! 1 = Some (ResolvedPeer ''b'' (replicate 32 2))" "EvPaired ''a'' (replicate 32 1) \<in> set (tc_emitted B')"
    then show ?thesis by blast
  qed
qed

text \<open>
  C12: the TypeScript client names only pinned keys. In every state the client can reach, whatever the server, the
  peers, the network and the application do, each key announced by a \<^verbatim>\<open>paired\<close> event and each key a pairing
  call resolved with is the one pinned for that peer, and \<^verbatim>\<open>ready\<close> is announced for pinned peers only.
\<close>

theorem ts_paired_is_pinned:
  assumes "reach ts_init (ts_step P U) c"
  shows "(EvPaired i k \<in> set (tc_emitted c) \<longrightarrow> memPinned i (tc_store c) = Some (encodeBase64 k)) \<and>
    (Some (ResolvedPeer i k) \<in> set (tc_promises c) \<longrightarrow> memPinned i (tc_store c) = Some (encodeBase64 k)) \<and>
    (EvReady i \<in> set (tc_emitted c) \<longrightarrow> memPinned i (tc_store c) \<noteq> None)"
proof -
  have "ts_inv c" by (rule ts_sys.reach_inv [OF assms])
  then have "EvPaired i k \<in> set (tc_emitted c) \<longrightarrow> eventOk c (EvPaired i k)" "EvReady i \<in> set (tc_emitted c) \<longrightarrow> eventOk c (EvReady i)"
    "Some (ResolvedPeer i k) \<in> set (tc_promises c) \<longrightarrow> outcomeOk c (ResolvedPeer i k)"
    unfolding ts_inv_def by blast+
  then show ?thesis by (simp add: pinnedAs_def)
qed

lemma reach_runs: "reach ts_init (ts_step P U) c \<Longrightarrow> reach ts_init (ts_step P U) (ts_runs P U evs c)"
proof (induction evs arbitrary: c)
  case (Cons ev evs)
  have "reach ts_init (ts_step P U) (ts_do P U ev c)"
    by (rule reach.reach_step [OF Cons.prems]) (auto simp: ts_step_def)
  from Cons.IH [OF this] show ?case by (simp add: ts_runs_def)
qed (simp add: ts_runs_def)

lemma sample_reached: "reach ts_init (ts_step toyPrims (\<lambda>url code. None)) (sampleClient i b evs)"
  unfolding sampleClient_def by (intro reach_runs reach.reach_init) (unfold ts_init_def, blast)

lemma sample_pairs:
  "\<exists>evs. EvPaired ''a'' (replicate 32 1) \<in> set (tc_emitted (ts_runs toyPrims (\<lambda>url code. None) evs sampleRequester))"
proof -
  have len: "length (replicate 32 (1 :: 8 word)) = 32" "length (tc_priv sampleRequester) = 32" by (simp_all add: ts_sample_ready)
  obtain m1 m2 b1 m3 b2 where s: "ts_handle toyPrims m1 (ts_startAsResponder toyPrims (pairOf toyPrims (tc_priv sampleRequester)) (replicate 32 1)) = (Some (Some m2), b1)"
    "ts_status b1 = Handshaking" "ts_handle toyPrims m3 b1 = (Some None, b2)" "ts_status b2 = Ready"
    "ts_peerStatic b2 = Some (getPublicKey toyPrims (replicate 32 1))"
    by (rule ts_session_run [OF toyPrims_contract len len(1,1)])
  have "map_of (tc_pairAccepts sampleRequester) ''123456'' = None" "''a'' \<noteq> ''''" "pinAllows sampleRequester ''a'' (getPublicKey toyPrims (replicate 32 1))"
    by (simp_all add: ts_sample_ready pinAllows_def memPinned_def)
  from requester_run [OF ts_sample_ready(2) this s refl, of "\<lambda>url code. None"] show ?thesis
    by (auto simp: toyPrims_def)
qed

theorem ts_paired_is_pinned_witness:
  "\<exists>evs. EvPaired ''a'' (replicate 32 1) \<in> set (tc_emitted (ts_runs toyPrims (\<lambda>url code. None) evs sampleRequester)) \<and>
     memPinned ''a'' (tc_store (ts_runs toyPrims (\<lambda>url code. None) evs sampleRequester)) = Some (encodeBase64 (replicate 32 1))"
proof -
  obtain evs where e: "EvPaired ''a'' (replicate 32 1) \<in> set (tc_emitted (ts_runs toyPrims (\<lambda>url code. None) evs sampleRequester))"
    using sample_pairs by blast
  have "reach ts_init (ts_step toyPrims (\<lambda>url code. None)) (ts_runs toyPrims (\<lambda>url code. None) evs sampleRequester)"
    unfolding sampleRequester_def by (intro reach_runs sample_reached)
  with e ts_paired_is_pinned [OF this, of "''a''" "replicate 32 1"] show ?thesis by blast
qed

lemma step_resume_rejected:
  assumes "peerState c i p" and "tc_jobs c = [\<lparr>j_peer = snd (hd (tc_peerConns c)), j_session = k, j_wasPending = False, j_key = key, j_pin = Some e\<rparr>]"
    and "c' = ts_do P U (Resume 0) c"
  shows "EvError (errCode (errClass e)) (errMessage e) \<in> set (tc_emitted c') \<and> tc_transport c' = tc_transport c \<and>
    tc_sessions c' = tc_sessions c \<and> tc_store c' = tc_store c \<and> peerState c' i (p\<lparr>tp_waiter := None\<rparr>)"
proof -
  obtain a where a: "tc_peerConns c = [(i, a)]" "a < length (tc_peers c)" "tc_peers c ! a = p" "tp_id p = i"
    using assms(1) by (auto simp: peerState_def)
  then have "c' = ts_emit (EvError (errCode (errClass e)) (errMessage e))
      (settleOpt (tp_waiter p) (RejectedWith (Typed e)) (updPeer a (p\<lparr>tp_waiter := None\<rparr>) (c\<lparr>tc_jobs := []\<rparr>)))"
    using assms(2,3) by (simp add: ts_resume_def jobOutcome_def resolveFinish_def ts_takeFirstPairWaiter_def Let_def)
  then show ?thesis using a by (simp add: peerState_def updPeer_def)
qed

text \<open>
  C38: the TypeScript client goes on using a key that it rejected. A peer whose key is pinned completes a first
  handshake with a different key. The client keeps the pin and reports the mismatch, but the
  session stays the active one: \<^verbatim>\<open>send\<close> encrypts to the rejected key and succeeds, messages of the rejected
  sender are delivered as messages of the peer, and the peer is listed with the rejected key.
\<close>

theorem ts_rejected_key_still_used:
  assumes "onlineAt w c" and "peerState c i p" and "tp_active p = Some k" and "tp_pending p = None" and "tc_sessions c k = Some s"
    and "ts_status s = Handshaking" and "ts_handle P d s = (Some reply, s')" and "ts_status s' = Ready" and "ts_peerStatic s' = Some key"
    and "tc_jobs c = []" and "memPinned i (tc_store c) = Some pin" and "pin \<noteq> encodeBase64 key"
    and "ts_encrypt P m s' = (Some ct, s2)" and "fst (ts_decrypt P ct' s') = Some m'"
    and "c' = ts_runs P U [SockBinary w rnd now t (encodeEnvelope envelopeHandshake d), Resume 0] c"
  shows "memPinned i (tc_store c') = Some pin \<and> EvError ''peer_key_mismatch'' (errMessage (newPeerKeyMismatchError i)) \<in> set (tc_emitted c') \<and>
    fst (ts_send P i m c') = None \<and> sent (snd (ts_send P i m c')) = sent c' @ [BinaryFrame (encodeEnvelope envelopeTransport ct)] \<and>
    EvMessage i m' now' \<in> set (tc_emitted (ts_do P U (SockBinary w rnd' now' t' (encodeEnvelope envelopeTransport ct')) c')) \<and>
    ts_getPeers c' = [(i, key)]"
proof -
  define c1 where "c1 = ts_do P U (SockBinary w rnd now t (encodeEnvelope envelopeHandshake d)) c"
  note s1 = step_last_message [OF assms(1-9) c1_def assms(10)]
  let ?e = "newPeerKeyMismatchError i"
  have code: "errCode (errClass ?e) = ''peer_key_mismatch''" by (simp add: newPeerKeyMismatchError_def)
  have pin: "memPinOrVerify t i (encodeBase64 key) (tc_store c) = (Some ?e, tc_store c)"
    using assms(11,12) by (auto simp: memPinOrVerify_def memPinned_def)
  have job: "tc_jobs c1 = [\<lparr>j_peer = snd (hd (tc_peerConns c1)), j_session = k, j_wasPending = False, j_key = key, j_pin = Some ?e\<rparr>]"
    using s1 pin by simp
  have p1: "peerState c1 i p" using s1 by simp
  have c': "c' = ts_do P U (Resume 0) c1" using assms(15) by (simp add: ts_runs_def c1_def)
  note s2 = step_resume_rejected [OF p1 job c']
  have on: "onlineAt w c'" using s1 s2 onlineAt_cong [of c' c1 w] by simp
  let ?p = "p\<lparr>tp_waiter := None\<rparr>"
  have st: "peerState c' i ?p" "tp_active ?p = Some k" "tc_sessions c' k = Some s'" using s1 s2 assms(3) by simp_all
  have "ts_getPeers c' = [(i, key)]"
    using st assms(8,9) by (auto simp: ts_getPeers_def peerState_def peerPublicKey_def)
  then show ?thesis
    using s1 s2 pin code assms(11) step_send [OF on st assms(13)] step_receive [OF on st assms(14)] by simp
qed

text \<open>A client with a pin for the peer, right before the last message of a handshake with another key.\<close>

definition pinnedClient :: RelaylyClient where
  "pinnedClient = sampleRequester\<lparr>tc_store := (\<lambda>_. Some (encodeBase64 (replicate 32 3), ''t''))\<rparr>"

lemma pinned_client_mid_handshake:
  obtains c evs k p b1 m3 b2 ct s2 ct' where "c = ts_runs toyPrims (\<lambda>url code. None) evs pinnedClient"
    "onlineAt 0 c" "peerState c ''a'' p" "tp_active p = Some k" "tp_pending p = None" "tc_sessions c k = Some b1" "ts_status b1 = Handshaking"
    "ts_handle toyPrims m3 b1 = (Some None, b2)" "ts_status b2 = Ready" "ts_peerStatic b2 = Some (replicate 32 1)"
    "tc_jobs c = []" "memPinned ''a'' (tc_store c) = Some (encodeBase64 (replicate 32 3))"
    "ts_encrypt toyPrims [7] b2 = (Some ct, s2)" "fst (ts_decrypt toyPrims ct' b2) = Some [7]"
proof -
  let ?U = "\<lambda>url code. None"
  have priv: "tc_priv pinnedClient = replicate 32 2" "tc_jobs pinnedClient = []" "onlineAt 0 pinnedClient" "tc_peerConns pinnedClient = []"
    using ts_sample_ready(2) by (simp_all add: pinnedClient_def ts_sample_ready unpairedAt_def onlineAt_def)
  have len: "length (replicate 32 (1 :: 8 word)) = 32" "length (tc_priv pinnedClient) = 32" by (simp_all add: priv)
  obtain m1 m2 b1 m3 b2 t1 where s: "ts_handle toyPrims m1 (ts_startAsResponder toyPrims (pairOf toyPrims (tc_priv pinnedClient)) (replicate 32 1)) = (Some (Some m2), b1)"
    "ts_status b1 = Handshaking" "ts_handle toyPrims m3 b1 = (Some None, b2)" "ts_status b2 = Ready"
    "ts_peerStatic b2 = Some (getPublicKey toyPrims (replicate 32 1))"
    and x: "\<forall>m. \<exists>ct s'. ts_encrypt toyPrims m t1 = (Some ct, s') \<and> fst (ts_decrypt toyPrims ct b2) = Some m"
    "\<forall>m. \<exists>ct s'. ts_encrypt toyPrims m b2 = (Some ct, s') \<and> fst (ts_decrypt toyPrims ct t1) = Some m"
    by (rule ts_session_run [OF toyPrims_contract len len(1,1)])
  obtain ct s2 where e: "ts_encrypt toyPrims [7] b2 = (Some ct, s2)" using x(2) by blast
  obtain ct' where d: "fst (ts_decrypt toyPrims ct' b2) = Some [7]" using x(1) by blast
  have ne: "map_of (tc_pairAccepts pinnedClient) ''123456'' = None" "''a'' \<noteq> ''''" by (simp_all add: pinnedClient_def ts_sample_ready)
  define c1 where "c1 = ts_do toyPrims ?U (SockText 0 [] (Frame (pairCompleteFrame ''123456'' ''a'' ''''))) pinnedClient"
  have q1: "onlineAt 0 c1" "peerState c1 ''a'' (newPeerConnection ''a'' '''')" "onlyCore pinnedClient c1"
    using step_requested [OF priv(3,4) ne c1_def] by simp_all
  define c2 where "c2 = ts_do toyPrims ?U (SockBinary 0 (replicate 32 1) 5000 ''t'' (encodeEnvelope envelopeHandshake m1)) c1"
  have new: "tp_active (newPeerConnection ''a'' '''') = None" "tp_pending (newPeerConnection ''a'' '''') = None" by (simp_all add: newPeerConnection_def)
  have "ts_handle toyPrims m1 (ts_startAsResponder toyPrims (pairOf toyPrims (tc_priv c1)) (replicate 32 1)) = (Some (Some m2), b1)"
    using q1(3) s(1) by (simp add: onlyCore_def)
  note q2 = step_first_message [OF q1(1,2) new this s(2) c2_def]
  let ?p = "(newPeerConnection ''a'' '''')\<lparr>tp_active := Some (tc_nextSession c1)\<rparr>"
  have c2: "onlineAt 0 c2" "peerState c2 ''a'' ?p" "tp_active ?p = Some (tc_nextSession c1)" "tp_pending ?p = None"
    "tc_sessions c2 (tc_nextSession c1) = Some b1" "tc_jobs c2 = []" "memPinned ''a'' (tc_store c2) = Some (encodeBase64 (replicate 32 3))"
    using q1(3) q2 priv(2) by (simp_all add: onlyCore_def pinnedClient_def memPinned_def newPeerConnection_def)
  have run: "c2 = ts_runs toyPrims ?U [SockText 0 [] (Frame (pairCompleteFrame ''123456'' ''a'' '''')),
      SockBinary 0 (replicate 32 1) 5000 ''t'' (encodeEnvelope envelopeHandshake m1)] pinnedClient"
    by (simp add: ts_runs_def c1_def c2_def)
  have "getPublicKey toyPrims (replicate 32 1) = replicate 32 1" by (simp add: toyPrims_def)
  then show thesis using that [OF run c2(1-5) s(2-4) _ c2(6,7) e d] s(5) by simp
qed

theorem ts_rejected_key_still_used_witness:
  "\<exists>c evs. c = ts_runs toyPrims (\<lambda>url code. None) evs pinnedClient \<and> memPinned ''a'' (tc_store c) = Some (encodeBase64 (replicate 32 3)) \<and>
     EvError ''peer_key_mismatch'' (errMessage (newPeerKeyMismatchError ''a'')) \<in> set (tc_emitted c) \<and> fst (ts_send toyPrims ''a'' [7] c) = None \<and>
     ts_getPeers c = [(''a'', replicate 32 1)] \<and> encodeBase64 (replicate 32 3) \<noteq> encodeBase64 (replicate 32 1)"
proof -
  let ?U = "\<lambda>url code. None"
  obtain c evs k p b1 m3 b2 ct s2 ct' where c: "c = ts_runs toyPrims ?U evs pinnedClient"
    and h: "onlineAt 0 c" "peerState c ''a'' p" "tp_active p = Some k" "tp_pending p = None" "tc_sessions c k = Some b1" "ts_status b1 = Handshaking"
    "ts_handle toyPrims m3 b1 = (Some None, b2)" "ts_status b2 = Ready" "ts_peerStatic b2 = Some (replicate 32 1)"
    "tc_jobs c = []" "memPinned ''a'' (tc_store c) = Some (encodeBase64 (replicate 32 3))"
    and x: "ts_encrypt toyPrims [7] b2 = (Some ct, s2)" "fst (ts_decrypt toyPrims ct' b2) = Some [7]"
    by (rule pinned_client_mid_handshake)
  have "replicate 32 3 \<noteq> (replicate 32 1 :: bytes)" by (simp add: replicate_eq_replicate)
  then have df: "encodeBase64 (replicate 32 3) \<noteq> encodeBase64 (replicate 32 1)" by (metis decode_encode option.inject)
  let ?evs = "[SockBinary 0 [] 0 ''t'' (encodeEnvelope envelopeHandshake m3), Resume 0]"
  have "ts_runs toyPrims ?U ?evs c = ts_runs toyPrims ?U (evs @ ?evs) pinnedClient" by (simp add: c ts_runs_def)
  with ts_rejected_key_still_used [OF h df x refl, where U = ?U and rnd = "[]" and now = 0 and t = "''t''"] df
  show ?thesis by auto
qed

section \<open>Smaller observations\<close>

text \<open>
  A first handshake that failed blocks the requesting side: without a replacement under way, every later handshake
  message throws and changes nothing, and a new pairing with the same peer keeps the failed session.
\<close>

lemma ts_failed_handshake_blocks:
  assumes "peerState c i p" and "tp_active p = Some k" and "tp_pending p = None" and "tc_sessions c k = Some s" and "ts_status s = Failed"
  shows "fst (peerHandleEnvelope P rnd now n kp d (p, tc_sessions c)) = None \<and>
    snd (peerHandleEnvelope P rnd now n kp d (p, tc_sessions c)) = (p, tc_sessions c)"
    and "map_of (tc_pairAccepts c) code = None \<Longrightarrow> i \<noteq> '''' \<Longrightarrow>
      peerState (ts_handlePairComplete P rnd (pairCompleteFrame code i key) c) i (p\<lparr>tp_announced := key\<rparr>)"
proof -
  show "fst (peerHandleEnvelope P rnd now n kp d (p, tc_sessions c)) = None \<and>
    snd (peerHandleEnvelope P rnd now n kp d (p, tc_sessions c)) = (p, tc_sessions c)"
    using assms(2-5) by (auto simp: peerHandleEnvelope_def ts_chooseSession_def isReadyAt_def ts_handle_def)
  show "peerState (ts_handlePairComplete P rnd (pairCompleteFrame code i key) c) i (p\<lparr>tp_announced := key\<rparr>)"
    if "map_of (tc_pairAccepts c) code = None" "i \<noteq> ''''"
    using that assms(1)
    by (auto simp: ts_handlePairComplete_def pairCompleteFrame_def truthy_def linkPeer_def orElse_def peerState_def updPeer_def Let_def)
qed

text \<open>
  The address for the QR code of a server that is reached over TLS has the scheme \<^verbatim>\<open>wsss\<close>, which is none,
  as long as the \<^verbatim>\<open>URL\<close> class keeps the scheme it was given.
\<close>

lemma qr_scheme_broken:
  assumes "\<And>url code u. U url code = Some u \<Longrightarrow> prefix ''httpss://'' url \<Longrightarrow> prefix ''httpss://'' u"
    and "U (''httpss://'' @ host) code = Some u"
  shows "prefix ''wsss://'' (buildQrUrl U (normalizeUrl (''https://'' @ host)) code)"
proof -
  have "prefix ''httpss://'' u" using assms by simp
  then obtain rest where "u = ''httpss://'' @ rest" by (auto simp: prefix_def)
  then show ?thesis using assms(2) by (simp add: buildQrUrl_def normalizeUrl_def replacePrefix_def)
qed

text \<open>
  Two calls of \<^verbatim>\<open>waitForPairing\<close> at the same time: the event resolves the first promise, and the second
  listener misses it.
\<close>

lemma second_wait_misses:
  assumes "tc_listeners c ''paired'' = []" and "c' = ts_emit (EvPaired i k) (ts_waitForPairing (ts_waitForPairing c))"
  shows "tc_promises c' = tc_promises c @ [Some (ResolvedPeer i k), None]"
  using assms by (simp add: ts_waitForPairing_def newPromise_def addOnce_def addListener_def emitterOn_def ts_emit_def emitterEmit_def emitterOff_def
      callListener_def settle_def nth_append list_update_append Let_def eval_nat_numeral)

section \<open>After the end\<close>

text \<open>A client that was closed: nothing arrives any more, and nothing can be sent.\<close>

definition silent :: "RelaylyClient \<Rightarrow> bool" where
  "silent c \<longleftrightarrow> tt_closed (tc_transport c) \<and> tt_ws (tc_transport c) = None \<and> tc_jobs c = [] \<and>
     (\<forall>s \<in> set (tt_socks (tc_transport c)). s \<noteq> OPEN \<and> s \<noteq> CONNECTING)"

definition stillPending :: "RelaylyClient \<Rightarrow> RelaylyClient \<Rightarrow> bool" where
  "stillPending c c' \<longleftrightarrow> length (tc_promises c) \<le> length (tc_promises c') \<and>
     (\<forall>q < length (tc_promises c). tc_promises c ! q = None \<longrightarrow> tc_promises c' ! q = None)"

lemma silent_not_sock: "silent c \<Longrightarrow> \<not> sockIs w OPEN c" "silent c \<Longrightarrow> \<not> sockIs w CONNECTING c"
  by (auto simp: silent_def sockIs_def)

lemma silent_sendFrame: "silent c \<Longrightarrow> sendFrame f c = None"
  by (simp add: silent_def sendFrame_def transportSend_def isConnected_def)

lemma silent_request:
  assumes "silent c" and "silent c'" and "tc_promises c' = tc_promises c @ [None]"
  shows "silent (sendOrReject (length (tc_promises c)) f c') \<and> stillPending c (sendOrReject (length (tc_promises c)) f c')"
  using assms silent_sendFrame [OF assms(2), of f]
  by (auto simp: sendOrReject_def stillPending_def settle_def silent_def nth_append nth_list_update)


lemma silent_setSock: "silent c \<Longrightarrow> silent (setSock w CLOSED c)"
  using set_update_subset_insert [of "tt_socks (tc_transport c)" w CLOSED] by (auto simp: silent_def setSock_def)


lemma silent_sent: "silent c \<Longrightarrow> \<exists>H. snd (ts_send P i m c) = c\<lparr>tc_sessions := H\<rparr> \<or> snd (ts_send P i m c) = c"
proof -
  assume "silent c"
  then have "sendFrame f (c\<lparr>tc_sessions := H\<rparr>) = None" for f H
    by (intro silent_sendFrame) (simp add: silent_def)
  then show ?thesis by (auto simp: ts_send_def Let_def split: option.split prod.split)
qed


lemma silent_do:
  assumes "silent c"
  shows "silent (ts_do P U ev c) \<and> stillPending c (ts_do P U ev c)"
proof (cases ev)
  case ApiRequestPairCode
  have "silent (c\<lparr>tc_promises := tc_promises c @ [None], tc_pairRequest := x\<rparr>)" for x using assms by (simp add: silent_def)
  from silent_request [OF assms this] show ?thesis using ApiRequestPairCode by (simp add: ts_requestPairCode_def newPromise_def)
next
  case (ApiAcceptPair code)
  have "silent (c\<lparr>tc_promises := tc_promises c @ [None], tc_pairAccepts := x\<rparr>)" for x using assms by (simp add: silent_def)
  from silent_request [OF assms this] show ?thesis using ApiAcceptPair by (simp add: ts_acceptPair_def newPromise_def)
next
  case ApiUnpair
  have "silent (c\<lparr>tc_promises := tc_promises c @ [None], tc_unpair := x\<rparr>)" for x using assms by (simp add: silent_def)
  from silent_request [OF assms this] show ?thesis using ApiUnpair by (simp add: ts_unpair_def newPromise_def)
next
  case (ApiSend i m)
  obtain H where "snd (ts_send P i m c) = c\<lparr>tc_sessions := H\<rparr> \<or> snd (ts_send P i m c) = c" using silent_sent [OF assms] by blast
  then show ?thesis using ApiSend assms by (elim disjE) (simp_all add: stillPending_def silent_def)
next
  case (SockClosed w reason)
  then show ?thesis using assms
    using silent_setSock [OF assms, of w] by (simp add: sockClosed_def silent_def stillPending_def setSock_def)
next
  case (ReconnectTimer i)
  then show ?thesis using assms by (simp add: transportTimer_def transportConnect_def silent_def stillPending_def)
next
  case ApiDisconnect
  then show ?thesis using assms by (simp add: ts_disconnect_def transportClose_def silent_def stillPending_def Let_def split: option.split)
next
  case PingTimer
  then show ?thesis using assms silent_sendFrame by (simp add: ts_ping_def sendThen_def stillPending_def)
next
  case (SockOpened w)
  then show ?thesis using assms silent_not_sock(2) [OF assms] by (simp add: stillPending_def)
next
  case (SockText w rnd raw)
  then show ?thesis using assms silent_not_sock(1) [OF assms] by (simp add: stillPending_def)
next
  case (SockBinary w rnd now t d)
  then show ?thesis using assms silent_not_sock(1) [OF assms] by (simp add: stillPending_def)
next
  case (Resume n)
  then show ?thesis using assms by (simp add: ts_resume_def silent_def stillPending_def)
next
  case ApiConnect
  then show ?thesis using assms by (simp add: ts_connect_def newPromise_def transportConnect_def silent_def stillPending_def nth_append)
next
  case ApiWaitForPairing
  then show ?thesis using assms
    by (simp add: ts_waitForPairing_def newPromise_def addOnce_def addListener_def silent_def stillPending_def nth_append)
qed (use assms in \<open>simp_all add: addOnce_def addListener_def removeListener_def silent_def stillPending_def\<close>)


lemma silent_runs: "silent c \<Longrightarrow> stillPending c (ts_runs P U evs c)"
proof (induction evs arbitrary: c)
  case (Cons ev evs)
  have s: "silent (ts_do P U ev c)" "stillPending c (ts_do P U ev c)" using silent_do [OF Cons.prems] by simp_all
  from Cons.IH [OF s(1)] s(2) show ?case by (auto simp: ts_runs_def stillPending_def)
qed (simp add: ts_runs_def stillPending_def)

lemma transportClose_socks:
  assumes "s \<in> set (tt_socks (transportClose t))" and "\<forall>v < length (tt_socks t). tt_ws t = Some v \<or> tt_socks t ! v = CLOSED"
  shows "s \<noteq> OPEN \<and> s \<noteq> CONNECTING"
proof -
  obtain v where v: "v < length (tt_socks t)" "s = tt_socks (transportClose t) ! v"
    using assms(1) by (auto simp: in_set_conv_nth transportClose_def Let_def split: option.splits)
  show ?thesis
  proof (cases "tt_ws t = Some v")
    case True
    then show ?thesis using v by (simp add: transportClose_def sockClose_def Let_def split: option.split)
  next
    case False
    then have "tt_socks (transportClose t) ! v = tt_socks t ! v"
      by (auto simp: transportClose_def nth_list_update_neq Let_def split: option.split)
    then show ?thesis using v assms(2) False by auto
  qed
qed




end
