(* ===== verification/Sdk_Waits.thy ===== *)
theory Sdk_Waits
  imports Sdk_System Ts_Pairing
begin

text \<open>
  How the pairing calls of the Go client end (\<^verbatim>\<open>sdk/go/client.go\<close>, \<^verbatim>\<open>pairing.go\<close>): each of them waits in a select for its result, for
  its context and for the end of the client. Also the value a pairing request returns and the
  address it prints for a QR code, in comparison with the one of the TypeScript library.
\<close>

section \<open>Definitions\<close>

text \<open>The case the select takes; a result is only there when the channel holds one.\<close>

datatype wakeup = ByResult | ByContext | ByDone

datatype waitFailure = ResultError sdk_error | ContextError | ClientClosed

record sdkPeer =
  Peer_ID :: device_id
  Peer_PublicKey :: bytes

record PairCode =
  Short :: string
  ExpiresIn :: int
  resultCh :: chan

text \<open>The outcome of a wait; \<open>None\<close> while the case that was picked is not ready.\<close>

definition resultOf :: "PairResult \<Rightarrow> waitFailure + sdkPeer" where
  "resultOf r = (case res_Error r of Some e \<Rightarrow> Inl (ResultError e) | None \<Rightarrow> Inr \<lparr>Peer_ID = res_PeerID r, Peer_PublicKey = res_PeerPublicKey r\<rparr>)"

definition AcceptPair_wait :: "wakeup \<Rightarrow> string \<Rightarrow> chan \<Rightarrow> ('h, 'c) Client \<Rightarrow> (waitFailure + sdkPeer) option \<times> ('h, 'c) Client" where
  "AcceptPair_wait k code ch c =
     (case k of
        ByResult \<Rightarrow> (case chans c ch of [] \<Rightarrow> (None, c) | r # rs \<Rightarrow> (Some (resultOf r), c\<lparr>chans := (chans c)(ch := rs)\<rparr>))
      | ByContext \<Rightarrow> (Some (Inl ContextError), removePairWaiter code c)
      | ByDone \<Rightarrow> (if c_closed c then (Some (Inl ClientClosed), removePairWaiter code c) else (None, c)))"

text \<open>The second wait of \<^verbatim>\<open>RequestPairCode\<close>; \<open>ch'\<close> is the channel of the pairing code.\<close>

definition RequestPairCode_wait :: "wakeup \<Rightarrow> chan \<Rightarrow> chan \<Rightarrow> ('h, 'c) Client \<Rightarrow> (waitFailure + PairCode) option \<times> ('h, 'c) Client" where
  "RequestPairCode_wait k ch ch' c =
     (case k of
        ByResult \<Rightarrow>
          (case chans c ch of
             [] \<Rightarrow> (None, c)
           | r # rs \<Rightarrow>
               (let c1 = c\<lparr>chans := (chans c)(ch := rs)\<rparr>
                in case res_Error r of
                     Some e \<Rightarrow> (Some (Inl (ResultError e)), c1)
                   | None \<Rightarrow> (Some (Inr \<lparr>Short = res_Code r, ExpiresIn = res_ExpiresIn r, resultCh = ch'\<rparr>),
                              putPairWaiter (res_Code r) \<lparr>wt_ch = ch', weAreAcceptor = False\<rparr> c1)))
      | ByContext \<Rightarrow> (Some (Inl ContextError), removePairWaiter requestKey c)
      | ByDone \<Rightarrow> (if c_closed c then (Some (Inl ClientClosed), removePairWaiter requestKey c) else (None, c)))"

definition PairCode_Wait :: "wakeup \<Rightarrow> PairCode \<Rightarrow> ('h, 'c) Client \<Rightarrow> (waitFailure + sdkPeer) option \<times> ('h, 'c) Client" where
  "PairCode_Wait k p c =
     (case k of
        ByResult \<Rightarrow> (case chans c (resultCh p) of [] \<Rightarrow> (None, c) | r # rs \<Rightarrow> (Some (resultOf r), c\<lparr>chans := (chans c)(resultCh p := rs)\<rparr>))
      | ByContext \<Rightarrow> (Some (Inl ContextError), c)
      | ByDone \<Rightarrow> (if c_closed c then (Some (Inl ClientClosed), c) else (None, c)))"

text \<open>
  \<open>U url code\<close> stands for the package \<^verbatim>\<open>net/url\<close>: \<open>url\<close> with the path \<^verbatim>\<open>/pair\<close> and the query parameter \<^verbatim>\<open>code\<close>, printed; \<open>None\<close> when
  \<open>url\<close> does not parse.
\<close>

definition QRCodeURL :: "(string \<Rightarrow> string \<Rightarrow> string option) \<Rightarrow> string \<Rightarrow> PairCode \<Rightarrow> string" where
  "QRCodeURL U serverURL p =
     (case U serverURL (Short p) of None \<Rightarrow> serverURL @ ''/pair?code='' @ Short p | Some s \<Rightarrow> s)"

section \<open>Lemmas\<close>

text \<open>The waits with a result are the receives the event system of the client has.\<close>

lemma wait_by_result:
  "snd (AcceptPair_wait ByResult code ch c) = snd (waitPair ch c)"
  "snd (PairCode_Wait ByResult p c) = snd (waitPair (resultCh p) c)"
  "snd (RequestPairCode_wait ByResult ch ch' c) = snd (RequestPairCode_result ch ch' c)"
  by (simp_all add: AcceptPair_wait_def PairCode_Wait_def RequestPairCode_wait_def waitPair_def RequestPairCode_result_def Let_def
      split: list.split option.split)

lemma removed_waiter: "takePairWaiter code (removePairWaiter code c) = (None, removePairWaiter code c)"
proof -
  have "map_of (filter (\<lambda>(k, w). k \<noteq> code) l) code = None" for l :: "(string \<times> pairWaiter) list"
    by (induction l) auto
  moreover have "filter (\<lambda>(k, w). k \<noteq> code) (filter (\<lambda>(k, w). k \<noteq> code) l) = filter (\<lambda>(k, w). k \<noteq> code) l" for l :: "(string \<times> pairWaiter) list"
    by (induction l) auto
  ultimately show ?thesis by (simp add: takePairWaiter_def removePairWaiter_def)
qed

text \<open>
  A pairing that completes after its caller gave up is lost at this client: the notification
  of the server, which has linked the two devices, changes nothing, so neither side starts a
  handshake.
\<close>

lemma cancelled_accept_drops_link:
  assumes "c' = snd (AcceptPair_wait ByContext (m_Code frame) ch c)"
  shows "handlePairComplete lib rnd n frame c' = c'"
  using assms by (simp add: AcceptPair_wait_def handlePairComplete_def removed_waiter)

text \<open>A requester that stops waiting keeps its waiter: the pairing still completes.\<close>

lemma cancelled_wait_keeps_waiter: "snd (PairCode_Wait ByContext p c) = c"
  by (simp add: PairCode_Wait_def)

text \<open>Every wait ends once the client is closed.\<close>

lemma waits_end:
  assumes "c_closed c"
  shows "fst (AcceptPair_wait ByDone code ch c) = Some (Inl ClientClosed)" "fst (RequestPairCode_wait ByDone ch ch' c) = Some (Inl ClientClosed)"
    "fst (PairCode_Wait ByDone p c) = Some (Inl ClientClosed)"
  using assms by (simp_all add: AcceptPair_wait_def RequestPairCode_wait_def PairCode_Wait_def)

text \<open>
  For a server reached over TLS the two libraries print different addresses for the QR code: Go
  keeps the scheme \<^verbatim>\<open>wss\<close>, TypeScript makes up the scheme \<^verbatim>\<open>wsss\<close>.
\<close>

lemma qr_addresses_differ:
  assumes "\<And>s url code u. U url code = Some u \<Longrightarrow> prefix (s @ ''://'') url \<Longrightarrow> prefix (s @ ''://'') u"
    and "U (''wss://'' @ host) (Short p) = Some u" and "U (''httpss://'' @ host) (Short p) = Some u'"
  shows "prefix ''wss://'' (QRCodeURL U (''wss://'' @ host) p) \<and> prefix ''wsss://'' (buildQrUrl U (''wss://'' @ host) (Short p))"
proof -
  have "prefix (''wss'' @ ''://'') u" "prefix (''httpss'' @ ''://'') u'"
    by (rule assms(1) [OF assms(2)], simp, rule assms(1) [OF assms(3)], simp)
  then obtain rest where "u' = ''httpss://'' @ rest" "prefix ''wss://'' u" by (auto simp: prefix_def)
  then show ?thesis using assms(2,3) by (simp add: QRCodeURL_def buildQrUrl_def replacePrefix_def)
qed

text \<open>
  A pairing that completes before its requester has run on is lost: the requester registers its interest in the
  code only after it has received the code, and until then the notification of the server finds nobody. The
  peer is not recorded, its handshake messages are dropped, and the later wait is never notified.
\<close>

lemma early_pairing_lost:
  assumes "map_of (pairWaiters c) (m_Code done_frame) = None"
    and "c1 = handlePairCode code_frame c"
  shows "handlePairComplete lib rnd n done_frame c1 = c1"
proof -
  have f: "filter (\<lambda>(k, w). k \<noteq> x) l = l" if "map_of l x = None" for x and l :: "(string \<times> pairWaiter) list"
    using that by (induction l) (auto split: if_splits)
  have g: "map_of (filter (\<lambda>(k, w). k \<noteq> y) l) x = None" if "map_of l x = None" for x y and l :: "(string \<times> pairWaiter) list"
    using that by (induction l) (auto split: if_splits)
  have "map_of (pairWaiters c1) (m_Code done_frame) = None"
    using assms g by (auto simp: handlePairCode_def takePairWaiter_def notify_def split: option.split)
  then show ?thesis using f by (simp add: handlePairComplete_def takePairWaiter_def)
qed

end
