(* ===== verification/Spec2Isabelle.thy ===== *)
theory Spec2Isabelle
  imports Directory_Spec Config_Load Ts_Noise Interop_Run Interop_Client Example_Programs Sdk_Loops Whole_System Sdk_Waits
begin

text \<open>
  A verification library for Relayly, a relay server that connects paired devices, for its Go
  and TypeScript client libraries, which encrypt end to end, and for the programs that exercise
  them. Source paths below are relative to \<^verbatim>\<open>src/\<close>.

  \<^bold>\<open>The program.\<close> A device registers with the server (REST API or \<^verbatim>\<open>relayly pair\<close>) and gets an
  identifier and a token that expires unless the device is paired. It opens a WebSocket with them;
  the hub knows one connection per device. Text frames are the control channel: announce a key,
  request and accept a pairing code, unpair. Binary frames are envelopes, which the relay hands to
  the connection of the paired device without looking inside. The client library runs a Noise XX
  handshake with the peer through the relay, pins the authenticated key of the peer in a file, and
  encrypts messages with the resulting session; after a reconnect a replacement session is
  negotiated while the old one stays in use. An admin server and a command line work on the same
  SQLite table. An interoperability harness runs the client libraries of all languages against the
  server through a proxy, and four example programs show the Go library in use.

  \<^bold>\<open>The theories\<close>, in the order of their imports.

  \<^item> \<open>Relayly_Prelude\<close>: types, rule collections, reachability, and the interface locales
    \<open>inductive_invariant\<close>, \<open>refinement_mapping\<close>, \<open>tofu_lock\<close> and \<open>bounded_queue\<close>. Three more
    locales stand with the component that first needs them: \<open>code_registry\<close>,
    \<open>device_directory\<close> and \<open>keyed_admission\<close>. Each is interpreted on the definitions of the
    model.
  \<^item> \<open>Pair_Codes\<close> (\<^verbatim>\<open>internal/relay/paircodes.go\<close>): the registry of pairing codes; a code is
    redeemed at most once and exactly until it expires.
  \<^item> \<open>Device_Store\<close>, \<open>Store_Contracts\<close> (\<^verbatim>\<open>internal/database/pairing.go\<close>): every statement on the
    device table as a function on a list of rows, with transactions and a script of driver
    failures; pairing is atomic, links are symmetric while deletions complete, keys are locked.
  \<^item> \<open>Pairing_Tokens\<close> (\<^verbatim>\<open>internal/pairing/pairing.go\<close>): tokens and codes on 64-bit words.
  \<^item> \<open>Server_Config\<close> (\<^verbatim>\<open>internal/config/config.go\<close>): configuration, defaults, validation;
    \<open>Config_Load\<close>: the calls of \<^verbatim>\<open>Load\<close> on the Viper library and where each setting comes from.
  \<^item> \<open>Relay_Hub\<close>, \<open>Relay_Control\<close>, \<open>Relay_System\<close> (\<^verbatim>\<open>internal/relay\<close>: \<^verbatim>\<open>client.go\<close>, \<^verbatim>\<open>hub.go\<close>,
    \<^verbatim>\<open>control.go\<close>, \<^verbatim>\<open>handler.go\<close>): client objects in a heap, the hub, every control handler, the
    HTTP handler and the pumps; \<open>perform\<close> is one event and \<open>relay_step\<close> the resulting step
    relation, whose invariant says that no live connection is lost and every queue is bounded.
  \<^item> \<open>Directory_Spec\<close>: the abstract directory of devices, links and keys, and the proof that the
    running relay refines it under every interleaving and every script of failures.
  \<^item> \<open>Relay_Progress\<close>: the hub empties its channels, and the write pump brings a routed frame to
    the wire of the peer.
  \<^item> \<open>Rate_Limit\<close> (\<^verbatim>\<open>internal/relay/ratelimit.go\<close>), \<open>Migrations\<close> (\<^verbatim>\<open>internal/database/db.go\<close>),
    \<open>Front_Ends\<close> (\<^verbatim>\<open>internal/api\<close>, \<^verbatim>\<open>internal/admin\<close>, \<^verbatim>\<open>internal/cli\<close>), \<open>Server_Start\<close> (routing
    tables, opening the database, start and status commands): what the other servers and commands
    can do to the table.
  \<^item> \<open>Sdk_Wire\<close>, \<open>Sdk_Crypto\<close>, \<open>Sdk_Peer_Store\<close>, \<open>Sdk_Noise\<close>, \<open>Sdk_Peer\<close>, \<open>Sdk_Client\<close>
    (\<^verbatim>\<open>sdk/go\<close>): envelopes, options and errors; keys and their files; the pin store; one Noise
    session; the active and the pending session of a peer; the client with its dispatch,
    handshake resolution, sending, pairing calls and reconnection.
  \<^item> \<open>Sdk_System\<close>, \<open>Sdk_Conversation\<close>, \<open>Sdk_Pairing\<close>: the client as a step relation, with the
    invariant that a usable session authenticated the pinned key, two clients that talk to each
    other, and the steps of a pairing on the two sides.
  \<^item> \<open>Sdk_Loops\<close> (\<^verbatim>\<open>sdk/go/client.go\<close>): the goroutines of a client and its connections; every run of
    them is a run of the step relation.
  \<^item> \<open>Whole_System\<close>: the relay and the clients connected to it as one system, whose parts only go
    through reachable states of their own, and a pairing from end to end.
  \<^item> \<open>Ts_Noise\<close> (\<^verbatim>\<open>sdk/ts/src/noise\<close>): the Noise XX implementation of the TypeScript library over
    its primitives; it satisfies \<open>noise_contract\<close>, and its sessions do what the Go sessions do.
  \<^item> \<open>Ts_Peer\<close> (\<^verbatim>\<open>sdk/ts/src\<close>: \<^verbatim>\<open>errors.ts\<close>, \<^verbatim>\<open>crypto.ts\<close>, \<^verbatim>\<open>peer.ts\<close>, \<^verbatim>\<open>peerStore.ts\<close>, \<^verbatim>\<open>node.ts\<close>): error classes, keys,
    the peer with its active and pending session, and the two pin stores; the peer answers every
    sequence of calls as the Go peer does.
  \<^item> \<open>Ts_Transport\<close> (\<^verbatim>\<open>transport.ts\<close>, \<^verbatim>\<open>TinyEmitter\<close> of \<^verbatim>\<open>client.ts\<close>): event listeners with the semantics of
    \<^verbatim>\<open>forEach\<close> over an array that changes, sockets, reconnection timers and the delays between attempts.
  \<^item> \<open>Ts_Client\<close>, \<open>Ts_Pairing\<close> (\<^verbatim>\<open>client.ts\<close>): the calls, the handlers, and \<open>ts_do\<close>, one event of the single
    thread; \<open>ts_step\<close> is the resulting step relation, whose invariant says that every key the
    client announces is pinned. Two clients pair and talk to each other.
  \<^item> \<open>Sdk_Waits\<close> (\<^verbatim>\<open>sdk/go/client.go\<close>, \<^verbatim>\<open>pairing.go\<close>): how the pairing calls of the Go library end, by a result, by
    their context or by the end of the client, and the address for a QR code in both libraries.
  \<^item> \<open>Interop_Harness\<close>, \<open>Interop_Scenarios\<close>, \<open>Interop_Run\<close> (\<^verbatim>\<open>interop/harness\<close>): waiting for events
    and the rewriting proxy; the scripted scenarios and what a passing run has shown; building,
    starting, the matrix, its verdict and the cleaning up.
  \<^item> \<open>Interop_Client\<close> (\<^verbatim>\<open>interop/clients/go\<close>): the client program the harness runs; what it reports
    of a pairing is what the library pinned.
  \<^item> \<open>Example_Programs\<close> (\<^verbatim>\<open>examples/go\<close>): credentials, configuration, pairing and the loops of the
    four example programs.
  \<^item> This theory: the way of a message from one application to the other.

  \<^bold>\<open>What is a parameter.\<close> The clock, random bytes, UUIDs, the order in which Go ranges over a map
  or chooses between ready cases of a select, and the outcome of sockets, files and driver calls
  are arguments of the definitions, so the theorems hold for all of them. \<^verbatim>\<open>json.Unmarshal\<close> of a
  control frame is a function argument; encoded messages are kept as values. The Noise library
  (\<^verbatim>\<open>flynn/noise\<close>) is a record of functions; what is assumed of it, where something is, is
  \<open>noise_contract\<close> (the three messages of XX give both sides the key of the other and paired
  cipher states, which transport in order); \<open>plainLib\<close> and \<open>counterLib\<close> show that it can hold, and
  \<open>tsLib\<close> that the TypeScript implementation fulfils it, where the primitives it calls (curve, hash,
  key derivation, cipher) are a record with the contract \<open>prims_contract\<close>. Scalar multiplication on
  the curve, the level names of the logger, the template library, the tools the harness runs and
  the events a client process writes are arguments too. Viper is a record of functions with the contract \<open>viper_contract\<close>, its
  documented precedence, over the files (\<open>files_contract\<close>) and the decoders of values; \<open>docViper\<close> is an
  instance. \<^verbatim>\<open>JSON.parse\<close>, the \<^verbatim>\<open>URL\<close> classes of both platforms and the base64 decoder of the TypeScript
  platform are arguments.

  \<^bold>\<open>Bounds.\<close> No definition uses fuel, except that trimming a line takes at most as many steps as it
  has characters, which is enough because every step removes one (\<open>stripSpaces_done\<close>). Loops are structural recursions or recursions with a
  measure; the loops of goroutines appear one round at a time, as steps. The endless loop of the
  reconnection runs over a script of what each round meets, and its result is \<open>None\<close> when the
  script ends first: \<open>reconnect_ends\<close> says exactly when that is. Durations of the backoff and the
  base58 arithmetic wrap at 64 bits as in Go. Queue capacities are those of the code (256 frames
  of a connection, 64 messages of the client); the hub's channels and the client's outgoing
  channel, on which senders block, are unbounded, so the models have at least the interleavings of
  the program.

  \<^bold>\<open>Granularity.\<close> A handler of the relay is one step, except that the HTTP handler is cut before
  the welcome. A handler of the client's read loop is one step: \<open>send_only_to_pinned\<close> therefore does
  not speak of a \<open>Send\<close> on another goroutine between the last handshake message and the
  verification of the key, where the session is usable already (\<open>usable_before_verification\<close>). In
  \<open>Sdk_Loops\<close> dialling is cut where the connection is stored, so that \<open>Close\<close> and the write loop can
  come between; after \<open>Close\<close> the write loop may take further frames, as its select may. In
  \<open>Whole_System\<close> a frame leaves a client, travels, is handled, queued, written and read in separate
  steps. A handler of the TypeScript client is one step up to its \<^verbatim>\<open>await\<close>, and what follows is another
  step, so that other events come between; the file store is cut at its awaits in the same way.

  \<^bold>\<open>Flaws the model shows.\<close> Proved as theorems: a cancelled \<open>Send\<close> makes the peer lose everything
  that follows (\<open>cancelled_send_silences\<close>); a key that contradicts the announced one stays pinned
  (\<open>rejected_key_stays_pinned\<close>); a lost replacement handshake swallows the next one
  (\<open>stale_replacement_swallows\<close>) and a failed first one is never retried
  (\<open>failed_first_handshake_is_permanent\<close>); an unpaired device can still be routed
  (\<open>unpaired_device_still_routed\<close>); a dead connection can stay registered
  (\<open>dead_connection_registered\<close>); an interrupted migration or deletion leaves the database half
  changed (\<open>interrupted_migration_is_fatal\<close>, \<open>DeleteDevice_one_sided\<close>); different inputs have the
  same base58 text (\<open>base58_collision\<close>); \<^verbatim>\<open>relayly link\<close> pairs a device with itself
  (\<open>link_with_itself\<close>); a status message can overtake the welcome, and the client gives up
  (\<open>welcome_overtaken\<close>); a client closed while it dials stays connected (\<open>close_during_dial\<close>), broken
  connections are never closed (\<open>reconnect_keeps_old_open\<close>), and frames can precede the key
  announcement (\<open>write_before_announce\<close>); the chat example in two terminals is one device
  (\<open>chat_in_two_terminals\<close>); two clipboards can swap their contents for ever
  (\<open>clipboards_never_settle\<close>); the negative tests of the harness accept any reason
  (\<open>pairErrorStep_any_reason\<close>). In the TypeScript library a rejected key stays in use
  (\<open>ts_rejected_key_still_used\<close>), \<^verbatim>\<open>disconnect\<close> leaves calls behind (\<open>ts_disconnect_strands\<close>), a failed first handshake
  blocks the peer (\<open>ts_failed_handshake_blocks\<close>), a listener registered after a \<^verbatim>\<open>once\<close> listener misses an
  event (\<open>once_skips_next\<close>, \<open>second_wait_misses\<close>), overlapping pins are lost (\<open>file_pins_race\<close>), peers named like properties of
  every object cannot be pinned (\<open>prototype_names_never_pinned\<close>), and the address for a QR code has a scheme that
  does not exist (\<open>qr_scheme_broken\<close>). The environment alone cannot name the TLS files (\<open>tls_env_ignored\<close>), and with
  \<^verbatim>\<open>--config\<close> the local file is not merged (\<open>explicit_file\<close>). In the Go library a cancelled \<open>AcceptPair\<close> and a pairing that completes
  early are lost (\<open>cancelled_accept_drops_link\<close>, \<open>early_pairing_lost\<close>).

  \<^bold>\<open>Not modelled.\<close> The bodies of the HTML templates, QR images and console output; Viper, Cobra, zap,
  gorilla/websocket, the SQLite driver, flynn/noise and the \<^verbatim>\<open>@noble\<close> packages (outside the sources,
  parameters where they matter); deadlines and tickers other than as failures and steps; the callbacks
  \<^verbatim>\<open>OnDisconnect\<close> and \<^verbatim>\<open>OnReconnect\<close>. Of the TypeScript library: the React hooks, which hand calls and events to
  components whose scheduling belongs to React; listeners of the application that call the client
  before they return (their calls are later events); control frames with properties of the
  wrong type; a constructor of \<^verbatim>\<open>WebSocket\<close> that throws; the client over the file store instead of
  the one in memory. The Python, Rust and C++ libraries, which follow the same protocol on event
  loops and Noise implementations of their own platforms.
\<close>

section \<open>From application to application\<close>

text \<open>
  C3: a message travels end to end. A device sends to its peer through the library; the
  bytes the library queues are read by the relay on the connection of the device, routed to
  the peer, written to its socket after what was queued there, and read by the library of the
  peer, which hands the application exactly the message, under the name of the sender. The relay
  handles the envelope only; the two sessions are connected by the assumed contract of the Noise
  library.
\<close>

theorem message_end_to_end:
  assumes "noise_contract lib pub paired N" and "paired (Suc n) c d"
    and "talks cA idB c" and "listens cB idA d" and "length (messages cB) < messagesCapacity"
    and "threads s a = Some Pumping" and "heap s a = Some cl" and "connOpen cl" and "pairedWith cl = idB" and "idB \<noteq> ''''"
    and "\<And>ct c'. Encrypt lib c m = Some (ct, c') \<Longrightarrow> \<not> oversize cl (encodeEnvelope envelopeTransport ct)"
    and "clients s idB = Some b" and "threads s b = Some Pumping" and "heap s b = Some pl" and "\<not> closed pl"
    and "connOpen pl" and "writing pl" and "length (send pl) < sendBufferSize" and "list_all (\<lambda>f. \<not> closeAfter f) (send pl)"
  shows "\<exists>cA' f t u pl'. Send lib SendCase idB m cA = (None, cA') \<and> sends cA' = sends cA @ [BinaryFrame f] \<and>
    perform unmarshal cfg (Read a rnd swap now (InBinary f)) s = Some t \<and>
    performs unmarshal cfg (replicate (Suc (length (send pl))) (Write b True)) t = Some u \<and>
    heap u b = Some pl' \<and> wire pl' = wire pl @ map WireFrame (send pl @ [envelopeFrame f]) \<and>
    messages (readBinary lib res nowText rnd' now' k idA f cB) = messages cB @ [\<lparr>From = idA, Payload = m, Timestamp = now'\<rparr>]"
proof -
  obtain ct c' d' where step: "Encrypt lib c m = Some (ct, c')" "Decrypt lib d ct = Some (m, d')"
    using noise_contract_transport [OF assms(1,2)] by metis
  let ?f = "encodeEnvelope envelopeTransport ct"
  obtain cA' where sent: "Send lib SendCase idB m cA = (None, cA')" "sends cA' = sends cA @ [BinaryFrame ?f]"
    using Send_talks [OF assms(3) step(1), of SendCase] by auto
  have "messages (readBinary lib res nowText rnd' now' k idA ?f cB) = messages cB @ [\<lparr>From = idA, Payload = m, Timestamp = now'\<rparr>]"
    by (rule readBinary_listens(2) [OF assms(4) step(2) assms(5)])
  moreover obtain t where t: "perform unmarshal cfg (Read a rnd swap now (InBinary ?f)) s = Some t"
    using assms(6-8) by simp
  note routed = read_routes [OF t assms(7) assms(11) [OF step(1)], unfolded assms(9), OF assms(10,12,14,15,18)]
  let ?pl = "pl\<lparr>send := send pl @ [envelopeFrame ?f]\<rparr>"
  have "\<exists>u. performs unmarshal cfg (replicate (length (send ?pl)) (Write b True)) t = Some u \<and>
      heap u b = Some (?pl\<lparr>send := [], wire := wire ?pl @ map WireFrame (send ?pl)\<rparr>)"
    by (rule write_flushes [OF _ routed(2)]) (use routed(1) assms(13,16,17,19) in simp_all)
  then obtain u where "performs unmarshal cfg (replicate (Suc (length (send pl))) (Write b True)) t = Some u"
    "heap u b = Some (?pl\<lparr>send := [], wire := wire ?pl @ map WireFrame (send ?pl)\<rparr>)"
    by (auto simp del: performs.simps perform.simps replicate_Suc)
  ultimately show ?thesis using sent t
    by (intro exI [of _ cA'] exI [of _ ?f] exI [of _ t] exI [of _ u]) (simp del: performs.simps perform.simps replicate_Suc)
qed

theorem message_end_to_end_witness:
  "\<exists>cA' f s t u pl'. Send plainLib SendCase ''b'' [7] (sample_talker ''b'') = (None, cA') \<and> sends cA' = [BinaryFrame f] \<and>
     performs (\<lambda>_. None) sample_cfg sample_linked sample_start = Some s \<and>
     perform (\<lambda>_. None) sample_cfg (Read 0 None False 3 (InBinary f)) s = Some t \<and>
     performs (\<lambda>_. None) sample_cfg [Write 1 True, Write 1 True, Write 1 True] t = Some u \<and>
     heap u 1 = Some pl' \<and> last (wire pl') = WireFrame (envelopeFrame f) \<and>
     messages (readBinary plainLib SaveOk ''now'' [] 4 0 ''a'' f (sample_talker ''a'')) = [\<lparr>From = ''a'', Payload = [7], Timestamp = 4\<rparr>]"
proof -
  have "case performs (\<lambda>_. None) sample_cfg sample_linked sample_start of None \<Rightarrow> False
      | Some s \<Rightarrow> (case heap s 0 of None \<Rightarrow> False | Some cl \<Rightarrow> connOpen cl \<and> pairedWith cl = ''b'' \<and>
            \<not> oversize cl (encodeEnvelope envelopeTransport [7])) \<and>
          threads s 0 = Some Pumping \<and> clients s ''b'' = Some 1 \<and> threads s 1 = Some Pumping \<and>
          (case heap s 1 of None \<Rightarrow> False
           | Some pl \<Rightarrow> \<not> closed pl \<and> connOpen pl \<and> writing pl \<and> length (send pl) = 2 \<and> list_all (\<lambda>f. \<not> closeAfter f) (send pl))"
    by code_simp
  then obtain s cl pl where s: "performs (\<lambda>_. None) sample_cfg sample_linked sample_start = Some s"
    and cl: "threads s 0 = Some Pumping" "heap s 0 = Some cl" "connOpen cl" "pairedWith cl = ''b''"
      "\<not> oversize cl (encodeEnvelope envelopeTransport [7])"
    and d: "clients s ''b'' = Some 1" "threads s 1 = Some Pumping" "heap s 1 = Some pl"
    and pl: "\<not> closed pl" "connOpen pl" "writing pl" "length (send pl) = 2" "list_all (\<lambda>f. \<not> closeAfter f) (send pl)"
    by (auto simp del: perform.simps performs.simps split: option.splits)
  have ct: "\<not> oversize cl (encodeEnvelope envelopeTransport ct)" if "Encrypt plainLib 0 [7] = Some (ct, c')" for ct c'
    using that cl(5) by (simp add: plainLib_def)
  have room: "length (send pl) < sendBufferSize" "length (messages (sample_talker ''a'')) < messagesCapacity"
    using pl(4) by (simp_all add: sendBufferSize_def sample_talker_talks messagesCapacity_def)
  have three: "replicate (Suc (length (send pl))) (Write 1 True) = [Write 1 True, Write 1 True, Write 1 True]"
    using pl(4) by (simp add: numeral_2_eq_2)
  from message_end_to_end [where unmarshal = "\<lambda>_. None" and cfg = sample_cfg and rnd = None and swap = False and now = 3
      and res = SaveOk and nowText = "''now''" and rnd' = "[]" and now' = 4 and k = 0 and m = "[7]",
      OF plainLib_contract refl sample_talker_talks(1,2) room(2) cl(1-4) _ ct d pl(1-3) room(1) pl(5),
      unfolded three sample_talker_talks append_Nil] s
  show ?thesis by (force simp del: performs.simps perform.simps)
qed

end
